(* ===== verification/CF_Prelude.thy ===== *)
theory CF_Prelude
  imports Main "HOL-Library.Word"
begin

text \<open>
  Prelude of the development: the machine integer types of the C++ code, the sum-type error
  combinators that model throwing functions, the named collections of simplification facts, and
  the generic lemmas on words and lists that several components share.
\<close>

unbundle bit_operations_syntax

section \<open>Machine integers\<close>

type_synonym u8 = "8 word"
type_synonym u16 = "16 word"
type_synonym u32 = "32 word"
type_synonym u64 = "64 word"
type_synonym bytes = "8 word list"

abbreviation UINT64_MAX :: u64 where "UINT64_MAX \<equiv> - 1"

section \<open>Collections of facts\<close>

named_theorems err_simps "rewriting of error-returning computations"
named_theorems codec_simps "lengths and readings of encodings"
named_theorems inv_intros "preservation of component invariants"

section \<open>Errors as values\<close>

text \<open>
  A function that may throw returns a sum: \<open>Inl\<close> carries what was thrown. \<open>sbind\<close> is the
  sequencing of C++ statements: an exception skips the rest.
\<close>

definition sbind :: "'e + 'a \<Rightarrow> ('a \<Rightarrow> 'e + 'b) \<Rightarrow> 'e + 'b" where
  "sbind m f = (case m of Inl e \<Rightarrow> Inl e | Inr x \<Rightarrow> f x)"

definition throw_if :: "bool \<Rightarrow> 'e \<Rightarrow> 'e + unit" where
  "throw_if b e = (if b then Inl e else Inr ())"

definition or_throw :: "'a option \<Rightarrow> 'e \<Rightarrow> 'e + 'a" where
  "or_throw v e = (case v of None \<Rightarrow> Inl e | Some x \<Rightarrow> Inr x)"

lemma sbind_Inl [simp]: "sbind (Inl e) f = Inl e"
  by (simp add: sbind_def)

lemma sbind_Inr [simp]: "sbind (Inr x) f = f x"
  by (simp add: sbind_def)

lemma sbind_eq_Inr [err_simps]: "sbind m f = Inr y \<longleftrightarrow> (\<exists>x. m = Inr x \<and> f x = Inr y)"
  by (simp add: sbind_def split: sum.split)

lemma sbind_eq_Inl [err_simps]:
  "sbind m f = Inl e \<longleftrightarrow> m = Inl e \<or> (\<exists>x. m = Inr x \<and> f x = Inl e)"
  by (auto simp add: sbind_def split: sum.split)

lemma sbind_assoc: "sbind (sbind m f) g = sbind m (\<lambda>x. sbind (f x) g)"
  by (simp add: sbind_def split: sum.split)

lemma throw_if_simps [simp]: "throw_if True e = Inl e" "throw_if False e = Inr ()"
  by (simp_all add: throw_if_def)

lemma throw_if_eq_Inr [err_simps]: "throw_if b e = Inr u \<longleftrightarrow> \<not> b"
  by (simp add: throw_if_def)

lemma throw_if_eq_Inl [err_simps]: "throw_if b e = Inl e' \<longleftrightarrow> b \<and> e' = e"
  by (auto simp add: throw_if_def)

lemma or_throw_simps [simp]: "or_throw None e = Inl e" "or_throw (Some x) e = Inr x"
  by (simp_all add: or_throw_def)

lemma or_throw_eq_Inr [err_simps]: "or_throw v e = Inr x \<longleftrightarrow> v = Some x"
  by (simp add: or_throw_def split: option.split)

lemma or_throw_eq_Inl [err_simps]: "or_throw v e = Inl e' \<longleftrightarrow> v = None \<and> e' = e"
  by (auto simp add: or_throw_def split: option.split)

section \<open>Words\<close>

lemma unat_u64_less [simp]: "unat (x :: u64) < 18446744073709551616"
  using unsigned_less [of x] by simp

lemma unat_UINT64_MAX [simp]: "unat UINT64_MAX = 18446744073709551615"
  by (simp add: unsigned_minus_1_eq_mask mask_eq_exp_minus_1)

lemma unat_mult_u64: "unat (a * b :: u64) = unat a * unat b mod 2 ^ 64"
  using unat_word_ariths(2) [of a b] by simp

lemma unat_plus_u64: "unat (a + b :: u64) = (unat a + unat b) mod 2 ^ 64"
  using unat_word_ariths(1) [of a b] by simp

lemma unat_of_nat_u64: "n < 2 ^ 64 \<Longrightarrow> unat (of_nat n :: u64) = n"
  by (simp add: unsigned_of_nat take_bit_nat_eq_self)

lemma xor_left_cancel: "(c :: 'a::len word) XOR a = c XOR b \<longleftrightarrow> a = b"
  by (metis xor.assoc xor.left_neutral xor_self_eq)

lemma bit_lengths: "bit (b :: u8) i \<Longrightarrow> i < 8" "bit (w :: u32) i \<Longrightarrow> i < 32"
  using bit_imp_le_length [of b i] bit_imp_le_length [of w i] by simp_all

lemma mask_255: "(255 :: 'a::len word) = mask 8"
  by (simp add: mask_eq_exp_minus_1)

lemma mod_add_diff:
  fixes a r m :: nat
  assumes "a \<le> (a + r) mod m"
  shows "(a + r) mod m - a = r mod m"
proof (cases "m = 0")
  case True
  then show ?thesis by simp
next
  case False
  have "a + r = (a + r) div m * m + (a + r) mod m" by simp
  with assms have "r = (a + r) div m * m + ((a + r) mod m - a)" by linarith
  moreover have "(a + r) mod m - a < m"
    using mod_less_divisor [of m "a + r"] False by linarith
  ultimately show ?thesis by (metis mod_less mod_mult_self3)
qed

section \<open>Decimal text, as \<open>std::to_string\<close> gives it\<close>

fun digits :: "nat \<Rightarrow> string" where
  "digits n = (if n < 10 then [char_of (48 + n)] else digits (n div 10) @ [char_of (48 + n mod 10)])"

definition to_string :: "u64 \<Rightarrow> string" where
  "to_string n = digits (unat n)"

end
