(* ===== verification/CF_OrdMap.thy ===== *)
theory CF_OrdMap
  imports CF_Prelude
begin

text \<open>
  The ordered maps of the code (\<open>std::map\<close>): a list of entries with strictly increasing keys, so
  that iteration order is the key order as in the code and the model stays executable. The locale
  \<open>ordered_store\<close> is what the clients rely on; they use the laws of its interpretation \<open>om\<close>,
  not the representation.
\<close>

section \<open>The interface\<close>

locale ordered_store =
  fixes empty :: "'m"
    and find :: "'m \<Rightarrow> 'k::linorder \<Rightarrow> 'v option"
    and put :: "'k \<Rightarrow> 'v \<Rightarrow> 'm \<Rightarrow> 'm"
    and erase :: "'k \<Rightarrow> 'm \<Rightarrow> 'm"
    and keys :: "'m \<Rightarrow> 'k list"
    and inv :: "'m \<Rightarrow> bool"
  assumes find_empty: "find empty k = None"
    and find_put: "inv m \<Longrightarrow> find (put k v m) j = (if j = k then Some v else find m j)"
    and find_erase: "inv m \<Longrightarrow> find (erase k m) j = (if j = k then None else find m j)"
    and inv_empty: "inv empty"
    and inv_put: "inv m \<Longrightarrow> inv (put k v m)"
    and inv_erase: "inv m \<Longrightarrow> inv (erase k m)"
    and keys_increasing: "inv m \<Longrightarrow> sorted_wrt (<) (keys m)"
    and keys_set: "inv m \<Longrightarrow> set (keys m) = {k. find m k \<noteq> None}"
begin

lemma find_put_same: "inv m \<Longrightarrow> find (put k v m) k = Some v"
  by (simp add: find_put)

lemma find_put_other: "inv m \<Longrightarrow> j \<noteq> k \<Longrightarrow> find (put k v m) j = find m j"
  by (simp add: find_put)

lemma find_put_keeps: "inv m \<Longrightarrow> find m k = None \<Longrightarrow> find m j = Some w \<Longrightarrow> find (put k v m) j = Some w"
  by (auto simp: find_put)

lemma keys_put: "inv m \<Longrightarrow> set (keys (put k v m)) = insert k (set (keys m))"
  by (auto simp: keys_set inv_put find_put)

lemma keys_erase: "inv m \<Longrightarrow> set (keys (erase k m)) = set (keys m) - {k}"
  by (auto simp: keys_set inv_erase find_erase)

lemma keys_distinct: "inv m \<Longrightarrow> distinct (keys m)"
  using keys_increasing by (simp add: strict_sorted_iff)

text \<open>A sum over the stored values, and how storing and erasing change it.\<close>

lemma sum_put_fresh:
  fixes f :: "'v \<Rightarrow> 'a::comm_monoid_add"
  assumes "inv m" "find m k = None"
  shows "(\<Sum>j\<in>set (keys (put k v m)). f (the (find (put k v m) j))) =
    f v + (\<Sum>j\<in>set (keys m). f (the (find m j)))"
proof -
  have fresh: "k \<notin> set (keys m)" using assms by (simp add: keys_set)
  have "(\<Sum>j\<in>set (keys m). f (the (find (put k v m) j))) = (\<Sum>j\<in>set (keys m). f (the (find m j)))"
    by (rule sum.cong) (use assms fresh in \<open>auto simp: find_put\<close>)
  with assms(1) fresh show ?thesis by (simp add: keys_put find_put)
qed

lemma sum_erase:
  fixes f :: "'v \<Rightarrow> 'a::comm_monoid_add"
  assumes "inv m" "find m k = Some v"
  shows "(\<Sum>j\<in>set (keys m). f (the (find m j))) =
    f v + (\<Sum>j\<in>set (keys (erase k m)). f (the (find (erase k m) j)))"
proof -
  have "k \<in> set (keys m)" using assms by (simp add: keys_set)
  then have "(\<Sum>j\<in>set (keys m). f (the (find m j))) =
      f v + (\<Sum>j\<in>set (keys m) - {k}. f (the (find m j)))"
    using assms(2) by (simp add: sum.remove)
  moreover have "(\<Sum>j\<in>set (keys m) - {k}. f (the (find m j))) =
      (\<Sum>j\<in>set (keys m) - {k}. f (the (find (erase k m) j)))"
    by (rule sum.cong) (use assms(1) in \<open>auto simp: find_erase\<close>)
  ultimately show ?thesis using assms(1) by (simp add: keys_erase)
qed

end

section \<open>The implementation\<close>

type_synonym ('k, 'v) omap = "('k \<times> 'v) list"

fun om_find :: "('k::linorder, 'v) omap \<Rightarrow> 'k \<Rightarrow> 'v option" where
  "om_find [] k = None"
| "om_find ((a, v) # m) k = (if k = a then Some v else om_find m k)"

fun om_put :: "'k::linorder \<Rightarrow> 'v \<Rightarrow> ('k, 'v) omap \<Rightarrow> ('k, 'v) omap" where
  "om_put k v [] = [(k, v)]"
| "om_put k v ((a, w) # m) =
     (if k < a then (k, v) # (a, w) # m
      else if k = a then (k, v) # m
      else (a, w) # om_put k v m)"

fun om_erase :: "'k::linorder \<Rightarrow> ('k, 'v) omap \<Rightarrow> ('k, 'v) omap" where
  "om_erase k [] = []"
| "om_erase k ((a, w) # m) = (if k = a then m else (a, w) # om_erase k m)"

definition om_keys :: "('k::linorder, 'v) omap \<Rightarrow> 'k list" where
  "om_keys m = map fst m"

definition om_inv :: "('k::linorder, 'v) omap \<Rightarrow> bool" where
  "om_inv m = sorted_wrt (<) (om_keys m)"

lemma om_find_None: "om_find m k = None \<longleftrightarrow> k \<notin> fst ` set m"
  by (induction m k rule: om_find.induct) auto

lemma om_find_put: "om_inv m \<Longrightarrow> om_find (om_put k v m) j = (if j = k then Some v else om_find m j)"
  by (induction k v m rule: om_put.induct) (auto simp: om_inv_def om_keys_def)

lemma fst_om_put: "fst ` set (om_put k v m) = insert k (fst ` set m)"
  by (induction k v m rule: om_put.induct) auto

lemma fst_om_erase: "fst ` set (om_erase k m) \<subseteq> fst ` set m"
  by (induction k m rule: om_erase.induct) auto

lemma om_inv_put: "om_inv m \<Longrightarrow> om_inv (om_put k v m)"
proof (induction k v m rule: om_put.induct)
  case (1 k v)
  then show ?case by (simp add: om_inv_def om_keys_def)
next
  case (2 k v a w m)
  then show ?case
    using fst_om_put [of k v m] by (fastforce simp: om_inv_def om_keys_def)
qed

lemma om_inv_erase: "om_inv m \<Longrightarrow> om_inv (om_erase k m)"
proof (induction k m rule: om_erase.induct)
  case (1 k)
  then show ?case by simp
next
  case (2 k a w m)
  then show ?case
    using fst_om_erase [of k m] by (fastforce simp: om_inv_def om_keys_def)
qed

lemma om_find_erase: "om_inv m \<Longrightarrow> om_find (om_erase k m) j = (if j = k then None else om_find m j)"
proof (induction k m rule: om_erase.induct)
  case (1 k)
  then show ?case by simp
next
  case (2 k a w m)
  from "2.prems" have "om_find m a = None" by (auto simp: om_inv_def om_keys_def om_find_None)
  with 2 show ?case by (auto simp: om_inv_def om_keys_def)
qed

interpretation om: ordered_store "[]" om_find om_put om_erase om_keys om_inv
proof
  show "om_find [] k = None" for k :: 'a by simp
  show "om_inv m \<Longrightarrow> om_find (om_put k v m) j = (if j = k then Some v else om_find m j)"
    for m :: "('a, 'b) omap" and k v j by (rule om_find_put)
  show "om_inv m \<Longrightarrow> om_find (om_erase k m) j = (if j = k then None else om_find m j)"
    for m :: "('a, 'b) omap" and k j by (rule om_find_erase)
  show "om_inv []" by (simp add: om_inv_def om_keys_def)
  show "om_inv m \<Longrightarrow> om_inv (om_put k v m)" for m :: "('a, 'b) omap" and k v by (rule om_inv_put)
  show "om_inv m \<Longrightarrow> om_inv (om_erase k m)" for m :: "('a, 'b) omap" and k by (rule om_inv_erase)
  show "om_inv m \<Longrightarrow> sorted_wrt (<) (om_keys m)" for m :: "('a, 'b) omap" by (simp add: om_inv_def)
  show "om_inv m \<Longrightarrow> set (om_keys m) = {k. om_find m k \<noteq> None}" for m :: "('a, 'b) omap"
    using om_find_None [of m] by (auto simp: om_keys_def)
qed

end
