(* ===== verification/CF_Foundation.thy ===== *)
theory CF_Foundation
  imports CF_Prelude
begin

text \<open>
  Foundation layer: \<open>foundation/errors.hpp\<close> (error codes), \<open>foundation/checked.hpp\<close> (overflow
  checked arithmetic), \<open>foundation/identifier.hpp\<close> (strong identifiers) and
  \<open>foundation/generation.hpp\<close> (generations).
\<close>

section \<open>Errors\<close>

datatype ErrorCode =
    VALIDATION | DECODE | ENCODE | ARITHMETIC_OVERFLOW | STALE_AUTHORITY | CONFLICT | NOT_FOUND
  | ALREADY_EXISTS | INVALID_ARGUMENT | INCOMPATIBLE | IO | UNSUPPORTED | LIFECYCLE | UNKNOWN

text \<open>
  \<open>Error c m\<close> is the exception \<open>Error(ErrorCode::c, m)\<close>. \<open>Undefined\<close> is not an exception: it
  marks an execution whose C++ behaviour is undefined (an out-of-range subscript, a signed
  overflow), so that a theorem that excludes it says that the code stays defined.
\<close>

datatype fault =
    Error (code: ErrorCode) (message: string)
  | Undefined
  | Nontermination

section \<open>Checked arithmetic\<close>

definition checked_mul :: "u64 \<Rightarrow> u64 \<Rightarrow> u64 option" where
  "checked_mul a b =
     (if a = 0 \<or> b = 0 then Some 0
      else if a > UINT64_MAX div b then None
      else Some (a * b))"

definition checked_add :: "u64 \<Rightarrow> u64 \<Rightarrow> u64 option" where
  "checked_add a b = (if a > UINT64_MAX - b then None else Some (a + b))"

definition would_overflow_mul :: "u64 \<Rightarrow> u64 \<Rightarrow> bool" where
  "would_overflow_mul a b = (checked_mul a b = None)"

definition would_overflow_add :: "u64 \<Rightarrow> u64 \<Rightarrow> bool" where
  "would_overflow_add a b = (checked_add a b = None)"

lemma div_guard_mul:
  fixes x y m :: nat
  assumes "0 < y"
  shows "m div y < x \<longleftrightarrow> m < x * y"
  using assms by (simp add: div_less_iff_less_mult)

lemma checked_mul_eq:
  "checked_mul a b =
     (if unat a * unat b < 2 ^ 64 then Some (of_nat (unat a * unat b)) else None)"
proof (cases "a = 0 \<or> b = 0")
  case True
  then show ?thesis by (auto simp: checked_mul_def)
next
  case False
  then have "0 < unat b" by (simp add: unat_gt_0)
  have "UINT64_MAX div b < a \<longleftrightarrow> (2 ^ 64 - 1) div unat b < unat a"
    by (simp add: word_less_nat_alt unat_div_distrib)
  also have "\<dots> \<longleftrightarrow> 2 ^ 64 - 1 < unat a * unat b"
    by (rule div_guard_mul) fact
  also have "\<dots> \<longleftrightarrow> \<not> unat a * unat b < 2 ^ 64" by auto
  finally show ?thesis using False by (simp add: checked_mul_def)
qed

lemma checked_add_eq:
  "checked_add a b =
     (if unat a + unat b < 2 ^ 64 then Some (of_nat (unat a + unat b)) else None)"
proof -
  have "unat (UINT64_MAX - b) = 2 ^ 64 - 1 - unat b"
    using unat_sub [of b UINT64_MAX] by (simp add: word_order.extremum)
  moreover have "unat b < 2 ^ 64" by simp
  ultimately have "UINT64_MAX - b < a \<longleftrightarrow> \<not> unat a + unat b < 2 ^ 64"
    unfolding word_less_nat_alt by linarith
  then show ?thesis by (simp add: checked_add_def)
qed

lemma checked_mul_Some_unat: "checked_mul a b = Some c \<Longrightarrow> unat c = unat a * unat b"
  by (auto simp: checked_mul_eq unat_mult_u64 split: if_splits)

lemma checked_mul_le_mono:
  assumes "checked_mul a b = Some c" "unat a' \<le> unat a" "unat b' \<le> unat b"
  shows "checked_mul a' b' \<noteq> None"
proof -
  have "unat a' * unat b' \<le> unat a * unat b" using assms(2,3) by (rule mult_le_mono)
  moreover from assms(1) have "unat a * unat b < 2 ^ 64"
    by (simp add: checked_mul_eq split: if_splits)
  ultimately show ?thesis by (simp add: checked_mul_eq)
qed

section \<open>Strong identifiers\<close>

text \<open>
  \<open>StrongId<Tag>\<close>: the tag is a phantom type parameter, so ids of two kinds have two types, as in
  the code. Raw value 0 is null.
\<close>

datatype (dead 'tag) StrongId = StrongId (raw: u64)

definition id_is_null :: "'tag StrongId \<Rightarrow> bool" where
  "id_is_null i = (raw i = 0)"

abbreviation null_id :: "'tag StrongId" where "null_id \<equiv> StrongId 0"

instantiation StrongId :: (type) linorder
begin

definition less_eq_StrongId :: "'a StrongId \<Rightarrow> 'a StrongId \<Rightarrow> bool" where
  "less_eq_StrongId a b = (raw a \<le> raw b)"

definition less_StrongId :: "'a StrongId \<Rightarrow> 'a StrongId \<Rightarrow> bool" where
  "less_StrongId a b = (raw a < raw b)"

instance
  by standard (auto simp: less_eq_StrongId_def less_StrongId_def StrongId.expand)

end

lemma StrongId_less_eq [simp]: "StrongId a \<le> StrongId b \<longleftrightarrow> a \<le> b"
  by (simp add: less_eq_StrongId_def)

lemma StrongId_less [simp]: "StrongId a < StrongId b \<longleftrightarrow> a < b"
  by (simp add: less_StrongId_def)

lemma StrongId_raw [simp]: "StrongId (raw i) = i"
  by (cases i) simp

typedecl CollectiveIdTag
typedecl CollectiveGroupIdTag
typedecl ParticipantIdTag
typedecl RankIdTag
typedecl WorkerIdTag
typedecl WorkerBootIdTag
typedecl NodeIdTag
typedecl DeviceIdTag
typedecl BackendIdTag
typedecl ExecutionIdTag
typedecl AttemptIdTag
typedecl DispatchIdTag
typedecl MeasurementIdTag
typedecl ReservationIdTag
typedecl SourceIdTag

type_synonym CollectiveId = "CollectiveIdTag StrongId"
type_synonym CollectiveGroupId = "CollectiveGroupIdTag StrongId"
type_synonym ParticipantId = "ParticipantIdTag StrongId"
type_synonym RankId = "RankIdTag StrongId"
type_synonym WorkerId = "WorkerIdTag StrongId"
type_synonym WorkerBootId = "WorkerBootIdTag StrongId"
type_synonym NodeId = "NodeIdTag StrongId"
type_synonym DeviceId = "DeviceIdTag StrongId"
type_synonym BackendId = "BackendIdTag StrongId"
type_synonym ExecutionId = "ExecutionIdTag StrongId"
type_synonym AttemptId = "AttemptIdTag StrongId"
type_synonym DispatchId = "DispatchIdTag StrongId"
type_synonym MeasurementId = "MeasurementIdTag StrongId"
type_synonym ReservationId = "ReservationIdTag StrongId"
type_synonym SourceId = "SourceIdTag StrongId"

section \<open>Generations\<close>

datatype (dead 'tag) Generation = Generation (gen_value: u64)

definition gen_is_null :: "'tag Generation \<Rightarrow> bool" where
  "gen_is_null g = (gen_value g = 0)"

abbreviation null_gen :: "'tag Generation" where "null_gen \<equiv> Generation 0"

definition gen_next :: "'tag Generation \<Rightarrow> 'tag Generation" where
  "gen_next g =
     (if gen_value g = 0 then Generation 1
      else if gen_value g = UINT64_MAX then g
      else Generation (gen_value g + 1))"

instantiation Generation :: (type) linorder
begin

definition less_eq_Generation :: "'a Generation \<Rightarrow> 'a Generation \<Rightarrow> bool" where
  "less_eq_Generation a b = (gen_value a \<le> gen_value b)"

definition less_Generation :: "'a Generation \<Rightarrow> 'a Generation \<Rightarrow> bool" where
  "less_Generation a b = (gen_value a < gen_value b)"

instance
  by standard (auto simp: less_eq_Generation_def less_Generation_def Generation.expand)

end

lemma Generation_less_eq [simp]: "Generation a \<le> Generation b \<longleftrightarrow> a \<le> b"
  by (simp add: less_eq_Generation_def)

lemma Generation_less [simp]: "Generation a < Generation b \<longleftrightarrow> a < b"
  by (simp add: less_Generation_def)

lemma Generation_gen_value [simp]: "Generation (gen_value g) = g"
  by (cases g) simp

text \<open>\<open>generation_is_older\<close> is \<open>compare_generations(a, b) == less\<close>, \<open>generation_is_newer\<close> its converse.\<close>

definition generation_is_newer :: "'tag Generation \<Rightarrow> 'tag Generation \<Rightarrow> bool" where
  "generation_is_newer a b = (b < a)"

definition generation_is_older :: "'tag Generation \<Rightarrow> 'tag Generation \<Rightarrow> bool" where
  "generation_is_older a b = (a < b)"

typedecl CoordinatorEpochTag
typedecl GroupGenerationTag
typedecl MembershipGenerationTag
typedecl TopologyGenerationTag
typedecl BackendGenerationTag
typedecl CollectiveGenerationTag
typedecl AttemptGenerationTag
typedecl DispatchGenerationTag
typedecl HealthGenerationTag
typedecl MeasurementGenerationTag
typedecl PolicyGenerationTag
typedecl SourceGenerationTag

type_synonym CoordinatorEpoch = "CoordinatorEpochTag Generation"
type_synonym GroupGeneration = "GroupGenerationTag Generation"
type_synonym MembershipGeneration = "MembershipGenerationTag Generation"
type_synonym TopologyGeneration = "TopologyGenerationTag Generation"
type_synonym BackendGeneration = "BackendGenerationTag Generation"
type_synonym CollectiveGeneration = "CollectiveGenerationTag Generation"
type_synonym AttemptGeneration = "AttemptGenerationTag Generation"
type_synonym DispatchGeneration = "DispatchGenerationTag Generation"
type_synonym HealthGeneration = "HealthGenerationTag Generation"
type_synonym MeasurementGeneration = "MeasurementGenerationTag Generation"
type_synonym PolicyGeneration = "PolicyGenerationTag Generation"
type_synonym SourceGeneration = "SourceGenerationTag Generation"

lemma word_less_add_one_u64: "(v :: u64) \<noteq> UINT64_MAX \<Longrightarrow> v < v + 1"
  by (meson inc_less_eq_triv_imp linorder_not_less)

lemma gen_next_greater: "gen_value g \<noteq> UINT64_MAX \<Longrightarrow> g < gen_next g"
  by (cases g) (auto simp: gen_next_def word_less_add_one_u64 word_gt_0)

lemma gen_next_saturates: "gen_next (Generation UINT64_MAX) = Generation UINT64_MAX"
  by (simp add: gen_next_def)

lemma gen_next_ge: "g \<le> gen_next g"
  using gen_next_greater [of g] by (cases "gen_value g = UINT64_MAX") (auto simp: gen_next_def)

lemma gen_next_not_null: "\<not> gen_is_null (gen_next g)"
  by (cases g) (auto simp: gen_next_def gen_is_null_def eq_neg_iff_add_eq_0)

section \<open>Properties\<close>

text \<open>The checked product and sum of \<open>checked.hpp\<close> return a value exactly when the mathematical
  result fits in 64 bits, and then they return it; the \<open>would_overflow\<close> tests agree with them.\<close>
theorem checked_arithmetic_exact:
  "map_option unat (checked_mul a b) =
     (if unat a * unat b < 2 ^ 64 then Some (unat a * unat b) else None) \<and>
   map_option unat (checked_add a b) =
     (if unat a + unat b < 2 ^ 64 then Some (unat a + unat b) else None) \<and>
   would_overflow_mul a b = (2 ^ 64 \<le> unat a * unat b) \<and>
   would_overflow_add a b = (2 ^ 64 \<le> unat a + unat b)"
  by (auto simp: checked_mul_eq checked_add_eq would_overflow_mul_def would_overflow_add_def
      unat_mult_u64 unat_plus_u64)

text \<open>\<open>Generation::next\<close> never returns the null generation, and it is strictly newer than its
  argument except at the largest value, where it saturates instead of wrapping to an old one.\<close>
theorem generation_next_advances:
  "\<not> gen_is_null (gen_next g) \<and>
   generation_is_newer (gen_next g) g = (gen_value g \<noteq> UINT64_MAX) \<and>
   \<not> generation_is_older (gen_next g) g"
  using gen_next_ge [of g] gen_next_greater [of g] gen_next_not_null [of g]
  by (auto simp: generation_is_newer_def generation_is_older_def gen_next_def)

end
