(* ===== verification/CF_Accounting.thy ===== *)
theory CF_Accounting
  imports CF_OrdMap CF_Foundation
begin

text \<open>
  \<open>accounting.hpp\<close>: the counters of the runtime. Counters are \<open>uint64_t\<close> and are incremented
  without an overflow check, so they are words here. Every operation runs under the object's
  mutex, hence is one atomic step.
\<close>

section \<open>State\<close>

record Accounting =
  active_collectives :: u64
  active_rank_contributions :: u64
  reserved_bytes :: u64
  total_submitted :: u64
  ctr_completed_bytes :: u64
  ctr_failed_bytes :: u64
  transmitted_ref_bytes :: u64
  retries :: u64
  aborted_collectives :: u64
  stale_rejections :: u64
  duplicate_rejections :: u64
  participant_restarts :: u64
  reconfigurations :: u64
  reservations :: "(ReservationId, u64) omap"

definition new_accounting :: Accounting where
  "new_accounting =
     \<lparr>active_collectives = 0, active_rank_contributions = 0, reserved_bytes = 0,
      total_submitted = 0, ctr_completed_bytes = 0, ctr_failed_bytes = 0, transmitted_ref_bytes = 0,
      retries = 0, aborted_collectives = 0, stale_rejections = 0, duplicate_rejections = 0,
      participant_restarts = 0, reconfigurations = 0, reservations = []\<rparr>"

section \<open>Operations\<close>

definition collective_started :: "Accounting \<Rightarrow> Accounting" where
  "collective_started a =
     a\<lparr>active_collectives := active_collectives a + 1, total_submitted := total_submitted a + 1\<rparr>"

definition collective_completed :: "Accounting \<Rightarrow> fault + Accounting" where
  "collective_completed a =
     (if active_collectives a = 0
      then Inl (Error VALIDATION ''accounting: collective_completed with no active collective'')
      else Inr (a\<lparr>active_collectives := active_collectives a - 1\<rparr>))"

definition collective_aborted :: "Accounting \<Rightarrow> fault + Accounting" where
  "collective_aborted a =
     (if active_collectives a = 0
      then Inl (Error VALIDATION ''accounting: collective_aborted with no active collective'')
      else Inr (a\<lparr>active_collectives := active_collectives a - 1,
                  aborted_collectives := aborted_collectives a + 1\<rparr>))"

definition active_rank_contribution :: "Accounting \<Rightarrow> Accounting" where
  "active_rank_contribution a = a\<lparr>active_rank_contributions := active_rank_contributions a + 1\<rparr>"

definition rank_contribution_complete :: "Accounting \<Rightarrow> fault + Accounting" where
  "rank_contribution_complete a =
     (if active_rank_contributions a = 0
      then Inl (Error VALIDATION ''accounting: rank_contribution_complete underflow'')
      else Inr (a\<lparr>active_rank_contributions := active_rank_contributions a - 1\<rparr>))"

definition reserve :: "ReservationId \<Rightarrow> u64 \<Rightarrow> Accounting \<Rightarrow> fault + Accounting" where
  "reserve res n a =
     (if om_find (reservations a) res \<noteq> None
      then Inl (Error ALREADY_EXISTS ''accounting: duplicate reservation id'')
      else Inr (a\<lparr>reservations := om_put res n (reservations a),
                  reserved_bytes := reserved_bytes a + n\<rparr>))"

definition release :: "ReservationId \<Rightarrow> Accounting \<Rightarrow> fault + Accounting" where
  "release res a =
     (case om_find (reservations a) res of
        None \<Rightarrow> Inl (Error NOT_FOUND ''accounting: release of unknown reservation'')
      | Some n \<Rightarrow>
          if n > reserved_bytes a
          then Inl (Error VALIDATION ''accounting: reserved bytes underflow'')
          else Inr (a\<lparr>reserved_bytes := reserved_bytes a - n,
                      reservations := om_erase res (reservations a)\<rparr>))"

definition transmitted_bytes :: "u64 \<Rightarrow> Accounting \<Rightarrow> Accounting" where
  "transmitted_bytes n a = a\<lparr>transmitted_ref_bytes := transmitted_ref_bytes a + n\<rparr>"

definition completed_bytes :: "u64 \<Rightarrow> Accounting \<Rightarrow> Accounting" where
  "completed_bytes n a = a\<lparr>ctr_completed_bytes := ctr_completed_bytes a + n\<rparr>"

definition failed_bytes :: "u64 \<Rightarrow> Accounting \<Rightarrow> Accounting" where
  "failed_bytes n a = a\<lparr>ctr_failed_bytes := ctr_failed_bytes a + n\<rparr>"

definition retry_recorded :: "Accounting \<Rightarrow> Accounting" where
  "retry_recorded a = a\<lparr>retries := retries a + 1\<rparr>"

definition stale_message_rejected :: "Accounting \<Rightarrow> Accounting" where
  "stale_message_rejected a = a\<lparr>stale_rejections := stale_rejections a + 1\<rparr>"

definition duplicate_message_rejected :: "Accounting \<Rightarrow> Accounting" where
  "duplicate_message_rejected a = a\<lparr>duplicate_rejections := duplicate_rejections a + 1\<rparr>"

definition participant_restart :: "Accounting \<Rightarrow> Accounting" where
  "participant_restart a = a\<lparr>participant_restarts := participant_restarts a + 1\<rparr>"

definition reconfiguration_recorded :: "Accounting \<Rightarrow> Accounting" where
  "reconfiguration_recorded a = a\<lparr>reconfigurations := reconfigurations a + 1\<rparr>"

text \<open>The read-only snapshot: the counters in the order of the \<open>Snapshot\<close> aggregate.\<close>

definition snapshot :: "Accounting \<Rightarrow> u64 list" where
  "snapshot a =
     [active_collectives a, active_rank_contributions a, reserved_bytes a, total_submitted a,
      ctr_completed_bytes a, ctr_failed_bytes a, transmitted_ref_bytes a, retries a,
      aborted_collectives a, stale_rejections a, duplicate_rejections a, participant_restarts a,
      reconfigurations a]"

text \<open>One public call, and a sequence of calls; a call that throws leaves the object as it was.\<close>

datatype acct_call =
    Started | Completed | Aborted | RankContribution | RankComplete
  | Reserve ReservationId u64 | Release ReservationId
  | Transmitted u64 | CompletedBytes u64 | FailedBytes u64 | Retry | StaleRejected
  | DuplicateRejected | Restart | Reconfiguration

fun acct_apply :: "acct_call \<Rightarrow> Accounting \<Rightarrow> fault + Accounting" where
  "acct_apply Started a = Inr (collective_started a)"
| "acct_apply Completed a = collective_completed a"
| "acct_apply Aborted a = collective_aborted a"
| "acct_apply RankContribution a = Inr (active_rank_contribution a)"
| "acct_apply RankComplete a = rank_contribution_complete a"
| "acct_apply (Reserve r n) a = reserve r n a"
| "acct_apply (Release r) a = release r a"
| "acct_apply (Transmitted n) a = Inr (transmitted_bytes n a)"
| "acct_apply (CompletedBytes n) a = Inr (completed_bytes n a)"
| "acct_apply (FailedBytes n) a = Inr (failed_bytes n a)"
| "acct_apply Retry a = Inr (retry_recorded a)"
| "acct_apply StaleRejected a = Inr (stale_message_rejected a)"
| "acct_apply DuplicateRejected a = Inr (duplicate_message_rejected a)"
| "acct_apply Restart a = Inr (participant_restart a)"
| "acct_apply Reconfiguration a = Inr (reconfiguration_recorded a)"

fun acct_run :: "acct_call list \<Rightarrow> Accounting \<Rightarrow> Accounting" where
  "acct_run [] a = a"
| "acct_run (c # cs) a = acct_run cs (case acct_apply c a of Inl e \<Rightarrow> a | Inr a' \<Rightarrow> a')"

lemmas acct_defs =
  collective_started_def collective_completed_def collective_aborted_def
  active_rank_contribution_def rank_contribution_complete_def reserve_def release_def
  transmitted_bytes_def completed_bytes_def failed_bytes_def retry_recorded_def
  stale_message_rejected_def duplicate_message_rejected_def participant_restart_def
  reconfiguration_recorded_def

section \<open>The reservation ledger\<close>

text \<open>
  \<open>outstanding\<close> is the exact total of the live reservations, as a natural number. The invariant
  says that the 64-bit counter is that total modulo \<open>2^64\<close>: the ledger is never off by a
  reservation, but it wraps, because \<open>reserve\<close> adds without a check.
\<close>

definition outstanding :: "(ReservationId, u64) omap \<Rightarrow> nat" where
  "outstanding m = (\<Sum>r\<in>set (om_keys m). unat (the (om_find m r)))"

definition ledger_ok :: "Accounting \<Rightarrow> bool" where
  "ledger_ok a =
     (om_inv (reservations a) \<and>
      unat (reserved_bytes a) = outstanding (reservations a) mod 2 ^ 64)"

lemma outstanding_put:
  "om_inv m \<Longrightarrow> om_find m r = None \<Longrightarrow> outstanding (om_put r n m) = unat n + outstanding m"
  unfolding outstanding_def by (rule om.sum_put_fresh)

lemma outstanding_erase:
  "om_inv m \<Longrightarrow> om_find m r = Some n \<Longrightarrow> outstanding m = unat n + outstanding (om_erase r m)"
  unfolding outstanding_def by (rule om.sum_erase)

lemma ledger_ok_new [inv_intros]: "ledger_ok new_accounting"
  by (simp add: ledger_ok_def new_accounting_def om.inv_empty outstanding_def om_keys_def)

lemma ledger_ok_reserve [inv_intros]:
  assumes "ledger_ok a" "reserve r n a = Inr a'"
  shows "ledger_ok a'"
proof -
  from assms have inv: "om_inv (reservations a)" and fresh: "om_find (reservations a) r = None"
    and a': "a' = a\<lparr>reservations := om_put r n (reservations a), reserved_bytes := reserved_bytes a + n\<rparr>"
    by (auto simp: ledger_ok_def reserve_def split: if_splits)
  have "unat (reserved_bytes a + n) = (unat (reserved_bytes a) + unat n) mod 2 ^ 64"
    by (rule unat_plus_u64)
  also have "\<dots> = (outstanding (reservations a) + unat n) mod 2 ^ 64"
    using assms(1) by (simp add: ledger_ok_def mod_add_left_eq)
  finally show ?thesis
    by (simp add: ledger_ok_def a' om.inv_put [OF inv] outstanding_put [OF inv fresh] add.commute)
qed

lemma ledger_ok_release [inv_intros]:
  assumes "ledger_ok a" "release r a = Inr a'"
  shows "ledger_ok a'"
proof -
  from assms(2) obtain n where n: "om_find (reservations a) r = Some n" and le: "n \<le> reserved_bytes a"
    and a': "a' = a\<lparr>reserved_bytes := reserved_bytes a - n, reservations := om_erase r (reservations a)\<rparr>"
    by (auto simp: release_def not_less split: option.splits if_splits)
  from assms(1) have inv: "om_inv (reservations a)"
    and tot: "unat (reserved_bytes a) = outstanding (reservations a) mod 2 ^ 64"
    by (auto simp: ledger_ok_def)
  let ?rest = "outstanding (om_erase r (reservations a))"
  have split: "outstanding (reservations a) = unat n + ?rest" by (rule outstanding_erase [OF inv n])
  have "unat (reserved_bytes a - n) = unat (reserved_bytes a) - unat n"
    using le by (simp add: unat_sub)
  also have "\<dots> = (unat n + ?rest) mod 2 ^ 64 - unat n" by (simp add: tot split)
  also have "\<dots> = ?rest mod 2 ^ 64"
    using le tot split by (intro mod_add_diff) (simp add: word_le_nat_alt)
  finally show ?thesis by (simp add: ledger_ok_def a' om.inv_erase [OF inv])
qed

lemma ledger_ok_apply [inv_intros]:
  assumes "ledger_ok a" "acct_apply c a = Inr a'"
  shows "ledger_ok a'"
proof (cases "(\<exists>r n. c = Reserve r n) \<or> (\<exists>r. c = Release r)")
  case True
  with assms show ?thesis by (auto intro: ledger_ok_reserve ledger_ok_release)
next
  case False
  with assms have "reservations a' = reservations a \<and> reserved_bytes a' = reserved_bytes a"
    by (cases c) (auto simp: acct_defs split: if_splits)
  with assms(1) show ?thesis by (simp add: ledger_ok_def)
qed

lemma ledger_ok_run: "ledger_ok a \<Longrightarrow> ledger_ok (acct_run cs a)"
  by (induction cs arbitrary: a) (auto split: sum.split intro: ledger_ok_apply)

text \<open>Below the wrap-around a known reservation can always be released, and releasing all empties the counter.\<close>

lemma release_known:
  assumes "ledger_ok a" "outstanding (reservations a) < 2 ^ 64" "om_find (reservations a) r = Some n"
  shows "\<exists>a'. release r a = Inr a' \<and> outstanding (reservations a') + unat n = outstanding (reservations a)"
proof -
  from assms(1) have inv: "om_inv (reservations a)" by (simp add: ledger_ok_def)
  note split = outstanding_erase [OF inv assms(3)]
  have "unat (reserved_bytes a) = outstanding (reservations a)"
    using assms(1,2) by (simp add: ledger_ok_def)
  with split have "\<not> n > reserved_bytes a" by (simp add: word_less_nat_alt)
  with assms(3) split show ?thesis by (simp add: release_def)
qed

section \<open>Properties\<close>

text \<open>After any sequence of calls, the ones that throw included, \<open>reserved_bytes\<close> is exactly the
  sum of the live reservations modulo \<open>2^64\<close>.\<close>
theorem reserved_bytes_is_the_ledger:
  "unat (reserved_bytes (acct_run cs new_accounting)) =
     outstanding (reservations (acct_run cs new_accounting)) mod 2 ^ 64"
  using ledger_ok_run [OF ledger_ok_new, of cs] by (simp add: ledger_ok_def)

text \<open>While the live reservations together stay below \<open>2^64\<close> bytes, the release of a live
  reservation never throws and takes exactly its bytes off the ledger.\<close>
theorem live_reservation_releases:
  assumes "a = acct_run cs new_accounting"
    and "outstanding (reservations a) < 2 ^ 64" "om_find (reservations a) r = Some n"
  shows "\<exists>a'. release r a = Inr a' \<and> om_find (reservations a') r = None \<and>
    unat (reserved_bytes a') + unat n = unat (reserved_bytes a)"
proof -
  have ok: "ledger_ok a" using ledger_ok_run [OF ledger_ok_new, of cs] assms(1) by simp
  from release_known [OF ok assms(2,3)] obtain a' where a': "release r a = Inr a'"
    "outstanding (reservations a') + unat n = outstanding (reservations a)" by blast
  have "ledger_ok a'" using ok a'(1) by (rule ledger_ok_release)
  moreover have "om_find (reservations a') r = None"
    using a'(1) ok by (auto simp: release_def ledger_ok_def om_find_erase split: option.splits if_splits)
  ultimately show ?thesis using a' ok assms(2) by (simp add: ledger_ok_def)
qed

theorem live_reservation_releases_witness:
  "\<exists>a'. release (StrongId 1) (acct_run [Reserve (StrongId 1) 64] new_accounting) = Inr a' \<and>
     om_find (reservations a') (StrongId 1) = None \<and>
     unat (reserved_bytes a') + unat (64 :: u64) =
       unat (reserved_bytes (acct_run [Reserve (StrongId 1) 64] new_accounting))"
  by (rule live_reservation_releases [OF refl])
    (simp_all add: new_accounting_def reserve_def outstanding_def om_keys_def)

text \<open>The 64-bit ledger wraps without a check: two reservations whose total exceeds \<open>2^64\<close> are both
  accepted, and then the release of a live reservation throws an underflow.\<close>
theorem reservation_overflow_breaks_release:
  "\<exists>a. a = acct_run [Reserve (StrongId 1) UINT64_MAX, Reserve (StrongId 2) 2] new_accounting \<and>
     om_find (reservations a) (StrongId 1) = Some UINT64_MAX \<and>
     reserved_bytes a = 1 \<and>
     release (StrongId 1) a = Inl (Error VALIDATION ''accounting: reserved bytes underflow'')"
  by (simp add: new_accounting_def reserve_def release_def word_less_nat_alt)

end
