(* ===== verification/CF_Crc32.thy ===== *)
theory CF_Crc32
  imports CF_Prelude
begin

text \<open>
  \<open>digest/crc32.hpp\<close>: the CRC-32 of the frames and of the persisted file. The model keeps the table
  of \<open>make_table\<close> and the table-driven update of the code; the reference is the bitwise shift
  register it implements, over which injectivity of the register, hence detection of short bursts,
  is proved.
\<close>

unbundle bit_operations_syntax

section \<open>The code\<close>

definition crc_shift :: "u32 \<Rightarrow> u32" where
  "crc_shift crc = (if crc AND 1 \<noteq> 0 then 0xEDB88320 XOR drop_bit 1 crc else drop_bit 1 crc)"

definition make_table :: "u32 list" where
  "make_table = map (\<lambda>i. (crc_shift ^^ 8) (of_nat i)) [0..<256]"

definition crc_reset :: u32 where "crc_reset = 0xffffffff"

definition crc_byte :: "u32 \<Rightarrow> u8 \<Rightarrow> u32" where
  "crc_byte crc b = make_table ! unat ((crc XOR ucast b) AND 0xff) XOR drop_bit 8 crc"

definition crc_update :: "u32 \<Rightarrow> bytes \<Rightarrow> u32" where
  "crc_update crc data = foldl crc_byte crc data"

definition crc_value :: "u32 \<Rightarrow> u32" where "crc_value crc = crc XOR 0xffffffff"

definition crc_compute :: "bytes \<Rightarrow> u32" where
  "crc_compute data = crc_value (crc_update crc_reset data)"

section \<open>The shift register\<close>

definition crc_ref_byte :: "u32 \<Rightarrow> u8 \<Rightarrow> u32" where
  "crc_ref_byte crc b = (crc_shift ^^ 8) (crc XOR ucast b)"

lemma and_one_odd: "(x :: u32) AND 1 \<noteq> 0 \<longleftrightarrow> odd x"
  by (simp add: and_one_eq odd_iff_mod_2_eq_one)

lemma crc_shift_xor: "crc_shift (a XOR b) = crc_shift a XOR crc_shift b"
proof -
  have "odd (a XOR b) \<longleftrightarrow> odd a \<noteq> odd b" by (simp add: bit_0 [symmetric] bit_xor_iff)
  then show ?thesis
    unfolding crc_shift_def and_one_odd
    by (cases "odd a"; cases "odd b") (simp_all add: drop_bit_xor ac_simps)
qed

lemma crc_shifts_xor: "(crc_shift ^^ n) (a XOR b) = (crc_shift ^^ n) a XOR (crc_shift ^^ n) b"
  by (induction n) (simp_all add: crc_shift_xor)

lemma crc_shifts_push:
  assumes "take_bit n x = 0"
  shows "(crc_shift ^^ n) x = drop_bit n x"
  using assms
proof (induction n arbitrary: x)
  case 0
  then show ?case by simp
next
  case (Suc n)
  have low: "\<not> bit x i" if "i < Suc n" for i
    using Suc.prems that by (metis bit_0_eq bit_take_bit_iff bot_apply bot_bool_def)
  then have "even x" using bit_0 [of x] by auto
  then have "crc_shift x = drop_bit 1 x" by (simp add: crc_shift_def and_one_odd [simplified])
  moreover have "take_bit n (drop_bit 1 x) = 0"
    by (rule bit_word_eqI) (use low in \<open>auto simp: bit_take_bit_iff bit_drop_bit_eq\<close>)
  ultimately show ?case using Suc.IH [of "drop_bit 1 x"] drop_bit_drop_bit [of n 1 x]
    by (simp add: funpow_swap1)
qed

lemma crc_shift_inject: "crc_shift a = crc_shift b \<longleftrightarrow> a = b"
proof
  assume eq: "crc_shift a = crc_shift b"
  have top: "bit (crc_shift x) 31 \<longleftrightarrow> odd x" for x
    by (auto simp add: crc_shift_def and_one_odd bit_simps impossible_bit)
  from top [of a] top [of b] eq have par: "odd a \<longleftrightarrow> odd b" by simp
  with eq have "drop_bit 1 a = drop_bit 1 b"
    by (auto simp: crc_shift_def and_one_odd xor_left_cancel split: if_splits)
  then have "bit a (Suc i) \<longleftrightarrow> bit b (Suc i)" for i
    by (metis bit_drop_bit_eq comp_apply plus_1_eq_Suc)
  with par show "a = b" by (metis bit_0 bit_eqI not0_implies_Suc)
qed simp

lemma crc_shifts_inject: "(crc_shift ^^ n) a = (crc_shift ^^ n) b \<longleftrightarrow> a = b"
  by (induction n) (simp_all add: crc_shift_inject)

section \<open>The table computes the shift register\<close>

lemma make_table_nth: "i < 256 \<Longrightarrow> make_table ! i = (crc_shift ^^ 8) (of_nat i)"
  by (simp add: make_table_def)

lemma low_byte_split: "(x :: u32) = (x AND 255) XOR (x AND NOT 255)"
  by (rule bit_word_eqI) (auto simp: bit_simps)

lemma crc_byte_ref: "crc_byte crc b = crc_ref_byte crc b"
proof -
  let ?x = "crc XOR ucast b"
  have lt: "unat (?x AND 255) < 256"
    using take_bit_nat_less_exp [of 8 "unat ?x"]
    unfolding mask_255 take_bit_eq_mask [symmetric] unsigned_take_bit_eq by simp
  have "(crc_shift ^^ 8) ?x = (crc_shift ^^ 8) (?x AND 255) XOR (crc_shift ^^ 8) (?x AND NOT 255)"
    using crc_shifts_xor low_byte_split [of ?x] by metis
  moreover have "(crc_shift ^^ 8) (?x AND NOT 255) = drop_bit 8 (?x AND NOT 255)"
    by (rule crc_shifts_push) (unfold mask_255, rule bit_word_eqI, auto simp: bit_simps)
  moreover have "drop_bit 8 (?x AND NOT 255) = drop_bit 8 crc"
    unfolding mask_255 by (rule bit_word_eqI) (auto simp: bit_simps dest: bit_lengths)
  ultimately show ?thesis
    using lt by (simp add: crc_byte_def crc_ref_byte_def make_table_nth)
qed

lemma crc_update_ref: "crc_update crc data = foldl crc_ref_byte crc data"
  by (simp add: crc_update_def crc_byte_ref [abs_def])

lemma crc_update_append: "crc_update crc (a @ b) = crc_update (crc_update crc a) b"
  by (simp add: crc_update_def)

lemma crc_update_Nil [simp]: "crc_update crc [] = crc"
  by (simp add: crc_update_def)

section \<open>Bursts\<close>

text \<open>Up to four bytes fed one after the other act on the register like one word.\<close>

fun le_word :: "bytes \<Rightarrow> u32" where
  "le_word [] = 0"
| "le_word (b # d) = ucast b XOR push_bit 8 (le_word d)"

lemma le_word_small: "8 * length d \<le> i \<Longrightarrow> \<not> bit (le_word d) i"
proof (induction d arbitrary: i)
  case Nil
  then show ?case by simp
next
  case (Cons b d)
  then have "\<not> bit b i" "\<not> bit (le_word d) (i - 8)" using bit_lengths(1) [of b i] by auto
  then show ?case by (auto simp: bit_simps)
qed

lemma le_word_24: "length d \<le> 3 \<Longrightarrow> bit (le_word d) i \<Longrightarrow> i < 24"
  using le_word_small [of d i] by linarith

lemma crc_ref_word:
  "length d \<le> 4 \<Longrightarrow>
    foldl crc_ref_byte crc d = (crc_shift ^^ (8 * length d)) (crc XOR le_word d)"
proof (induction d arbitrary: crc)
  case Nil
  then show ?case by simp
next
  case (Cons b d)
  have high: "drop_bit 8 (push_bit 8 (le_word d)) = le_word d"
    using Cons.prems le_word_24 [of d] by (intro bit_word_eqI) (auto simp: bit_simps)
  have "(crc_shift ^^ 8) (push_bit 8 (le_word d)) = drop_bit 8 (push_bit 8 (le_word d))"
    by (rule crc_shifts_push) (rule bit_word_eqI, auto simp: bit_simps)
  then have "(crc_shift ^^ 8) (crc XOR ucast b) XOR le_word d =
      (crc_shift ^^ 8) ((crc XOR ucast b) XOR push_bit 8 (le_word d))"
    by (simp add: crc_shifts_xor high)
  then show ?case
    using Cons by (simp add: crc_ref_byte_def funpow_add xor.assoc add.commute [of 8])
qed

lemma le_word_inject:
  "length d = length d' \<Longrightarrow> length d \<le> 4 \<Longrightarrow> le_word d = le_word d' \<longleftrightarrow> d = d'"
proof (induction d d' rule: list_induct2)
  case Nil
  then show ?case by simp
next
  case (Cons b d b' d')
  have low: "ucast (le_word (b # d)) = b" for b d
    by (rule bit_word_eqI) (auto simp: bit_simps)
  have high: "drop_bit 8 (le_word (b # d)) = le_word d" if "length d \<le> 3" for b d
    using that le_word_24 [of d] bit_lengths(1) [of b] by (intro bit_word_eqI) (auto simp: bit_simps)
  show ?case
    using Cons low [of b d] low [of b' d'] high [of d b] high [of d' b']
    by (metis One_nat_def Suc_eq_plus1 Suc_le_mono le_SucI length_Cons list.inject numeral_3_eq_3 numeral_Bit0
        eval_nat_numeral(2,3) semiring_norm(26,27))
qed

lemma crc_burst:
  assumes "length d = length d'" "length d \<le> 4"
  shows "crc_update crc d = crc_update crc d' \<longleftrightarrow> d = d'"
  using assms by (simp add: crc_update_ref crc_ref_word crc_shifts_inject xor_left_cancel le_word_inject)

text \<open>A later stretch of equal bytes never undoes a difference of the register.\<close>

lemma crc_update_inject: "crc_update crc d = crc_update crc' d \<longleftrightarrow> crc = crc'"
proof (induction d arbitrary: crc crc')
  case Nil
  then show ?case by simp
next
  case (Cons b d)
  have "crc_ref_byte c b = crc_ref_byte c' b \<longleftrightarrow> c = c'" for c c'
    by (metis crc_ref_byte_def crc_shifts_inject xor.commute xor_left_cancel)
  with Cons show ?case by (simp add: crc_update_ref)
qed

lemma crc_value_inject: "crc_value a = crc_value b \<longleftrightarrow> a = b"
  by (metis crc_value_def xor.commute xor_left_cancel)

lemma crc_detects_burst:
  assumes "length d = length d'" "length d \<le> 4" "d \<noteq> d'"
  shows "crc_update crc (a @ d @ b) \<noteq> crc_update crc (a @ d' @ b)"
  using assms by (simp add: crc_update_append crc_update_inject crc_burst)

section \<open>Properties\<close>

text \<open>C35: The table-driven update computes the bitwise CRC-32 shift register: over any data it equals
  eight shifts by the reflected polynomial per byte.\<close>
theorem table_driven_crc_is_bitwise:
  "crc_compute data =
     foldl (\<lambda>crc b. (crc_shift ^^ 8) (crc XOR ucast b)) 0xffffffff data XOR 0xffffffff"
  by (simp add: crc_compute_def crc_value_def crc_update_ref crc_reset_def crc_ref_byte_def [abs_def])

text \<open>A burst of at most four consecutive corrupted bytes anywhere in a message changes its CRC.\<close>
theorem crc_detects_short_bursts:
  assumes "length d = length d'" "length d \<le> 4" "d \<noteq> d'"
  shows "crc_compute (a @ d @ b) \<noteq> crc_compute (a @ d' @ b)"
  using crc_detects_burst [OF assms] by (simp add: crc_compute_def crc_value_inject)

theorem crc_detects_short_bursts_witness:
  "crc_compute ([1, 2] @ [3, 4, 5, 6] @ [7]) \<noteq> crc_compute ([1, 2] @ [3, 0, 5, 0] @ [7])"
  by (rule crc_detects_short_bursts) simp_all

end
