(* ===== verification/CF_Canonical.thy ===== *)
theory CF_Canonical
  imports CF_Foundation "HOL-Library.Sublist"
begin

text \<open>
  \<open>digest/canonical.hpp\<close>: the canonical binary encoding. The only state of \<open>CanonicalWriter\<close> is
  its buffer and every method appends to it, so a write is modelled by the bytes it appends and a
  sequence of writes by concatenation. \<open>CanonicalReader\<close> is a position in a byte sequence; a read
  returns \<open>None\<close> where the code returns \<open>false\<close> (no caller uses a reader after a failed read).
  The locale \<open>codec\<close> is the contract between a writer and a reader of the same field, with the
  loops over counted sequences verified once for every codec.
\<close>

unbundle bit_operations_syntax

section \<open>Writer\<close>

fun push_be :: "nat \<Rightarrow> u64 \<Rightarrow> bytes" where
  "push_be 0 v = []"
| "push_be (Suc n) v = ucast (drop_bit (8 * n) v AND 255) # push_be n v"

definition w_u8 :: "u8 \<Rightarrow> bytes" where "w_u8 v = [v]"
definition w_u16 :: "u16 \<Rightarrow> bytes" where "w_u16 v = push_be 2 (ucast v)"
definition w_u32 :: "u32 \<Rightarrow> bytes" where "w_u32 v = push_be 4 (ucast v)"
definition w_u64 :: "u64 \<Rightarrow> bytes" where "w_u64 v = push_be 8 v"
definition w_boolean :: "bool \<Rightarrow> bytes" where "w_boolean v = w_u8 (if v then 1 else 0)"
definition w_bytes :: "bytes \<Rightarrow> bytes" where "w_bytes d = w_u64 (of_nat (length d)) @ d"

text \<open>A \<open>std::string\<close> is a sequence of bytes; \<open>string_bytes\<close> and \<open>bytes_string\<close> are the casts of \<open>char*\<close>.\<close>

definition string_bytes :: "string \<Rightarrow> bytes" where
  "string_bytes s = map (\<lambda>c. of_nat (of_char c)) s"

definition bytes_string :: "bytes \<Rightarrow> string" where
  "bytes_string b = map (\<lambda>x. char_of (unat x)) b"

definition w_string :: "string \<Rightarrow> bytes" where "w_string s = w_bytes (string_bytes s)"

section \<open>Reader\<close>

record reader =
  rd_data :: bytes
  rd_pos :: nat

definition new_reader :: "bytes \<Rightarrow> reader" where
  "new_reader d = \<lparr>rd_data = d, rd_pos = 0\<rparr>"

definition remaining :: "reader \<Rightarrow> nat" where
  "remaining r = length (rd_data r) - rd_pos r"

definition at_end :: "reader \<Rightarrow> bool" where
  "at_end r = (rd_pos r = length (rd_data r))"

definition read_be :: "nat \<Rightarrow> reader \<Rightarrow> ('a::len word \<times> reader) option" where
  "read_be n r =
     (if remaining r < n then None
      else Some (foldl (\<lambda>v b. push_bit 8 v OR ucast b) 0 (take n (drop (rd_pos r) (rd_data r))),
                 r\<lparr>rd_pos := rd_pos r + n\<rparr>))"

definition r_u8 :: "reader \<Rightarrow> (u8 \<times> reader) option" where
  "r_u8 r =
     (if remaining r < 1 then None
      else Some (rd_data r ! rd_pos r, r\<lparr>rd_pos := rd_pos r + 1\<rparr>))"

definition r_u16 :: "reader \<Rightarrow> (u16 \<times> reader) option" where "r_u16 r = read_be 2 r"
definition r_u32 :: "reader \<Rightarrow> (u32 \<times> reader) option" where "r_u32 r = read_be 4 r"
definition r_u64 :: "reader \<Rightarrow> (u64 \<times> reader) option" where "r_u64 r = read_be 8 r"

definition r_boolean :: "reader \<Rightarrow> (bool \<times> reader) option" where
  "r_boolean r = (case r_u8 r of None \<Rightarrow> None | Some (b, r') \<Rightarrow> Some (b \<noteq> 0, r'))"

definition r_bytes :: "reader \<Rightarrow> (bytes \<times> reader) option" where
  "r_bytes r =
     (case r_u64 r of
        None \<Rightarrow> None
      | Some (len, r') \<Rightarrow>
          if unat len > remaining r' then None
          else Some (take (unat len) (drop (rd_pos r') (rd_data r')),
                     r'\<lparr>rd_pos := rd_pos r' + unat len\<rparr>))"

definition r_string :: "reader \<Rightarrow> (string \<times> reader) option" where
  "r_string r = (case r_bytes r of None \<Rightarrow> None | Some (b, r') \<Rightarrow> Some (bytes_string b, r'))"

section \<open>Bytes and words\<close>

lemma length_push_be [simp]: "length (push_be n v) = n"
  by (induction n) auto

lemma length_w [simp]:
  "length (w_u8 a) = 1" "length (w_u16 b) = 2" "length (w_u32 c) = 4" "length (w_u64 d) = 8"
  "length (w_boolean e) = 1" "length (w_bytes f) = 8 + length f"
  by (simp_all add: w_u8_def w_u16_def w_u32_def w_u64_def w_boolean_def w_bytes_def)

lemma length_string_bytes [simp]: "length (string_bytes s) = length s"
  by (simp add: string_bytes_def)

lemma length_w_string [simp]: "length (w_string s) = 8 + length s"
  by (simp add: w_string_def)

lemma foldl_push_be:
  fixes a :: "'a::len word"
  shows "foldl (\<lambda>v b. push_bit 8 v OR ucast b) a (push_be n v) =
    push_bit (8 * n) a OR ucast (take_bit (8 * n) v)"
proof (induction n arbitrary: a)
  case 0
  then show ?case by simp
next
  case (Suc n)
  let ?b = "ucast (drop_bit (8 * n) v AND 255) :: u8"
  have "foldl (\<lambda>v b. push_bit 8 v OR ucast b) a (push_be (Suc n) v) =
      push_bit (8 * n) (push_bit 8 a OR ucast ?b) OR ucast (take_bit (8 * n) v)"
    by (simp add: Suc.IH)
  also have "\<dots> = push_bit (8 * Suc n) a OR ucast (take_bit (8 * Suc n) v)"
  proof (rule bit_word_eqI)
    fix i
    assume "i < LENGTH('a)"
    have mask: "(255 :: u64) = mask 8" by (simp add: mask_eq_exp_minus_1)
    show "bit (push_bit (8 * n) (push_bit 8 a OR ucast ?b) OR ucast (take_bit (8 * n) v)) i =
      bit (push_bit (8 * Suc n) a OR ucast (take_bit (8 * Suc n) v)) i"
      unfolding mask by (auto simp: bit_simps add.commute [of "8 * n" 8])
  qed
  finally show ?case .
qed

lemma fold_w_u64 [simp]: "foldl (\<lambda>v b. push_bit 8 v OR ucast b) 0 (push_be 8 v) = v"
  by (simp add: foldl_push_be take_bit_word_eq_self)

lemma push_be_snoc: "push_be (Suc n) v = push_be n (drop_bit 8 v) @ [ucast (v AND 255)]"
proof (induction n)
  case 0
  then show ?case by simp
next
  case (Suc n)
  have "drop_bit (8 * Suc n) v = drop_bit (8 * n) (drop_bit 8 v)"
    by (rule bit_word_eqI) (simp add: bit_simps ac_simps)
  with Suc show ?case by simp
qed

lemma push_be_take: "8 * n \<le> k \<Longrightarrow> push_be n (take_bit k v) = push_be n v"
proof (induction n)
  case 0
  then show ?case by simp
next
  case (Suc n)
  then have "drop_bit (8 * n) (take_bit k v) AND 255 = drop_bit (8 * n) v AND 255"
    unfolding mask_255 by (intro bit_word_eqI) (auto simp: bit_simps)
  with Suc show ?case by simp
qed

lemma push_be_foldl:
  "length bs \<le> 8 \<Longrightarrow>
    push_be (length bs) (foldl (\<lambda>v b. push_bit 8 v OR ucast b) (a :: u64) bs) = bs"
proof (induction bs rule: rev_induct)
  case Nil
  then show ?case by simp
next
  case (snoc b bs)
  let ?v = "foldl (\<lambda>v b. push_bit 8 v OR ucast b) a bs"
  have "drop_bit 8 (push_bit 8 ?v OR ucast b) = take_bit 56 ?v"
    "ucast ((push_bit 8 ?v OR ucast b) AND 255) = b"
    unfolding mask_255 by (rule bit_word_eqI, auto simp: bit_simps dest: bit_lengths)+
  with snoc show ?case by (simp add: push_be_snoc push_be_take del: push_be.simps)
qed
lemma push_be_8: "map (\<lambda>i. ucast (drop_bit (i * 8) v AND 255)) (rev [0..<8]) = push_be 8 v"
  by (simp add: upt_rec eval_nat_numeral)

lemma string_bytes_inverse [simp]: "bytes_string (string_bytes s) = s"
proof -
  have "char_of (unat (of_nat (of_char c) :: u8)) = c" for c :: char
    by (simp add: unsigned_of_nat take_bit_eq_mod of_char_mod_256)
  then show ?thesis by (simp add: string_bytes_def bytes_string_def map_idI)
qed

lemma bytes_string_inverse [simp]: "string_bytes (bytes_string b) = b"
proof -
  have "of_nat (of_char (char_of (unat x))) = x" for x :: u8
    using unsigned_less [of x, where 'a = nat] by (simp add: of_char_of)
  then show ?thesis by (simp add: string_bytes_def bytes_string_def map_idI)
qed

section \<open>Readers in normal form\<close>

text \<open>
  \<open>reader_at p ys\<close> has read \<open>p\<close> and has \<open>ys\<close> left. Every reader with a position inside its data has
  this form, and on it the laws of the reads are unconditional equations.
\<close>

definition reader_at :: "bytes \<Rightarrow> bytes \<Rightarrow> reader" where
  "reader_at p ys = \<lparr>rd_data = p @ ys, rd_pos = length p\<rparr>"

definition in_bounds :: "reader \<Rightarrow> bool" where
  "in_bounds r = (rd_pos r \<le> length (rd_data r))"

lemma new_reader_at: "new_reader d = reader_at [] d"
  by (simp add: new_reader_def reader_at_def)

lemma in_bounds_reader_at: "in_bounds r \<Longrightarrow> r = reader_at (take (rd_pos r) (rd_data r)) (drop (rd_pos r) (rd_data r))"
  by (simp add: in_bounds_def reader_at_def)

lemma in_boundsE:
  assumes "in_bounds r"
  obtains p ys where "r = reader_at p ys"
  using in_bounds_reader_at [OF assms] by blast

lemma remaining_reader_at [simp]: "remaining (reader_at p ys) = length ys"
  by (simp add: remaining_def reader_at_def)

lemma at_end_reader_at [simp]: "at_end (reader_at p ys) \<longleftrightarrow> ys = []"
  by (simp add: at_end_def reader_at_def)

lemma in_bounds_at [simp]: "in_bounds (reader_at p ys)"
  by (simp add: in_bounds_def reader_at_def)

lemma reader_at_inject [simp]: "reader_at p ys = reader_at p zs \<longleftrightarrow> ys = zs"
  by (simp add: reader_at_def)

lemma read_be_at:
  "read_be n (reader_at p ys) =
     (if length ys < n then None
      else Some (foldl (\<lambda>v b. push_bit 8 v OR ucast b) 0 (take n ys),
                 reader_at (p @ take n ys) (drop n ys)))"
  by (auto simp: read_be_def reader_at_def remaining_def)

lemma r_u8_at:
  "r_u8 (reader_at p ys) = (case ys of [] \<Rightarrow> None | y # ys' \<Rightarrow> Some (y, reader_at (p @ [y]) ys'))"
  by (auto simp: r_u8_def reader_at_def remaining_def split: list.split)

lemma r_u8_enc [codec_simps]: "r_u8 (reader_at p (w_u8 v @ ys)) = Some (v, reader_at (p @ w_u8 v) ys)"
  by (simp add: r_u8_at w_u8_def)

lemma r_u64_enc [codec_simps]: "r_u64 (reader_at p (w_u64 v @ ys)) = Some (v, reader_at (p @ w_u64 v) ys)"
  by (simp add: r_u64_def read_be_at w_u64_def)

lemma r_u32_enc [codec_simps]: "r_u32 (reader_at p (w_u32 v @ ys)) = Some (v, reader_at (p @ w_u32 v) ys)"
  by (simp add: r_u32_def read_be_at w_u32_def foldl_push_be) (simp add: bit_simps bit_eq_iff bit_word_eqI)

lemma r_boolean_enc [codec_simps]:
  "r_boolean (reader_at p (w_boolean v @ ys)) = Some (v, reader_at (p @ w_boolean v) ys)"
  by (simp add: r_boolean_def w_boolean_def r_u8_enc)

lemma r_u64_at:
  "r_u64 (reader_at p ys) =
     (if length ys < 8 then None
      else Some (foldl (\<lambda>v b. push_bit 8 v OR ucast b) 0 (take 8 ys), reader_at (p @ take 8 ys) (drop 8 ys)))"
  by (simp add: r_u64_def read_be_at)

lemma r_bytes_enc [codec_simps]:
  assumes "length d < 2 ^ 64"
  shows "r_bytes (reader_at p (w_bytes d @ ys)) = Some (d, reader_at (p @ w_bytes d) ys)"
proof -
  have "unat (of_nat (length d) :: u64) = length d" using assms by (rule unat_of_nat_u64)
  then show ?thesis
    by (simp add: r_bytes_def w_bytes_def r_u64_enc) (simp add: reader_at_def)
qed

lemma r_string_enc [codec_simps]:
  "length s < 2 ^ 64 \<Longrightarrow> r_string (reader_at p (w_string s @ ys)) = Some (s, reader_at (p @ w_string s) ys)"
  by (simp add: r_string_def w_string_def r_bytes_enc)

text \<open>A field cut short is never read.\<close>

lemma r_u8_short: "strict_prefix ys (w_u8 v) \<Longrightarrow> r_u8 (reader_at p ys) = None"
  by (auto simp: r_u8_at w_u8_def strict_prefix_def prefix_Cons)

lemma r_u64_short: "strict_prefix ys (w_u64 v) \<Longrightarrow> r_u64 (reader_at p ys) = None"
  using prefix_length_less [of ys "w_u64 v"] by (simp add: r_u64_at)

lemma r_boolean_short: "strict_prefix ys (w_boolean v) \<Longrightarrow> r_boolean (reader_at p ys) = None"
  by (simp add: r_boolean_def w_boolean_def r_u8_short)

lemma strict_prefix_append_cases:
  assumes "strict_prefix ys (a @ b)"
  obtains "strict_prefix ys a" | ys' where "ys = a @ ys'" "strict_prefix ys' b"
proof (cases "strict_prefix ys a")
  case True
  then show thesis by (rule that)
next
  case False
  with assms obtain ys' where "ys = a @ ys'" by (auto simp: strict_prefix_def prefix_append)
  with assms show thesis by (intro that(2)) (simp_all add: strict_prefix_def)
qed

lemma r_bytes_short:
  assumes "strict_prefix ys (w_bytes d)" "length d < 2 ^ 64"
  shows "r_bytes (reader_at p ys) = None"
proof -
  from assms(1) have "strict_prefix ys (w_u64 (of_nat (length d)) @ d)" by (simp add: w_bytes_def)
  then show ?thesis
  proof (cases rule: strict_prefix_append_cases)
    case 1
    then show ?thesis by (simp add: r_bytes_def r_u64_short)
  next
    case (2 ys')
    have "length ys' < length d" using 2(2) by (rule prefix_length_less)
    with 2(1) assms(2) show ?thesis by (simp add: r_bytes_def r_u64_enc unat_of_nat_u64)
  qed
qed

lemma r_string_short:
  "strict_prefix ys (w_string s) \<Longrightarrow> length s < 2 ^ 64 \<Longrightarrow> r_string (reader_at p ys) = None"
  by (simp add: r_string_def w_string_def r_bytes_short)

section \<open>Codecs and counted sequences\<close>

text \<open>
  The contract between the bytes a value is written as and the reader that reads it back. \<open>ok\<close> is
  what the writer needs of the value (a length that fits its prefix), \<open>good\<close> what the reader
  promises of every value it accepts.
\<close>

locale codec =
  fixes enc :: "'a \<Rightarrow> bytes"
    and dec :: "reader \<Rightarrow> fault + 'a \<times> reader"
    and ok :: "'a \<Rightarrow> bool"
  assumes dec_enc: "ok x \<Longrightarrow> dec (reader_at p (enc x @ ys)) = Inr (x, reader_at (p @ enc x) ys)"
    and dec_short: "ok x \<Longrightarrow> strict_prefix ys (enc x) \<Longrightarrow> \<exists>e. dec (reader_at p ys) = Inl e"
begin

lemma dec_enc_nil: "ok x \<Longrightarrow> dec (reader_at p (enc x)) = Inr (x, reader_at (p @ enc x) [])"
  using dec_enc [of x p "[]"] by simp

text \<open>An encoding is never a proper prefix of another: two encodings cannot be confused.\<close>

lemma enc_prefix_free: "ok x \<Longrightarrow> ok y \<Longrightarrow> \<not> strict_prefix (enc x) (enc y)"
  using dec_enc_nil [of x "[]"] dec_short [of y "enc x" "[]"] by auto

lemma enc_inject: "ok x \<Longrightarrow> ok y \<Longrightarrow> enc x = enc y \<longleftrightarrow> x = y"
  by (metis dec_enc_nil Inr_inject prod.inject)

lemma bind_short:
  assumes "ok x" "strict_prefix ys (enc x @ b)"
    and "\<And>ys'. strict_prefix ys' b \<Longrightarrow> \<exists>e. f (x, reader_at (p @ enc x) ys') = Inl e"
  shows "\<exists>e. sbind (dec (reader_at p ys)) f = Inl e"
  using assms(2)
proof (cases rule: strict_prefix_append_cases)
  case 1
  then obtain e where "dec (reader_at p ys) = Inl e" using dec_short [OF assms(1)] by blast
  then show ?thesis by simp
next
  case (2 ys')
  then show ?thesis using assms(1,3) by (simp add: dec_enc)
qed

end

text \<open>
  The loop \<open>for (i = 0; i < n; ++i) { read x; if (check) throw; out.push_back(x); }\<close>. The check
  sees what was read so far, as the duplicate tests of the code do.
\<close>

fun read_list ::
  "('a list \<Rightarrow> 'a \<Rightarrow> fault option) \<Rightarrow> (reader \<Rightarrow> fault + 'a \<times> reader) \<Rightarrow> nat \<Rightarrow> 'a list \<Rightarrow> reader
    \<Rightarrow> fault + 'a list \<times> reader" where
  "read_list chk dec 0 acc r = Inr (acc, r)"
| "read_list chk dec (Suc n) acc r =
     sbind (dec r) (\<lambda>(x, r').
       case chk acc x of Some e \<Rightarrow> Inl e | None \<Rightarrow> read_list chk dec n (acc @ [x]) r')"

fun passes :: "('a list \<Rightarrow> 'a \<Rightarrow> fault option) \<Rightarrow> 'a list \<Rightarrow> 'a list \<Rightarrow> bool" where
  "passes chk acc [] = True"
| "passes chk acc (x # xs) = (chk acc x = None \<and> passes chk (acc @ [x]) xs)"

context codec begin

lemma read_list_enc:
  assumes "\<forall>x\<in>set xs. ok x" "passes chk acc xs"
  shows "read_list chk dec (length xs) acc (reader_at p (concat (map enc xs) @ ys)) =
    Inr (acc @ xs, reader_at (p @ concat (map enc xs)) ys)"
  using assms
proof (induction xs arbitrary: acc p)
  case Nil
  then show ?case by simp
next
  case (Cons x xs)
  then show ?case by (simp add: dec_enc)
qed

lemma read_list_short:
  assumes "\<forall>x\<in>set xs. ok x" "strict_prefix ys (concat (map enc xs))"
  shows "\<exists>e. read_list chk dec (length xs) acc (reader_at p ys) = Inl e"
  using assms
proof (induction xs arbitrary: acc p ys)
  case Nil
  then show ?case by simp
next
  case (Cons x xs)
  have "\<exists>e. sbind (dec (reader_at p ys)) (\<lambda>(x, r'). case chk acc x of Some e \<Rightarrow> Inl e
      | None \<Rightarrow> read_list chk dec (length xs) (acc @ [x]) r') = Inl e"
  proof (rule bind_short)
    show "ok x" using Cons.prems by simp
    show "strict_prefix ys (enc x @ concat (map enc xs))" using Cons.prems by simp
    fix ys'
    assume "strict_prefix ys' (concat (map enc xs))"
    then show "\<exists>e. (case (x, reader_at (p @ enc x) ys') of (x, r') \<Rightarrow>
        case chk acc x of Some e \<Rightarrow> Inl e
        | None \<Rightarrow> read_list chk dec (length xs) (acc @ [x]) r') = Inl e"
      using Cons.IH [of ys' "acc @ [x]" "p @ enc x"] Cons.prems(1) by (auto split: option.split)
  qed
  then show ?case by simp
qed

text \<open>The same for a counted sequence followed by other fields.\<close>

lemma list_bind_short:
  assumes "strict_prefix ys (concat (map enc xs) @ t)" "\<forall>x\<in>set xs. ok x" "passes chk [] xs"
    and "\<And>q zs. strict_prefix zs t \<Longrightarrow> \<exists>e. f (xs, reader_at q zs) = Inl e"
  shows "\<exists>e. sbind (read_list chk dec (length xs) [] (reader_at p ys)) f = Inl e"
  using assms(1)
proof (cases rule: strict_prefix_append_cases)
  case 1
  then obtain e where "read_list chk dec (length xs) [] (reader_at p ys) = Inl e"
    using read_list_short [OF assms(2)] by blast
  then show ?thesis by simp
next
  case (2 zs)
  then show ?thesis using read_list_enc [OF assms(2,3)] assms(4) by simp
qed

end

section \<open>The primitive codecs\<close>

text \<open>\<open>rd f e\<close> is \<open>if (!r.f(x)) throw e\<close>.\<close>

definition rd :: "(reader \<Rightarrow> ('a \<times> reader) option) \<Rightarrow> fault \<Rightarrow> reader \<Rightarrow> fault + 'a \<times> reader" where
  "rd f e r = or_throw (f r) e"

interpretation u8_codec: codec w_u8 "rd r_u8 e" "\<lambda>_. True" for e
  by unfold_locales (simp_all add: rd_def r_u8_enc r_u8_short)

interpretation u64_codec: codec w_u64 "rd r_u64 e" "\<lambda>_. True" for e
  by unfold_locales (simp_all add: rd_def r_u64_enc r_u64_short)

interpretation boolean_codec: codec w_boolean "rd r_boolean e" "\<lambda>_. True" for e
  by unfold_locales (simp_all add: rd_def r_boolean_enc r_boolean_short)

interpretation string_codec: codec w_string "rd r_string e" "\<lambda>s. length s < 2 ^ 64" for e
  by unfold_locales (simp_all add: rd_def r_string_enc r_string_short)

lemma w_u64_inject: "w_u64 a @ x = w_u64 b @ y \<longleftrightarrow> a = b \<and> x = y"
proof
  assume eq: "w_u64 a @ x = w_u64 b @ y"
  then have "w_u64 a = w_u64 b" "x = y" by (simp_all add: append_eq_append_conv)
  then show "a = b \<and> x = y" by (simp add: u64_codec.enc_inject)
qed simp

lemma rd_enc [codec_simps]:
  "rd r_u8 e (reader_at p (w_u8 a @ ys)) = Inr (a, reader_at (p @ w_u8 a) ys)"
  "rd r_u64 e (reader_at p (w_u64 b @ ys)) = Inr (b, reader_at (p @ w_u64 b) ys)"
  "rd r_boolean e (reader_at p (w_boolean c @ ys)) = Inr (c, reader_at (p @ w_boolean c) ys)"
  by (simp_all add: u8_codec.dec_enc u64_codec.dec_enc boolean_codec.dec_enc)

lemma rd_enc_nil [codec_simps]:
  "rd r_u8 e (reader_at p (w_u8 a)) = Inr (a, reader_at (p @ w_u8 a) [])"
  "rd r_u64 e (reader_at p (w_u64 b)) = Inr (b, reader_at (p @ w_u64 b) [])"
  "rd r_boolean e (reader_at p (w_boolean c)) = Inr (c, reader_at (p @ w_boolean c) [])"
  by (simp_all add: u8_codec.dec_enc_nil u64_codec.dec_enc_nil boolean_codec.dec_enc_nil)

section \<open>What an accepted value satisfies\<close>

text \<open>
  \<open>ensures m Q\<close>: if \<open>m\<close> does not throw, its result satisfies \<open>Q\<close>. The rules take a reader apart
  field by field; the position stays inside the data, and a string read fits in it.
\<close>

definition ensures :: "fault + 'a \<Rightarrow> ('a \<Rightarrow> bool) \<Rightarrow> bool" where
  "ensures m Q = (\<forall>y. m = Inr y \<longrightarrow> Q y)"

lemma ensuresD: "ensures m Q \<Longrightarrow> m = Inr y \<Longrightarrow> Q y"
  by (simp add: ensures_def)

lemma ensures_return: "Q y \<Longrightarrow> ensures (Inr y) Q"
  by (simp add: ensures_def)

lemma ensures_throw: "ensures (Inl e) Q"
  by (simp add: ensures_def)

lemma ensures_bind: "ensures m P \<Longrightarrow> (\<And>y. P y \<Longrightarrow> ensures (f y) Q) \<Longrightarrow> ensures (sbind m f) Q"
  by (auto simp: ensures_def err_simps)

lemma ensures_reader:
  "ensures m (\<lambda>(x, r). P x \<and> in_bounds r) \<Longrightarrow>
    (\<And>x r. P x \<Longrightarrow> in_bounds r \<Longrightarrow> ensures (f (x, r)) Q) \<Longrightarrow> ensures (sbind m f) Q"
  by (auto simp: ensures_def err_simps)

lemma ensures_or_throw: "(\<And>x. v = Some x \<Longrightarrow> ensures (f x) Q) \<Longrightarrow> ensures (sbind (or_throw v e) f) Q"
  by (auto simp: ensures_def err_simps)

lemma ensures_throw_if: "(\<not> b \<Longrightarrow> ensures (f ()) Q) \<Longrightarrow> ensures (sbind (throw_if b e) f) Q"
  by (auto simp: ensures_def err_simps)

lemma rd_in_bounds:
  assumes "in_bounds r"
  shows "ensures (rd r_u8 e r) (\<lambda>(x, s). True \<and> in_bounds s)"
    and "ensures (rd r_u64 e r) (\<lambda>(x, s). True \<and> in_bounds s)"
    and "ensures (rd r_boolean e r) (\<lambda>(x, s). True \<and> in_bounds s)"
  using assms
  by (auto simp: ensures_def rd_def err_simps r_u8_def r_u64_def read_be_def r_boolean_def in_bounds_def
      remaining_def split: if_splits option.splits)

lemma ensures_fixed:
  assumes "in_bounds r"
  shows "(\<And>a s. in_bounds s \<Longrightarrow> ensures (f (a, s)) Q) \<Longrightarrow> ensures (sbind (rd r_u8 e r) f) Q"
    and "(\<And>b s. in_bounds s \<Longrightarrow> ensures (g (b, s)) Q) \<Longrightarrow> ensures (sbind (rd r_u64 e r) g) Q"
    and "(\<And>c s. in_bounds s \<Longrightarrow> ensures (h (c, s)) Q) \<Longrightarrow> ensures (sbind (rd r_boolean e r) h) Q"
  by (rule ensures_reader [OF rd_in_bounds(1) [OF assms]] ensures_reader [OF rd_in_bounds(2) [OF assms]]
      ensures_reader [OF rd_in_bounds(3) [OF assms]]; blast)+

lemma rd_string_in_bounds:
  assumes "in_bounds r" "rd r_string e r = Inr (s, r')"
  shows "in_bounds r' \<and> length s < 2 ^ 64"
proof -
  from assms(2) obtain b where b: "r_bytes r = Some (b, r')" and s: "s = bytes_string b"
    by (auto simp: rd_def err_simps r_string_def split: option.splits)
  from b obtain len r1 where r1: "r_u64 r = Some (len, r1)" and le: "unat len \<le> remaining r1"
    and b': "b = take (unat len) (drop (rd_pos r1) (rd_data r1))"
    and r': "r' = r1\<lparr>rd_pos := rd_pos r1 + unat len\<rparr>"
    by (auto simp: r_bytes_def split: option.splits if_splits)
  from r1 assms(1) have "in_bounds r1"
    by (auto simp: r_u64_def read_be_def in_bounds_def remaining_def split: if_splits)
  moreover have "length b < 2 ^ 64"
    using unat_u64_less [of len] by (simp add: b' min.strict_coboundedI2 min.strict_coboundedI1)
  ultimately show ?thesis
    using le by (auto simp: r' s in_bounds_def remaining_def bytes_string_def)
qed

lemma ensures_string:
  "in_bounds r \<Longrightarrow> (\<And>s r'. in_bounds r' \<Longrightarrow> length s < 2 ^ 64 \<Longrightarrow> ensures (f (s, r')) Q) \<Longrightarrow>
    ensures (sbind (rd r_string e r) f) Q"
  by (rule ensures_reader [where P = "\<lambda>s. length s < 2 ^ 64"])
    (auto simp: ensures_def dest: rd_string_in_bounds)

text \<open>A counted sequence delivers as many elements as were announced, each checked.\<close>

lemma ensures_read_list_acc:
  assumes "in_bounds r" "\<And>r. in_bounds r \<Longrightarrow> ensures (dec r) (\<lambda>(x, r'). good x \<and> in_bounds r')"
  shows "ensures (read_list chk dec n acc r) (\<lambda>(zs, r'). \<exists>xs. zs = acc @ xs \<and> length xs = n \<and>
    passes chk acc xs \<and> (\<forall>x\<in>set xs. good x) \<and> in_bounds r')"
  using assms(1)
proof (induction n arbitrary: acc r)
  case 0
  then show ?case by (simp add: ensures_def)
next
  case (Suc n)
  show ?case
    unfolding read_list.simps
  proof (rule ensures_reader [OF assms(2) [OF Suc.prems]])
    fix x s
    assume x: "good x" "in_bounds s"
    have "ensures (read_list chk dec n (acc @ [x]) s) (\<lambda>(zs, r'). \<exists>xs. zs = acc @ xs \<and>
        length xs = Suc n \<and> passes chk acc xs \<and> (\<forall>x\<in>set xs. good x) \<and> in_bounds r')"
      if "chk acc x = None"
    proof -
      have "\<exists>ys. acc @ x # xs = acc @ ys \<and> length ys = Suc n \<and> passes chk acc ys \<and> (\<forall>x\<in>set ys. good x)"
        if "length xs = n" "passes chk (acc @ [x]) xs" "\<forall>x\<in>set xs. good x" for xs
        using that \<open>chk acc x = None\<close> x(1) by (intro exI [of _ "x # xs"]) simp
      then show ?thesis
        using Suc.IH [OF x(2), of "acc @ [x]"] by (fastforce simp: ensures_def)
    qed
    then show "ensures (case (x, s) of (x, r') \<Rightarrow>
        case chk acc x of Some e \<Rightarrow> Inl e | None \<Rightarrow> read_list chk dec n (acc @ [x]) r')
      (\<lambda>(zs, r'). \<exists>xs. zs = acc @ xs \<and> length xs = Suc n \<and> passes chk acc xs \<and>
        (\<forall>x\<in>set xs. good x) \<and> in_bounds r')"
      by (auto simp: ensures_throw split: option.split)
  qed
qed

lemma ensures_read_list:
  assumes "in_bounds r" "\<And>r. in_bounds r \<Longrightarrow> ensures (dec r) (\<lambda>(x, r'). good x \<and> in_bounds r')"
    and "\<And>xs s. length xs = n \<Longrightarrow> passes chk [] xs \<Longrightarrow> \<forall>x\<in>set xs. good x \<Longrightarrow> in_bounds s \<Longrightarrow>
      ensures (f (xs, s)) Q"
  shows "ensures (sbind (read_list chk dec n [] r) f) Q"
proof (rule ensures_reader)
  show "ensures (read_list chk dec n [] r)
      (\<lambda>(xs, s). (length xs = n \<and> passes chk [] xs \<and> (\<forall>x\<in>set xs. good x)) \<and> in_bounds s)"
    using ensures_read_list_acc [of r dec good chk n "[]", OF assms(1,2)]
    by (simp add: conj_assoc)
qed (use assms(3) in blast)

end
