(* ===== verification/CF_Protocol.thy ===== *)
theory CF_Protocol
  imports CF_Crc32 CF_Canonical
begin

text \<open>
  \<open>protocol.hpp\<close> and \<open>protocol.cpp\<close>: the frame format, the streaming decoder, and the receive loop
  of \<open>tools/mp.hpp\<close> that drives it. \<open>Protocol::decode\<close> reports through its result and its out
  parameters; here each result carries the out parameters it sets.
\<close>

unbundle bit_operations_syntax

section \<open>Frames\<close>

datatype ProtocolMessageKind =
    HELLO | JOIN_GROUP | GROUP_ACCEPT | CONTRIBUTION | RESULT | BARRIER | COMPLETE | EPOCH
  | REQUEST_COLLECTIVE | ERROR_MSG

fun kind_to_u16 :: "ProtocolMessageKind \<Rightarrow> u16" where
  "kind_to_u16 HELLO = 1"
| "kind_to_u16 JOIN_GROUP = 2"
| "kind_to_u16 GROUP_ACCEPT = 3"
| "kind_to_u16 CONTRIBUTION = 4"
| "kind_to_u16 RESULT = 5"
| "kind_to_u16 ProtocolMessageKind.BARRIER = 6"
| "kind_to_u16 COMPLETE = 7"
| "kind_to_u16 EPOCH = 8"
| "kind_to_u16 REQUEST_COLLECTIVE = 9"
| "kind_to_u16 ERROR_MSG = 10"

definition kind_of_u16 :: "u16 \<Rightarrow> ProtocolMessageKind" where
  "kind_of_u16 k =
     (if k = 1 then HELLO else if k = 2 then JOIN_GROUP else if k = 3 then GROUP_ACCEPT
      else if k = 4 then CONTRIBUTION else if k = 5 then RESULT
      else if k = 6 then ProtocolMessageKind.BARRIER else if k = 7 then COMPLETE
      else if k = 8 then EPOCH else if k = 9 then REQUEST_COLLECTIVE else ERROR_MSG)"

fun protocol_kind_to_string :: "ProtocolMessageKind \<Rightarrow> string" where
  "protocol_kind_to_string HELLO = ''HELLO''"
| "protocol_kind_to_string JOIN_GROUP = ''JOIN_GROUP''"
| "protocol_kind_to_string GROUP_ACCEPT = ''GROUP_ACCEPT''"
| "protocol_kind_to_string CONTRIBUTION = ''CONTRIBUTION''"
| "protocol_kind_to_string RESULT = ''RESULT''"
| "protocol_kind_to_string ProtocolMessageKind.BARRIER = ''BARRIER''"
| "protocol_kind_to_string COMPLETE = ''COMPLETE''"
| "protocol_kind_to_string EPOCH = ''EPOCH''"
| "protocol_kind_to_string REQUEST_COLLECTIVE = ''REQUEST_COLLECTIVE''"
| "protocol_kind_to_string ERROR_MSG = ''ERROR_MSG''"

record Frame =
  fr_version :: u16
  fr_kind :: ProtocolMessageKind
  fr_payload :: bytes

definition PROTOCOL_MAGIC :: u32 where "PROTOCOL_MAGIC = 0x43464250"
definition PROTOCOL_VERSION :: u16 where "PROTOCOL_VERSION = 1"
definition PROTOCOL_MAX_PAYLOAD :: u64 where "PROTOCOL_MAX_PAYLOAD = 64 * 1024 * 1024"

definition put_u16 :: "u16 \<Rightarrow> bytes" where
  "put_u16 x = [ucast (drop_bit 8 x AND 0xff), ucast (x AND 0xff)]"

definition put_u32 :: "u32 \<Rightarrow> bytes" where
  "put_u32 x = [ucast (drop_bit 24 x AND 0xff), ucast (drop_bit 16 x AND 0xff),
                ucast (drop_bit 8 x AND 0xff), ucast (x AND 0xff)]"

definition put_u64 :: "u64 \<Rightarrow> bytes" where
  "put_u64 x = map (\<lambda>i. ucast (drop_bit (i * 8) x AND 0xff)) (rev [0..<8])"

definition get_u16 :: "bytes \<Rightarrow> u16" where
  "get_u16 p = push_bit 8 (ucast (p ! 0)) OR ucast (p ! 1)"

definition get_u32 :: "bytes \<Rightarrow> u32" where
  "get_u32 p = push_bit 24 (ucast (p ! 0)) OR push_bit 16 (ucast (p ! 1)) OR
               push_bit 8 (ucast (p ! 2)) OR ucast (p ! 3)"

definition get_u64 :: "bytes \<Rightarrow> u64" where
  "get_u64 p = foldl (\<lambda>v i. push_bit 8 v OR ucast (p ! i)) 0 [0..<8]"

definition encode_header :: "Frame \<Rightarrow> bytes" where
  "encode_header f =
     put_u32 PROTOCOL_MAGIC @ put_u16 (fr_version f) @ put_u16 (kind_to_u16 (fr_kind f)) @
     put_u64 (of_nat (length (fr_payload f)))"

definition encode :: "Frame \<Rightarrow> bytes" where
  "encode f =
     (let out = encode_header f;
          crc = crc_update (crc_update crc_reset out) (fr_payload f)
      in out @ put_u32 (crc_value crc) @ fr_payload f)"

datatype DecodeResult = NEED_MORE | FRAME Frame nat | REJECT string

definition decode :: "bytes \<Rightarrow> DecodeResult" where
  "decode bytes =
     (if length bytes < 16 then NEED_MORE
      else if get_u32 bytes \<noteq> PROTOCOL_MAGIC then REJECT ''bad magic''
      else let version = get_u16 (drop 4 bytes) in
        if version \<noteq> PROTOCOL_VERSION then REJECT ''unsupported protocol version''
        else let kind_raw = get_u16 (drop 6 bytes) in
          if kind_raw = 0 \<or> kind_raw > kind_to_u16 ERROR_MSG then REJECT ''invalid message kind enum''
          else let len = get_u64 (drop 8 bytes) in
            if len > PROTOCOL_MAX_PAYLOAD then REJECT ''oversized payload''
            else if length bytes < 20 then NEED_MORE
            else let total = 20 + len in
              if length bytes < unat total then NEED_MORE
              else let stored_crc = get_u32 (drop 16 bytes);
                       payload = take (unat len) (drop 20 bytes);
                       crc = crc_update (crc_update crc_reset (take 16 bytes)) payload
                in if crc_value crc \<noteq> stored_crc then REJECT ''checksum mismatch''
                   else FRAME \<lparr>fr_version = version, fr_kind = kind_of_u16 kind_raw,
                               fr_payload = payload\<rparr> (unat total))"

text \<open>The accumulating decoder, and the loop of \<open>FrameChannel::recv\<close>.\<close>

record FrameDecoder =
  buffer :: bytes

definition feed :: "bytes \<Rightarrow> FrameDecoder \<Rightarrow> FrameDecoder" where
  "feed data d = d\<lparr>buffer := buffer d @ data\<rparr>"

definition next_frame :: "FrameDecoder \<Rightarrow> DecodeResult \<times> FrameDecoder" where
  "next_frame d =
     (case decode (buffer d) of
        FRAME f consumed \<Rightarrow> (FRAME f consumed, d\<lparr>buffer := drop consumed (buffer d)\<rparr>)
      | r \<Rightarrow> (r, d))"

text \<open>
  The socket is the list of byte blocks that successive calls of \<open>recv_some\<close> deliver; an empty
  block or the end of the list is a closed or failed connection. Result: the frame or the reason of
  the failure, the decoder, and the blocks not read.
\<close>

fun recv_frame :: "FrameDecoder \<Rightarrow> bytes list \<Rightarrow> (string + Frame) \<times> FrameDecoder \<times> bytes list" where
  "recv_frame d net =
     (case next_frame d of
        (FRAME f _, d') \<Rightarrow> (Inr f, d', net)
      | (REJECT why, d') \<Rightarrow> (Inl why, d', net)
      | (NEED_MORE, d') \<Rightarrow>
          (case net of
             [] \<Rightarrow> (Inl ''connection closed'', d', [])
           | blk # net' \<Rightarrow>
               if blk = [] then (Inl ''connection closed'', d', net')
               else recv_frame (feed blk d') net'))"

declare recv_frame.simps [simp del]

fun recv_frames :: "nat \<Rightarrow> FrameDecoder \<Rightarrow> bytes list \<Rightarrow> (string + Frame list) \<times> FrameDecoder \<times> bytes list" where
  "recv_frames 0 d net = (Inr [], d, net)"
| "recv_frames (Suc n) d net =
     (case recv_frame d net of
        (Inl why, d', net') \<Rightarrow> (Inl why, d', net')
      | (Inr f, d', net') \<Rightarrow>
          (case recv_frames n d' net' of
             (Inl why, r) \<Rightarrow> (Inl why, r)
           | (Inr fs, r) \<Rightarrow> (Inr (f # fs), r)))"

section \<open>Integer fields\<close>

lemma length_put [simp]: "length (put_u16 a) = 2" "length (put_u32 b) = 4" "length (put_u64 c) = 8"
  by (simp_all add: put_u16_def put_u32_def put_u64_def)

lemma upt_4: "[0..<4] = [0, 1, 2, 3]"
  by (simp add: upt_rec)

lemma upt_8: "[0..<8] = [0, 1, 2, 3, 4, 5, 6, 7]"
  by (simp add: upt_rec)

lemma bit_u16: "bit (w :: u16) i \<Longrightarrow> i < 16"
  using bit_imp_le_length [of w i] by simp

lemma bit_u64: "bit (w :: u64) i \<Longrightarrow> i < 64"
  using bit_imp_le_length [of w i] by simp

lemmas bit_bounds = bit_lengths bit_u16 bit_u64

lemma get_put_u16 [codec_simps]: "get_u16 (put_u16 x @ ys) = x"
  unfolding get_u16_def put_u16_def mask_255
  by (rule bit_word_eqI) (auto simp: bit_simps dest: bit_bounds)

lemma get_put_u32 [codec_simps]: "get_u32 (put_u32 x @ ys) = x"
proof (rule bit_word_eqI)
  fix i
  assume "i < LENGTH(32)"
  then consider "i < 8" | "8 \<le> i" "i < 16" | "16 \<le> i" "i < 24" | "24 \<le> i" "i < 32"
    by fastforce
  then show "bit (get_u32 (put_u32 x @ ys)) i = bit x i"
    unfolding get_u32_def put_u32_def mask_255 by cases (auto simp: bit_simps dest: bit_bounds)
qed

lemma take_nths: "n \<le> length p \<Longrightarrow> take n p = map ((!) p) [0..<n]"
  by (simp add: list_eq_iff_nth_eq)

lemma put_u64_be: "put_u64 x = push_be 8 x"
  unfolding put_u64_def by (rule push_be_8)

lemma get_u64_be:
  assumes "8 \<le> length p"
  shows "get_u64 p = foldl (\<lambda>v b. push_bit 8 v OR ucast b) 0 (take 8 p)"
  unfolding take_nths [OF assms] by (simp add: get_u64_def foldl_map)

lemma get_put_u64 [codec_simps]: "get_u64 (put_u64 x @ ys) = x"
  by (simp add: get_u64_be put_u64_be)

lemma put_get_u16:
  assumes "2 \<le> length p"
  shows "put_u16 (get_u16 p) = take 2 p"
proof -
  have "take 2 p = [p ! 0, p ! 1]"
    using assms by (simp add: take_nths upt_rec)
  moreover have "ucast (drop_bit 8 (get_u16 p) AND 255) = p ! 0" "ucast (get_u16 p AND 255) = p ! 1"
    unfolding get_u16_def mask_255 by (rule bit_word_eqI, auto simp: bit_simps dest: bit_bounds)+
  ultimately show ?thesis by (simp add: put_u16_def)
qed

lemma put_get_u32:
  assumes "4 \<le> length p"
  shows "put_u32 (get_u32 p) = take 4 p"
proof -
  have "take 4 p = [p ! 0, p ! 1, p ! 2, p ! 3]"
    using assms by (simp add: take_nths upt_4)
  moreover have "ucast (drop_bit 24 (get_u32 p) AND 255) = p ! 0" "ucast (drop_bit 16 (get_u32 p) AND 255) = p ! 1"
     "ucast (drop_bit 8 (get_u32 p) AND 255) = p ! 2"  "ucast (get_u32 p AND 255) = p ! 3"
    unfolding get_u32_def mask_255 by (rule bit_word_eqI, auto simp: bit_simps dest: bit_bounds)+
  ultimately show ?thesis by (simp add: put_u32_def)
qed

lemma put_get_u64: "8 \<le> length p \<Longrightarrow> put_u64 (get_u64 p) = take 8 p"
  using push_be_foldl [of "take 8 p" 0] by (simp add: get_u64_be put_u64_be)

section \<open>Decoding what was encoded\<close>

definition encodable :: "Frame \<Rightarrow> bool" where
  "encodable f = (fr_version f = 1 \<and> length (fr_payload f) \<le> 67108864)"

lemma length_encode_header [simp]: "length (encode_header f) = 16"
  by (simp add: encode_header_def)

lemma length_encode [simp]: "length (encode f) = 20 + length (fr_payload f)"
  by (simp add: encode_def Let_def)

lemma kind_of_to [simp]: "kind_of_u16 (kind_to_u16 k) = k"
  by (cases k) (simp_all add: kind_of_u16_def)

lemma kind_to_u16_range [simp]: "kind_to_u16 k \<noteq> 0" "kind_to_u16 k \<le> 10"
  by (cases k; simp)+

lemma kind_to_of:
  assumes "k \<noteq> 0" "k \<le> 10"
  shows "kind_to_u16 (kind_of_u16 k) = k"
proof -
  have "unat k \<le> 10" "unat k \<noteq> 0" using assms by (simp_all add: word_le_nat_alt unat_eq_0)
  then have "unat k = 1 \<or> unat k = 2 \<or> unat k = 3 \<or> unat k = 4 \<or> unat k = 5 \<or> unat k = 6 \<or>
      unat k = 7 \<or> unat k = 8 \<or> unat k = 9 \<or> unat k = 10"
    by presburger
  moreover have "k = of_nat n" if "unat k = n" for n
    using that by auto
  ultimately have "k \<in> {1, 2, 3, 4, 5, 6, 7, 8, 9, 10}"
    by (elim disjE) fastforce+
  then show ?thesis by (auto simp: kind_of_u16_def)
qed

lemma header_fields:
  "get_u32 (encode_header f @ q) = PROTOCOL_MAGIC"
  "get_u16 (drop 4 (encode_header f @ q)) = fr_version f"
  "get_u16 (drop 6 (encode_header f @ q)) = kind_to_u16 (fr_kind f)"
  "get_u64 (drop 8 (encode_header f @ q)) = of_nat (length (fr_payload f))"
proof -
  let ?m = "put_u32 PROTOCOL_MAGIC" and ?v = "put_u16 (fr_version f)"
    and ?k = "put_u16 (kind_to_u16 (fr_kind f))" and ?l = "put_u64 (of_nat (length (fr_payload f)))"
  have h: "encode_header f @ q = ?m @ ?v @ ?k @ ?l @ q" by (simp add: encode_header_def)
  have "drop 4 (encode_header f @ q) = ?v @ ?k @ ?l @ q" "drop 6 (encode_header f @ q) = ?k @ ?l @ q"
    "drop 8 (encode_header f @ q) = ?l @ q"
    unfolding h by simp_all
  with h show
    "get_u32 (encode_header f @ q) = PROTOCOL_MAGIC"
    "get_u16 (drop 4 (encode_header f @ q)) = fr_version f"
    "get_u16 (drop 6 (encode_header f @ q)) = kind_to_u16 (fr_kind f)"
    "get_u64 (drop 8 (encode_header f @ q)) = of_nat (length (fr_payload f))"
    by (simp_all only: get_put_u32 get_put_u16 get_put_u64)
qed

lemma decode_header:
  assumes "encodable f"
  shows "decode (encode_header f @ q) =
    (if length q < 4 + length (fr_payload f) then NEED_MORE
     else let payload = take (length (fr_payload f)) (drop 4 q) in
       if crc_value (crc_update (crc_update crc_reset (encode_header f)) payload) \<noteq> get_u32 q
       then REJECT ''checksum mismatch''
       else FRAME (f\<lparr>fr_payload := payload\<rparr>) (20 + length (fr_payload f)))"
proof -
  let ?L = "length (fr_payload f)"
  have L: "?L \<le> 67108864" and v: "fr_version f = 1" using assms by (simp_all add: encodable_def)
  have n: "unat (of_nat ?L :: u64) = ?L" by (rule unat_of_nat_u64) (use L in simp)
  have t: "unat (20 + of_nat ?L :: u64) = 20 + ?L"
    using L by (simp add: unat_plus_u64 n)
  have b: "\<not> PROTOCOL_MAX_PAYLOAD < of_nat ?L"
    using L by (simp add: PROTOCOL_MAX_PAYLOAD_def word_less_nat_alt n)
  have k: "\<not> kind_to_u16 ERROR_MSG < kind_to_u16 (fr_kind f)" by (simp add: not_less)
  have d: "drop 16 (encode_header f @ q) = q" "drop 20 (encode_header f @ q) = drop 4 q"
    "take 16 (encode_header f @ q) = encode_header f" by simp_all
  show ?thesis
    unfolding decode_def Let_def header_fields d n t
    using b k v by (auto simp: PROTOCOL_VERSION_def simp del: kind_to_u16.simps)
qed

lemma encode_header_append:
  "encode f = encode_header f @
     put_u32 (crc_value (crc_update (crc_update crc_reset (encode_header f)) (fr_payload f))) @ fr_payload f"
  by (simp add: encode_def Let_def)

lemma decode_encode: "encodable f \<Longrightarrow> decode (encode f @ rest) = FRAME f (length (encode f))"
  by (simp add: encode_header_append decode_header get_put_u32 Let_def)

lemma decode_prefix:
  assumes "encodable f" "strict_prefix p (encode f)"
  shows "decode p = NEED_MORE"
proof -
  from assms(2) have "strict_prefix p (encode_header f @
     put_u32 (crc_value (crc_update (crc_update crc_reset (encode_header f)) (fr_payload f))) @ fr_payload f)"
    by (simp add: encode_header_append)
  then show ?thesis
  proof (cases rule: strict_prefix_append_cases)
    case 1
    then have "length p < 16" using prefix_length_less by fastforce
    then show ?thesis by (simp add: decode_def)
  next
    case (2 q)
    then have "length q < 4 + length (fr_payload f)" using prefix_length_less by fastforce
    with 2 assms(1) show ?thesis by (simp add: decode_header)
  qed
qed

section \<open>What is accepted was encoded\<close>

lemma take_16_fields:
  "16 \<le> length p \<Longrightarrow>
    take 16 p = take 4 p @ take 2 (drop 4 p) @ take 2 (drop 6 p) @ take 8 (drop 8 p)"
  by (simp add: take_add [of 4 12, simplified] take_add [of 2 10, simplified] take_add [of 2 8, simplified])

lemma decode_sound:
  assumes "decode bs = FRAME f n"
  shows "encodable f \<and> n = length (encode f) \<and> n \<le> length bs \<and> take n bs = encode f"
proof -
  let ?len = "get_u64 (drop 8 bs)"
  from assms have l16: "20 \<le> length bs"
    and m: "get_u32 bs = PROTOCOL_MAGIC" and v: "get_u16 (drop 4 bs) = 1"
    and k: "get_u16 (drop 6 bs) \<noteq> 0" "get_u16 (drop 6 bs) \<le> 10"
    and len: "?len \<le> PROTOCOL_MAX_PAYLOAD"
    and tot: "unat (20 + ?len) \<le> length bs"
    and crc: "crc_value (crc_update (crc_update crc_reset (take 16 bs)) (take (unat ?len) (drop 20 bs))) =
        get_u32 (drop 16 bs)"
    and f: "f = \<lparr>fr_version = 1, fr_kind = kind_of_u16 (get_u16 (drop 6 bs)),
        fr_payload = take (unat ?len) (drop 20 bs)\<rparr>"
    and n: "n = unat (20 + ?len)"
    by (auto simp: decode_def Let_def PROTOCOL_VERSION_def not_less split: if_splits)
  have L: "unat ?len \<le> 67108864" using len by (simp add: word_le_nat_alt PROTOCOL_MAX_PAYLOAD_def)
  then have n': "n = 20 + unat ?len" by (simp add: n unat_plus_u64)
  with tot n have pl: "length (fr_payload f) = unat ?len" by (simp add: f)
  have "put_u16 (kind_to_u16 (fr_kind f)) = take 2 (drop 6 bs)"
    using k l16 by (simp add: f kind_to_of put_get_u16)
  moreover have "put_u64 (of_nat (length (fr_payload f))) = take 8 (drop 8 bs)"
    using l16 by (simp add: pl put_get_u64)
  moreover have "put_u32 PROTOCOL_MAGIC = take 4 bs" "put_u16 (fr_version f) = take 2 (drop 4 bs)"
    using l16 m v put_get_u32 [of bs] put_get_u16 [of "drop 4 bs"] by (simp_all add: f)
  ultimately have h: "encode_header f = take 16 bs"
    using l16 by (simp add: encode_header_def take_16_fields)
  have "encode f = take 16 bs @ take 4 (drop 16 bs) @ take (unat ?len) (drop 20 bs)"
    unfolding encode_header_append h using crc l16 put_get_u32 [of "drop 16 bs"] by (simp add: f)
  also have "\<dots> = take n bs"
    using take_add [of 16 4 bs] by (simp add: n' take_add)
  finally show ?thesis using L pl n' tot n by (simp add: encodable_def f)
qed

section \<open>Corruption\<close>

lemma decode_burst:
  assumes "encodable f" "fr_payload f = a @ d @ b" "length d = length d'" "length d \<le> 4" "d \<noteq> d'"
  shows "decode (take 20 (encode f) @ a @ d' @ b) = REJECT ''checksum mismatch''"
proof -
  let ?hdr = "crc_update crc_reset (encode_header f)"
  have "crc_update ?hdr (a @ d' @ b) \<noteq> crc_update ?hdr (fr_payload f)"
    using crc_detects_burst [OF assms(3-5), of ?hdr a b] by (simp add: assms(2))
  moreover have "take 20 (encode f) @ a @ d' @ b =
      encode_header f @ put_u32 (crc_value (crc_update ?hdr (fr_payload f))) @ a @ d' @ b"
    by (simp add: encode_header_append)
  moreover have "length (fr_payload f) = length (a @ d' @ b)" using assms(2,3) by simp
  ultimately show ?thesis
    using assms(1) by (simp add: decode_header get_put_u32 Let_def crc_value_inject)
qed

section \<open>Streams\<close>

lemma recv_frame_ok:
  assumes "encodable f" "buffer d @ concat net = encode f @ rest" "[] \<notin> set net"
  shows "\<exists>d' net'. recv_frame d net = (Inr f, d', net') \<and> buffer d' @ concat net' = rest \<and> [] \<notin> set net'"
  using assms(2,3)
proof (induction net arbitrary: d)
  case Nil
  then have "buffer d = encode f @ rest" by simp
  then show ?case
    using decode_encode [OF assms(1)] by (simp add: recv_frame.simps next_frame_def)
next
  case (Cons blk net)
  show ?case
  proof (cases "strict_prefix (buffer d) (encode f)")
    case True
    then have "decode (buffer d) = NEED_MORE" by (rule decode_prefix [OF assms(1)])
    with Cons show ?thesis
      using Cons.IH [of "feed blk d"] by (auto simp add: recv_frame.simps [of d] next_frame_def feed_def)
  next
    case False
    moreover have "prefix (buffer d) (encode f @ rest)" "prefix (encode f) (encode f @ rest)"
      using Cons.prems(1) by (metis prefixI, simp)
    ultimately obtain r where r: "buffer d = encode f @ r"
      using prefix_same_cases by (metis prefixE prefix_order.order_refl strict_prefix_def)
    then have "r @ concat (blk # net) = rest" using Cons.prems(1) by simp
    with r Cons.prems(2) show ?thesis
      using decode_encode [OF assms(1), of r] by (simp add: recv_frame.simps [of d] next_frame_def)
  qed
qed

lemma recv_frames_ok:
  assumes "\<forall>f\<in>set fs. encodable f" "buffer d @ concat net = concat (map encode fs) @ rest" "[] \<notin> set net"
  shows "\<exists>d' net'. recv_frames (length fs) d net = (Inr fs, d', net') \<and>
    buffer d' @ concat net' = rest \<and> [] \<notin> set net'"
  using assms
proof (induction fs arbitrary: d net)
  case Nil
  then show ?case by simp
next
  case (Cons f fs)
  then obtain d1 net1 where 1: "recv_frame d net = (Inr f, d1, net1)"
      "buffer d1 @ concat net1 = concat (map encode fs) @ rest" "[] \<notin> set net1"
    using recv_frame_ok [of f d net "concat (map encode fs) @ rest"] by auto
  from Cons.IH [OF _ 1(2,3)] Cons.prems(1) obtain d' net' where
    "recv_frames (length fs) d1 net1 = (Inr fs, d', net')" "buffer d' @ concat net' = rest" "[] \<notin> set net'"
    by auto
  with 1 show ?case by simp
qed

section \<open>Properties\<close>

text \<open>C13: A frame of version 1 whose payload is within the bound is decoded from the front of any
  buffer that starts with its encoding: the same version, kind and payload, and exactly its bytes
  consumed.\<close>
theorem frame_round_trip:
  assumes "fr_version f = 1" "length (fr_payload f) \<le> 64 * 1024 * 1024"
  shows "decode (encode f @ rest) = FRAME f (20 + length (fr_payload f))"
  using decode_encode [of f rest] assms by (simp add: encodable_def)

theorem frame_round_trip_witness:
  "decode (encode \<lparr>fr_version = 1, fr_kind = CONTRIBUTION, fr_payload = [1, 2, 3]\<rparr> @ [9]) =
     FRAME \<lparr>fr_version = 1, fr_kind = CONTRIBUTION, fr_payload = [1, 2, 3]\<rparr>
       (20 + length (fr_payload \<lparr>fr_version = 1, fr_kind = CONTRIBUTION, fr_payload = [1, 2, 3]\<rparr>))"
  by (rule frame_round_trip) simp_all

text \<open>C27: Whatever the peer sends, an accepted frame is the decoding of its own canonical encoding:
  version 1, bounded payload, and the consumed bytes are inside the buffer and equal
  \<open>Protocol::encode\<close> of the frame. No two byte sequences decode to the same frame.\<close>
theorem accepted_bytes_are_canonical:
  assumes "decode bs = FRAME f n"
  shows "fr_version f = 1 \<and> length (fr_payload f) \<le> 64 * 1024 * 1024 \<and>
    n \<le> length bs \<and> take n bs = encode f"
  using decode_sound [OF assms] by (auto simp: encodable_def)

definition sample_frame :: Frame where
  "sample_frame = \<lparr>fr_version = 1, fr_kind = HELLO, fr_payload = [5]\<rparr>"

theorem accepted_bytes_are_canonical_witness:
  "fr_version sample_frame = 1 \<and> length (fr_payload sample_frame) \<le> 64 * 1024 * 1024 \<and>
    length (encode sample_frame) \<le> length (encode sample_frame @ [3]) \<and>
    take (length (encode sample_frame)) (encode sample_frame @ [3]) = encode sample_frame"
  by (rule accepted_bytes_are_canonical, rule decode_encode) (simp add: sample_frame_def encodable_def)

text \<open>A frame that is still arriving is never rejected and never delivered early: every proper
  prefix of an encoding asks for more bytes.\<close>
theorem partial_frame_needs_more:
  assumes "fr_version f = 1" "length (fr_payload f) \<le> 64 * 1024 * 1024" "strict_prefix p (encode f)"
  shows "decode p = NEED_MORE"
  using decode_prefix [of f p] assms by (simp add: encodable_def)

theorem partial_frame_needs_more_witness:
  "decode (take 18 (encode sample_frame)) = NEED_MORE"
proof (rule partial_frame_needs_more [of sample_frame])
  show "strict_prefix (take 18 (encode sample_frame)) (encode sample_frame)"
    by (rule strict_prefixI) (auto simp: take_is_prefix sample_frame_def dest: arg_cong [where f = length])
qed (simp_all add: sample_frame_def)

text \<open>C36: Corruption of up to four consecutive payload bytes is always detected: the frame is rejected
  with a checksum mismatch, never delivered.\<close>
theorem corrupted_payload_rejected:
  assumes "fr_version f = 1" "length (fr_payload f) \<le> 64 * 1024 * 1024"
    and "fr_payload f = a @ d @ b" "length d = length d'" "length d \<le> 4" "d \<noteq> d'"
  shows "decode (take 20 (encode f) @ a @ d' @ b) = REJECT ''checksum mismatch''"
  using decode_burst [of f a d b d'] assms by (simp add: encodable_def)

theorem corrupted_payload_rejected_witness:
  "decode (take 20 (encode sample_frame) @ [] @ [6] @ []) = REJECT ''checksum mismatch''"
  by (rule corrupted_payload_rejected [where d = "[5]"]) (simp_all add: sample_frame_def)

text \<open>C14: However the network cuts the stream into blocks, the receive loop delivers exactly the frames
  that were sent, in order, and keeps every byte that follows them.\<close>
theorem stream_delivers_frames:
  assumes "\<forall>f\<in>set fs. fr_version f = 1 \<and> length (fr_payload f) \<le> 64 * 1024 * 1024"
    and "concat net = concat (map encode fs) @ rest" "[] \<notin> set net"
  shows "\<exists>d net'. recv_frames (length fs) \<lparr>buffer = []\<rparr> net = (Inr fs, d, net') \<and>
    buffer d @ concat net' = rest"
  using recv_frames_ok [of fs "\<lparr>buffer = []\<rparr>" net rest] assms by (auto simp: encodable_def)

theorem stream_delivers_frames_witness:
  "\<exists>d net'. recv_frames (length [sample_frame, sample_frame]) \<lparr>buffer = []\<rparr>
      [take 7 (encode sample_frame), drop 7 (encode sample_frame) @ encode sample_frame @ [1]] =
      (Inr [sample_frame, sample_frame], d, net') \<and> buffer d @ concat net' = [1]"
proof (rule stream_delivers_frames)
  show "[] \<notin> set [take 7 (encode sample_frame), drop 7 (encode sample_frame) @ encode sample_frame @ [1]]"
    by (auto dest: arg_cong [where f = length])
qed (simp_all add: sample_frame_def)

end
