(* ===== verification/CF_Sha256.thy ===== *)
theory CF_Sha256
  imports CF_Canonical
begin

text \<open>
  \<open>digest/sha256.hpp\<close> and \<open>digest.cpp\<close>: the incremental SHA-256 of the semantic digests and its hex
  form. The object keeps the eight state words, the bytes of the unfinished block (the first
  \<open>buffer_len_\<close> bytes of \<open>buffer_\<close>) and the byte count. The reference hashes the padded message
  block by block.
\<close>

unbundle bit_operations_syntax

section \<open>The compression function\<close>

definition sha_k :: "u32 list" where
  "sha_k =
     [0x428A2F98, 0x71374491, 0xB5C0FBCF, 0xE9B5DBA5, 0x3956C25B, 0x59F111F1, 0x923F82A4, 0xAB1C5ED5,
      0xD807AA98, 0x12835B01, 0x243185BE, 0x550C7DC3, 0x72BE5D74, 0x80DEB1FE, 0x9BDC06A7, 0xC19BF174,
      0xE49B69C1, 0xEFBE4786, 0x0FC19DC6, 0x240CA1CC, 0x2DE92C6F, 0x4A7484AA, 0x5CB0A9DC, 0x76F988DA,
      0x983E5152, 0xA831C66D, 0xB00327C8, 0xBF597FC7, 0xC6E00BF3, 0xD5A79147, 0x06CA6351, 0x14292967,
      0x27B70A85, 0x2E1B2138, 0x4D2C6DFC, 0x53380D13, 0x650A7354, 0x766A0ABB, 0x81C2C92E, 0x92722C85,
      0xA2BFE8A1, 0xA81A664B, 0xC24B8B70, 0xC76C51A3, 0xD192E819, 0xD6990624, 0xF40E3585, 0x106AA070,
      0x19A4C116, 0x1E376C08, 0x2748774C, 0x34B0BCB5, 0x391C0CB3, 0x4ED8AA4A, 0x5B9CCA4F, 0x682E6FF3,
      0x748F82EE, 0x78A5636F, 0x84C87814, 0x8CC70208, 0x90BEFFFA, 0xA4506CEB, 0xBEF9A3F7, 0xC67178F2]"

definition rotr :: "u32 \<Rightarrow> nat \<Rightarrow> u32" where
  "rotr x n = drop_bit n x OR push_bit (32 - n) x"

definition sha_load :: "bytes \<Rightarrow> u32 list" where
  "sha_load block =
     map (\<lambda>i. push_bit 24 (ucast (block ! (i * 4))) OR push_bit 16 (ucast (block ! (i * 4 + 1))) OR
              push_bit 8 (ucast (block ! (i * 4 + 2))) OR ucast (block ! (i * 4 + 3)))
       [0..<16]"

definition sha_extend :: "u32 list \<Rightarrow> nat \<Rightarrow> u32 list" where
  "sha_extend w i =
     (let s0 = rotr (w ! (i - 15)) 7 XOR rotr (w ! (i - 15)) 18 XOR drop_bit 3 (w ! (i - 15));
          s1 = rotr (w ! (i - 2)) 17 XOR rotr (w ! (i - 2)) 19 XOR drop_bit 10 (w ! (i - 2))
      in w @ [w ! (i - 16) + s0 + w ! (i - 7) + s1])"

definition sha_schedule :: "bytes \<Rightarrow> u32 list" where
  "sha_schedule block = foldl sha_extend (sha_load block) [16..<64]"

datatype sha_regs = Regs u32 u32 u32 u32 u32 u32 u32 u32

fun sha_round :: "u32 list \<Rightarrow> sha_regs \<Rightarrow> nat \<Rightarrow> sha_regs" where
  "sha_round w (Regs a b c d e f g h) i =
     (let s1 = rotr e 6 XOR rotr e 11 XOR rotr e 25;
          ch = (e AND f) XOR (NOT e AND g);
          temp1 = h + s1 + ch + sha_k ! i + w ! i;
          s0 = rotr a 2 XOR rotr a 13 XOR rotr a 22;
          maj = (a AND b) XOR (a AND c) XOR (b AND c);
          temp2 = s0 + maj
      in Regs (temp1 + temp2) a b c (d + temp1) e f g)"

fun sha_add :: "sha_regs \<Rightarrow> sha_regs \<Rightarrow> sha_regs" where
  "sha_add (Regs a b c d e f g h) (Regs a' b' c' d' e' f' g' h') =
     Regs (a + a') (b + b') (c + c') (d + d') (e + e') (f + f') (g + g') (h + h')"

definition sha_transform :: "sha_regs \<Rightarrow> bytes \<Rightarrow> sha_regs" where
  "sha_transform state block =
     sha_add state (foldl (sha_round (sha_schedule block)) state [0..<64])"

section \<open>The incremental object\<close>

record Sha256 =
  sha_state :: sha_regs
  sha_buffer :: bytes
  sha_total :: u64

definition sha_reset :: Sha256 where
  "sha_reset =
     \<lparr>sha_state = Regs 0x6a09e667 0xbb67ae85 0x3c6ef372 0xa54ff53a
                  0x510e527f 0x9b05688c 0x1f83d9ab 0x5be0cd19,
      sha_buffer = [], sha_total = 0\<rparr>"

definition sha_push :: "Sha256 \<Rightarrow> u8 \<Rightarrow> Sha256" where
  "sha_push h b =
     (let buf = sha_buffer h @ [b]
      in if length buf = 64
         then h\<lparr>sha_state := sha_transform (sha_state h) buf, sha_buffer := []\<rparr>
         else h\<lparr>sha_buffer := buf\<rparr>)"

definition sha_update :: "bytes \<Rightarrow> Sha256 \<Rightarrow> Sha256" where
  "sha_update data h =
     (foldl sha_push h data)\<lparr>sha_total := sha_total h + of_nat (length data)\<rparr>"

text \<open>\<open>while (buffer_len_ != 56) update({&zero, 1});\<close> as a partial function: not returning is \<open>None\<close>.\<close>

partial_function (option) sha_pad :: "Sha256 \<Rightarrow> Sha256 option" where
  "sha_pad h =
     (if length (sha_buffer h) \<noteq> 56 then sha_pad (sha_update [0] h) else Some h)"

fun sha_output :: "sha_regs \<Rightarrow> bytes" where
  "sha_output (Regs a b c d e f g h) =
     concat (map (\<lambda>s. [ucast (drop_bit 24 s AND 0xff), ucast (drop_bit 16 s AND 0xff),
                       ucast (drop_bit 8 s AND 0xff), ucast (s AND 0xff)])
       [a, b, c, d, e, f, g, h])"

definition sha_finish :: "Sha256 \<Rightarrow> bytes option" where
  "sha_finish h0 =
     (let bit_len = sha_total h0 * 8;
          h1 = sha_update [0x80] h0
      in case sha_pad h1 of
           None \<Rightarrow> None
         | Some h2 \<Rightarrow>
             Some (sha_output (sha_state
               (foldl (\<lambda>h i. sha_update [ucast (drop_bit (i * 8) bit_len AND 0xff)] h) h2 (rev [0..<8])))))"

definition sha_digest :: "bytes \<Rightarrow> bytes option" where
  "sha_digest data = sha_finish (sha_update data sha_reset)"

text \<open>\<open>Sha256::digest\<close> as a total function; \<open>sha_digest\<close> is never \<open>None\<close> (below).\<close>

definition sha256 :: "bytes \<Rightarrow> bytes" where
  "sha256 data = the (sha_digest data)"

declare sha_pad.simps [code]

section \<open>Hexadecimal form\<close>

definition hex_digit :: "nat \<Rightarrow> char" where
  "hex_digit n = ''0123456789abcdef'' ! n"

definition to_hex :: "bytes \<Rightarrow> string" where
  "to_hex d =
     concat (map (\<lambda>b. [hex_digit (unat (drop_bit 4 b AND 0xf)), hex_digit (unat (b AND 0xf))]) d)"

definition hex_val :: "char \<Rightarrow> int" where
  "hex_val c =
     (let v = of_char c :: int
      in if 48 \<le> v \<and> v \<le> 57 then v - 48
         else if 97 \<le> v \<and> v \<le> 102 then v - 97 + 10
         else if 65 \<le> v \<and> v \<le> 70 then v - 65 + 10
         else - 1)"

function from_hex_loop :: "string \<Rightarrow> nat \<Rightarrow> nat \<Rightarrow> nat \<Rightarrow> bytes \<Rightarrow> bytes" where
  "from_hex_loop hex n i j out =
     (if i + 1 < n \<and> j < 32 then
        let hi = hex_val (hex ! i); lo = hex_val (hex ! (i + 1))
        in if hi < 0 \<or> lo < 0 then out
           else from_hex_loop hex n (i + 2) (j + 1) (out[j := word_of_int (push_bit 4 hi OR lo)])
      else out)"
  by auto
termination by (relation "measure (\<lambda>(hex, n, i, j, out). n - i)") auto

declare from_hex_loop.simps [simp del]

definition from_hex :: "string \<Rightarrow> bytes" where
  "from_hex hex =
     from_hex_loop hex (if length hex < 64 then length hex else 64) 0 0 (replicate 32 0)"

section \<open>The reference\<close>

function sha_blocks :: "sha_regs \<Rightarrow> bytes \<Rightarrow> sha_regs \<times> bytes" where
  "sha_blocks s data =
     (if length data < 64 then (s, data)
      else sha_blocks (sha_transform s (take 64 data)) (drop 64 data))"
  by auto
termination by (relation "measure (\<lambda>(s, data). length data)") auto

declare sha_blocks.simps [simp del]

definition sha_zeros :: "nat \<Rightarrow> nat" where
  "sha_zeros n = (119 - n mod 64) mod 64"

definition sha_message :: "bytes \<Rightarrow> bytes" where
  "sha_message data =
     data @ [0x80] @ replicate (sha_zeros (length data)) 0 @ push_be 8 (of_nat (length data) * 8)"

definition sha_reference :: "bytes \<Rightarrow> bytes" where
  "sha_reference data = sha_output (fst (sha_blocks (sha_state sha_reset) (sha_message data)))"

lemma pad_steps: "l < 64 \<Longrightarrow> (120 - l) mod 64 = (if l \<le> 56 then 56 - l else 120 - l :: nat)"
  by (auto simp: le_mod_geq)

lemma sha_zeros_eq: "sha_zeros n = (if n mod 64 \<le> 55 then 55 - n mod 64 else 119 - n mod 64)"
  using mod_less_divisor [of 64 n] by (auto simp: sha_zeros_def le_mod_geq)

lemma sha_message_whole_blocks: "length (sha_message data) mod 64 = 0"
proof -
  have "(n + 1 + sha_zeros n + 8) mod 64 = 0" for n
  proof -
    have n: "n = 64 * (n div 64) + n mod 64" by simp
    have "n + 1 + sha_zeros n + 8 = 64 * (n div 64 + (if n mod 64 \<le> 55 then 1 else 2))"
      using n sha_zeros_eq [of n] mod_less_divisor [of 64 n] by (cases "n mod 64 \<le> 55"; simp; linarith)
    then show ?thesis by (simp only: mod_mult_self1_is_0)
  qed
  from this [of "length data"] show ?thesis by (simp add: sha_message_def ac_simps)
qed

section \<open>The object computes the reference\<close>

abbreviation regs_buf :: "Sha256 \<Rightarrow> sha_regs \<times> bytes" where
  "regs_buf h \<equiv> (sha_state h, sha_buffer h)"

lemma sha_blocks_short: "length data < 64 \<Longrightarrow> sha_blocks s data = (s, data)"
  by (subst sha_blocks.simps) simp

lemma sha_blocks_long:
  "64 \<le> length data \<Longrightarrow>
    sha_blocks s data = sha_blocks (sha_transform s (take 64 data)) (drop 64 data)"
  by (subst sha_blocks.simps) simp

lemma sha_blocks_rest: "length (snd (sha_blocks s data)) = length data mod 64"
proof (induction s data rule: sha_blocks.induct)
  case (1 s data)
  then show ?case
    by (cases "length data < 64") (simp_all add: sha_blocks_short sha_blocks_long le_mod_geq)
qed

lemma foldl_push_blocks:
  "length (sha_buffer h) < 64 \<Longrightarrow>
    regs_buf (foldl sha_push h data) = sha_blocks (sha_state h) (sha_buffer h @ data)"
proof (induction data arbitrary: h)
  case Nil
  then show ?case by (simp add: sha_blocks_short)
next
  case (Cons b data)
  show ?case
  proof (cases "length (sha_buffer h @ [b]) = 64")
    case True
    then have "sha_blocks (sha_state h) ((sha_buffer h @ [b]) @ data) =
        sha_blocks (sha_transform (sha_state h) (sha_buffer h @ [b])) data"
      by (simp add: sha_blocks_long)
    with True Cons.IH [of "sha_push h b"] show ?thesis by (simp add: sha_push_def)
  next
    case False
    with Cons.prems Cons.IH [of "sha_push h b"] show ?thesis by (simp add: sha_push_def)
  qed
qed

lemma sha_blocks_append:
  "sha_blocks s (a @ b) = (case sha_blocks s a of (s', r) \<Rightarrow> sha_blocks s' (r @ b))"
proof (induction s a rule: sha_blocks.induct)
  case (1 s a)
  show ?case
  proof (cases "length a < 64")
    case True
    then show ?thesis by (simp add: sha_blocks_short)
  next
    case False
    then show ?thesis using 1 by (simp add: sha_blocks_long)
  qed
qed

lemma regs_buf_update:
  "length (sha_buffer h) < 64 \<Longrightarrow>
    regs_buf (sha_update data h) = sha_blocks (sha_state h) (sha_buffer h @ data)"
  using foldl_push_blocks [of h data] by (simp add: sha_update_def)

lemma buffer_update:
  assumes "length (sha_buffer h) < 64"
  shows "length (sha_buffer (sha_update data h)) = (length (sha_buffer h) + length data) mod 64"
  using regs_buf_update [OF assms, of data] sha_blocks_rest [of "sha_state h" "sha_buffer h @ data"]
  by (metis length_append snd_conv)

lemma sha_pad_ok:
  assumes "length (sha_buffer h) < 64"
  shows "\<exists>h'. sha_pad h = Some h' \<and> length (sha_buffer h') = 56 \<and>
    regs_buf h' =
      sha_blocks (sha_state h) (sha_buffer h @ replicate ((120 - length (sha_buffer h)) mod 64) 0)"
  using assms
proof (induction "(120 - length (sha_buffer h)) mod 64" arbitrary: h)
  case 0
  then have "length (sha_buffer h) = 56" by (simp add: pad_steps split: if_splits)
  then show ?case by (simp add: sha_pad.simps sha_blocks_short)
next
  case (Suc k)
  let ?h = "sha_update [0] h"
  from Suc.hyps(2) have ne: "length (sha_buffer h) \<noteq> 56" by auto
  have len: "length (sha_buffer ?h) = (length (sha_buffer h) + 1) mod 64"
    using buffer_update [OF Suc.prems, of "[0]"] by simp
  then have k: "k = (120 - length (sha_buffer ?h)) mod 64"
    using Suc.hyps(2) Suc.prems by (cases "length (sha_buffer h) = 63") (auto simp: pad_steps le_mod_geq split: if_splits)
  have "length (sha_buffer ?h) < 64" using len by simp
  from Suc.hyps(1) [OF k this] obtain h' where h': "sha_pad ?h = Some h'" "length (sha_buffer h') = 56"
    "regs_buf h' = sha_blocks (sha_state ?h) (sha_buffer ?h @ replicate k 0)"
    using k by auto
  have upd: "sha_blocks (sha_state h) (sha_buffer h @ [0]) = regs_buf ?h"
    using regs_buf_update [OF Suc.prems, of "[0]"] by (rule sym)
  have "sha_blocks (sha_state h) (sha_buffer h @ [0] @ replicate k 0) =
      sha_blocks (sha_state ?h) (sha_buffer ?h @ replicate k 0)"
    using sha_blocks_append [of "sha_state h" "sha_buffer h @ [0]" "replicate k 0"] by (simp add: upd)
  moreover have "replicate ((120 - length (sha_buffer h)) mod 64) (0 :: u8) = [0] @ replicate k 0"
    unfolding Suc.hyps(2) [symmetric] by simp
  moreover have "sha_pad h = sha_pad ?h" using ne by (subst sha_pad.simps) simp
  ultimately show ?case by (intro exI [of _ h']) (simp add: h')
qed

lemma foldl_update_bytes:
  assumes "length (sha_buffer h) < 64"
  shows "regs_buf (foldl (\<lambda>h b. sha_update [b] h) h bs) = sha_blocks (sha_state h) (sha_buffer h @ bs)"
  using assms
proof (induction bs arbitrary: h)
  case Nil
  then show ?case by (simp add: sha_blocks_short)
next
  case (Cons b bs)
  have "length (sha_buffer (sha_update [b] h)) < 64"
    using buffer_update [OF Cons.prems, of "[b]"] by simp
  from Cons.IH [OF this]
  have "regs_buf (foldl (\<lambda>h b. sha_update [b] h) h (b # bs)) =
      sha_blocks (sha_state (sha_update [b] h)) (sha_buffer (sha_update [b] h) @ bs)"
    by simp
  also have "\<dots> = sha_blocks (sha_state h) ((sha_buffer h @ [b]) @ bs)"
    using sha_blocks_append [of "sha_state h" "sha_buffer h @ [b]" bs]
      regs_buf_update [OF Cons.prems, of "[b]", symmetric] by (simp del: append_assoc)
  finally show ?case by simp
qed

definition absorbed :: "bytes \<Rightarrow> Sha256 \<Rightarrow> bool" where
  "absorbed data h =
     (regs_buf h = sha_blocks (sha_state sha_reset) data \<and> sha_total h = of_nat (length data))"

lemma pad_zeros: "(120 - (n + 1) mod 64) mod 64 = sha_zeros n"
proof -
  have "(n + 1) mod 64 = (if n mod 64 = 63 then 0 else n mod 64 + 1)"
    by (simp add: mod_Suc)
  then show ?thesis
    using mod_less_divisor [of 64 n] by (auto simp: sha_zeros_eq pad_steps)
qed

lemma sha_reset_fields: "sha_buffer sha_reset = []" "sha_total sha_reset = 0"
  by (simp_all add: sha_reset_def)

lemma absorbed_reset [inv_intros]: "absorbed [] sha_reset"
  by (simp add: absorbed_def sha_reset_fields sha_blocks_short)

lemma absorbed_buffer: "absorbed data h \<Longrightarrow> length (sha_buffer h) = length data mod 64"
  using sha_blocks_rest [of "sha_state sha_reset" data] by (metis absorbed_def snd_conv)

lemma absorbed_blocks: "absorbed data h \<Longrightarrow> sha_blocks (sha_state sha_reset) data = regs_buf h"
  by (simp add: absorbed_def)

lemma absorbed_update [inv_intros]:
  assumes "absorbed a h"
  shows "absorbed (a @ b) (sha_update b h)"
proof -
  have "length (sha_buffer h) < 64" using absorbed_buffer [OF assms] by simp
  then have "regs_buf (sha_update b h) = sha_blocks (sha_state h) (sha_buffer h @ b)"
    by (rule regs_buf_update)
  also have "\<dots> = sha_blocks (sha_state sha_reset) (a @ b)"
    by (simp add: sha_blocks_append [of _ a b] absorbed_blocks [OF assms])
  finally show ?thesis
    using assms by (simp add: absorbed_def sha_update_def)
qed

lemma absorbed_updates: "absorbed a h \<Longrightarrow> absorbed (a @ concat bs) (foldl (\<lambda>h b. sha_update b h) h bs)"
proof (induction bs arbitrary: a h)
  case Nil
  then show ?case by simp
next
  case (Cons b bs)
  from Cons.IH [OF absorbed_update [OF Cons.prems, of b]] show ?case by simp
qed

lemma sha_finish_reference:
  assumes "absorbed data h"
  shows "sha_finish h = Some (sha_reference data)"
proof -
  let ?h1 = "sha_update [0x80] h" and ?len = "sha_total h * 8"
  have a1: "absorbed (data @ [0x80]) ?h1" using assms by (rule absorbed_update)
  then have b1: "length (sha_buffer ?h1) = (length data + 1) mod 64"
    using absorbed_buffer [of "data @ [0x80]"] by simp
  then have "length (sha_buffer ?h1) < 64" by simp
  from sha_pad_ok [OF this] obtain h2 where h2: "sha_pad ?h1 = Some h2" "length (sha_buffer h2) = 56"
    "regs_buf h2 = sha_blocks (sha_state ?h1) (sha_buffer ?h1 @ replicate (sha_zeros (length data)) 0)"
    unfolding b1 pad_zeros by blast
  have "sha_blocks (sha_state sha_reset) ((data @ [0x80]) @ replicate (sha_zeros (length data)) 0) = regs_buf h2"
    unfolding sha_blocks_append [of _ "data @ [0x80]"] absorbed_blocks [OF a1] h2(3) by simp
  then have all: "sha_blocks (sha_state sha_reset) (sha_message data) =
      sha_blocks (sha_state h2) (sha_buffer h2 @ push_be 8 ?len)"
    using sha_blocks_append [of "sha_state sha_reset"
        "(data @ [0x80]) @ replicate (sha_zeros (length data)) 0" "push_be 8 ?len"] assms
    by (simp add: sha_message_def absorbed_def)
  have "foldl (\<lambda>h i. sha_update [ucast (drop_bit (i * 8) ?len AND 0xff)] h) h2 (rev [0..<8]) =
      foldl (\<lambda>h b. sha_update [b] h) h2 (push_be 8 ?len)"
    by (simp add: foldl_map flip: push_be_8)
  moreover have "sha_state (foldl (\<lambda>h b. sha_update [b] h) h2 (push_be 8 ?len)) =
      fst (sha_blocks (sha_state sha_reset) (sha_message data))"
    using arg_cong [OF foldl_update_bytes [of h2 "push_be 8 ?len"], of fst] h2(2) by (simp add: all)
  ultimately show ?thesis
    by (simp only: sha_finish_def Let_def h2(1) option.case sha_reference_def)
qed

lemma length_sha_output [simp]: "length (sha_output s) = 32"
  by (cases s) simp

section \<open>Hexadecimal round trip\<close>

lemma nibble_less: "unat (b AND 0xf :: u8) < 16"
proof -
  have "b AND 0xf = take_bit 4 b"
    by (simp add: take_bit_eq_mask mask_eq_exp_minus_1)
  then show ?thesis using take_bit_nat_less_exp [of 4 "unat b"] by (simp add: unsigned_take_bit_eq)
qed

lemma hex_val_digit:
  assumes "n < 16"
  shows "hex_val (hex_digit n) = int n"
proof -
  have "list_all (\<lambda>n. hex_val (hex_digit n) = int n) [0..<16]" by code_simp
  with assms show ?thesis by (simp add: list_all_iff)
qed

lemma nibbles_join:
  "word_of_int (push_bit 4 (int (unat (drop_bit 4 b AND 0xf))) OR int (unat (b AND 0xf))) = (b :: u8)"
proof -
  have mask: "(15 :: u8) = mask 4" by (simp add: mask_eq_exp_minus_1)
  show ?thesis
    unfolding uint_nat [symmetric] mask
    by (rule bit_word_eqI) (auto simp: bit_simps dest: bit_lengths)
qed

lemma to_hex_nth:
  "m < length d \<Longrightarrow> to_hex d ! (2 * m) = hex_digit (unat (drop_bit 4 (d ! m) AND 0xf)) \<and>
    to_hex d ! (2 * m + 1) = hex_digit (unat (d ! m AND 0xf))"
proof (induction d arbitrary: m)
  case Nil
  then show ?case by simp
next
  case (Cons b d)
  have "to_hex (b # d) =
      hex_digit (unat (drop_bit 4 b AND 0xf)) # hex_digit (unat (b AND 0xf)) # to_hex d"
    by (simp add: to_hex_def)
  with Cons show ?case by (cases m) auto
qed

lemma length_to_hex [simp]: "length (to_hex d) = 2 * length d"
  by (induction d) (simp_all add: to_hex_def)

lemma from_hex_loop_to_hex:
  assumes "length d = 32" "length out = 32" "j \<le> 32"
  shows "from_hex_loop (to_hex d) 64 (2 * j) j out = take j out @ drop j d"
  using assms(2,3)
proof (induction "32 - j" arbitrary: j out)
  case 0
  then show ?case using assms(1) by (subst from_hex_loop.simps) simp
next
  case (Suc k)
  then have j: "j < 32" by simp
  let ?hi = "hex_val (to_hex d ! (2 * j))" and ?lo = "hex_val (to_hex d ! (2 * j + 1))"
  have hi: "?hi = int (unat (drop_bit 4 (d ! j) AND 0xf))" and lo: "?lo = int (unat (d ! j AND 0xf))"
    using to_hex_nth [of j d] j assms(1) hex_val_digit [OF nibble_less] by simp_all
  have "from_hex_loop (to_hex d) 64 (2 * j) j out =
      from_hex_loop (to_hex d) 64 (2 * (j + 1)) (j + 1) (out[j := d ! j])"
    using j by (subst from_hex_loop.simps) (simp add: Let_def hi lo [simplified] nibbles_join [simplified])
  also have "\<dots> = take (j + 1) (out[j := d ! j]) @ drop (j + 1) d"
    using Suc j by (intro Suc.hyps(1)) simp_all
  also have "\<dots> = take j out @ drop j d"
    using j Suc.prems assms(1) by (simp add: take_Suc_conv_app_nth Cons_nth_drop_Suc)
  finally show ?case .
qed

lemma from_hex_to_hex: "length d = 32 \<Longrightarrow> from_hex (to_hex d) = d"
  using from_hex_loop_to_hex [of d "replicate 32 0" 0] by (simp add: from_hex_def)

lemma sha_digest_reference: "sha_digest data = Some (sha_reference data)"
  using absorbed_update [OF absorbed_reset, of data] by (simp add: sha_digest_def sha_finish_reference)

lemma length_sha256 [simp]: "length (sha256 data) = 32"
  by (simp add: sha256_def sha_digest_reference sha_reference_def)

section \<open>Properties\<close>

text \<open>C34: The incremental hash does not depend on how the data is cut into \<open>update\<close> calls, its padding
  loop always ends, and the result is the hash of the padded message taken block by block.\<close>
theorem incremental_sha_is_blockwise:
  "sha_finish (foldl (\<lambda>h d. sha_update d h) sha_reset ds) = Some (sha_reference (concat ds))"
  using absorbed_updates [OF absorbed_reset, of ds] by (simp add: sha_finish_reference)

text \<open>\<open>Sha256::digest\<close> returns, with 32 bytes, for every input, and its hex form reads back.\<close>
theorem sha_digest_total:
  "sha_digest data = Some (sha256 data) \<and> length (sha256 data) = 32 \<and>
   length (to_hex (sha256 data)) = 64 \<and> from_hex (to_hex (sha256 data)) = sha256 data"
  by (simp add: from_hex_to_hex) (simp add: sha256_def sha_digest_reference)

end
