(* ===== verification/CF_Enums.thy ===== *)
theory CF_Enums
  imports CF_Foundation
begin

text \<open>
  The canonical enums of \<open>foundation/enums.hpp\<close> with the conversions of \<open>src/enums.cpp\<close>, and
  \<open>ProvenanceKind\<close> of \<open>foundation/source.hpp\<close>. The constructors keep the C++ names; where
  two enums share one (\<open>UNKNOWN\<close>, \<open>FAILED\<close>, ...) it is written \<open>Enum.NAME\<close>, as
  \<open>Enum::NAME\<close> in the code. The locale \<open>string_enum\<close> is the contract of a pair of conversions;
  it is interpreted for each enum. The locale \<open>byte_enum\<close> is the contract of the
  \<open>static_cast\<close>s to and from the underlying \<open>uint8_t\<close>, guarded by a \<open>valid_\<close> test.
\<close>

section \<open>Contracts of the conversions\<close>

locale string_enum =
  fixes print :: "'e \<Rightarrow> string" and parse :: "string \<Rightarrow> 'e option"
  assumes parse_print: "parse (print e) = Some e"
    and print_parse: "parse s = Some e \<Longrightarrow> print e = s"
begin

lemma parse_iff: "parse s = Some e \<longleftrightarrow> s = print e"
  using parse_print print_parse by auto

lemma print_inject: "print a = print b \<longleftrightarrow> a = b"
  by (metis parse_print option.inject)

lemma parse_rejects: "parse s = None \<longleftrightarrow> (\<forall>e. s \<noteq> print e)"
  by (metis not_None_eq parse_iff)

end

locale byte_enum =
  fixes to_byte :: "'e \<Rightarrow> u8" and of_byte :: "u8 \<Rightarrow> 'e option" and last_byte :: u8
  assumes of_to: "of_byte (to_byte e) = Some e"
    and to_of: "of_byte b = Some e \<Longrightarrow> to_byte e = b"
    and bounded: "of_byte b = None \<longleftrightarrow> last_byte < b"
begin

lemma of_byte_iff: "of_byte b = Some e \<longleftrightarrow> b = to_byte e"
  using of_to to_of by auto

lemma to_byte_le: "to_byte e \<le> last_byte"
  using bounded [of "to_byte e"] by (simp add: of_to not_less)

lemma to_byte_inject: "to_byte a = to_byte b \<longleftrightarrow> a = b"
  by (metis of_to option.inject)

end

section \<open>CollectiveKind\<close>

datatype CollectiveKind =
    BARRIER | BROADCAST | REDUCE | ALL_REDUCE | ALL_GATHER | REDUCE_SCATTER

fun collective_kind_to_string :: "CollectiveKind \<Rightarrow> string" where
  "collective_kind_to_string CollectiveKind.BARRIER = ''BARRIER''"
| "collective_kind_to_string CollectiveKind.BROADCAST = ''BROADCAST''"
| "collective_kind_to_string CollectiveKind.REDUCE = ''REDUCE''"
| "collective_kind_to_string CollectiveKind.ALL_REDUCE = ''ALL_REDUCE''"
| "collective_kind_to_string CollectiveKind.ALL_GATHER = ''ALL_GATHER''"
| "collective_kind_to_string CollectiveKind.REDUCE_SCATTER = ''REDUCE_SCATTER''"

definition collective_kind_from_string :: "string \<Rightarrow> CollectiveKind option" where
  "collective_kind_from_string s =
     (if s = ''BARRIER'' then Some CollectiveKind.BARRIER
      else if s = ''BROADCAST'' then Some CollectiveKind.BROADCAST
      else if s = ''REDUCE'' then Some CollectiveKind.REDUCE
      else if s = ''ALL_REDUCE'' then Some CollectiveKind.ALL_REDUCE
      else if s = ''ALL_GATHER'' then Some CollectiveKind.ALL_GATHER
      else if s = ''REDUCE_SCATTER'' then Some CollectiveKind.REDUCE_SCATTER
      else None)"

interpretation collective_kind_str: string_enum collective_kind_to_string collective_kind_from_string
proof
  show "collective_kind_from_string (collective_kind_to_string e) = Some e" for e
    by (cases e) (simp_all add: collective_kind_from_string_def)
  show "collective_kind_to_string e = s" if "collective_kind_from_string s = Some e" for s e
    using that by (auto simp: collective_kind_from_string_def split: if_splits)
qed

section \<open>ReductionOp\<close>

datatype ReductionOp =
    SUM | PRODUCT | MIN | MAX | NONE

fun reduction_op_to_string :: "ReductionOp \<Rightarrow> string" where
  "reduction_op_to_string ReductionOp.SUM = ''SUM''"
| "reduction_op_to_string ReductionOp.PRODUCT = ''PRODUCT''"
| "reduction_op_to_string ReductionOp.MIN = ''MIN''"
| "reduction_op_to_string ReductionOp.MAX = ''MAX''"
| "reduction_op_to_string ReductionOp.NONE = ''NONE''"

definition reduction_op_from_string :: "string \<Rightarrow> ReductionOp option" where
  "reduction_op_from_string s =
     (if s = ''SUM'' then Some ReductionOp.SUM
      else if s = ''PRODUCT'' then Some ReductionOp.PRODUCT
      else if s = ''MIN'' then Some ReductionOp.MIN
      else if s = ''MAX'' then Some ReductionOp.MAX
      else if s = ''NONE'' then Some ReductionOp.NONE
      else None)"

interpretation reduction_op_str: string_enum reduction_op_to_string reduction_op_from_string
proof
  show "reduction_op_from_string (reduction_op_to_string e) = Some e" for e
    by (cases e) (simp_all add: reduction_op_from_string_def)
  show "reduction_op_to_string e = s" if "reduction_op_from_string s = Some e" for s e
    using that by (auto simp: reduction_op_from_string_def split: if_splits)
qed

section \<open>Datatype\<close>

datatype Datatype =
    INT32 | UINT32 | INT64 | FLOAT32 | FLOAT64 | BYTE

fun datatype_to_string :: "Datatype \<Rightarrow> string" where
  "datatype_to_string Datatype.INT32 = ''INT32''"
| "datatype_to_string Datatype.UINT32 = ''UINT32''"
| "datatype_to_string Datatype.INT64 = ''INT64''"
| "datatype_to_string Datatype.FLOAT32 = ''FLOAT32''"
| "datatype_to_string Datatype.FLOAT64 = ''FLOAT64''"
| "datatype_to_string Datatype.BYTE = ''BYTE''"

definition datatype_from_string :: "string \<Rightarrow> Datatype option" where
  "datatype_from_string s =
     (if s = ''INT32'' then Some Datatype.INT32
      else if s = ''UINT32'' then Some Datatype.UINT32
      else if s = ''INT64'' then Some Datatype.INT64
      else if s = ''FLOAT32'' then Some Datatype.FLOAT32
      else if s = ''FLOAT64'' then Some Datatype.FLOAT64
      else if s = ''BYTE'' then Some Datatype.BYTE
      else None)"

interpretation datatype_str: string_enum datatype_to_string datatype_from_string
proof
  show "datatype_from_string (datatype_to_string e) = Some e" for e
    by (cases e) (simp_all add: datatype_from_string_def)
  show "datatype_to_string e = s" if "datatype_from_string s = Some e" for s e
    using that by (auto simp: datatype_from_string_def split: if_splits)
qed

section \<open>LinkClass\<close>

datatype LinkClass =
    INTRA_PROCESS | HOST_MEMORY | PCIE | NVLINK_CLASS | NETWORK | RDMA_CLASS
  | SHARED_MEMORY | UNKNOWN

fun link_class_to_string :: "LinkClass \<Rightarrow> string" where
  "link_class_to_string LinkClass.INTRA_PROCESS = ''INTRA_PROCESS''"
| "link_class_to_string LinkClass.HOST_MEMORY = ''HOST_MEMORY''"
| "link_class_to_string LinkClass.PCIE = ''PCIE''"
| "link_class_to_string LinkClass.NVLINK_CLASS = ''NVLINK_CLASS''"
| "link_class_to_string LinkClass.NETWORK = ''NETWORK''"
| "link_class_to_string LinkClass.RDMA_CLASS = ''RDMA_CLASS''"
| "link_class_to_string LinkClass.SHARED_MEMORY = ''SHARED_MEMORY''"
| "link_class_to_string LinkClass.UNKNOWN = ''UNKNOWN''"

definition link_class_from_string :: "string \<Rightarrow> LinkClass option" where
  "link_class_from_string s =
     (if s = ''INTRA_PROCESS'' then Some LinkClass.INTRA_PROCESS
      else if s = ''HOST_MEMORY'' then Some LinkClass.HOST_MEMORY
      else if s = ''PCIE'' then Some LinkClass.PCIE
      else if s = ''NVLINK_CLASS'' then Some LinkClass.NVLINK_CLASS
      else if s = ''NETWORK'' then Some LinkClass.NETWORK
      else if s = ''RDMA_CLASS'' then Some LinkClass.RDMA_CLASS
      else if s = ''SHARED_MEMORY'' then Some LinkClass.SHARED_MEMORY
      else if s = ''UNKNOWN'' then Some LinkClass.UNKNOWN
      else None)"

interpretation link_class_str: string_enum link_class_to_string link_class_from_string
proof
  show "link_class_from_string (link_class_to_string e) = Some e" for e
    by (cases e) (simp_all add: link_class_from_string_def)
  show "link_class_to_string e = s" if "link_class_from_string s = Some e" for s e
    using that by (auto simp: link_class_from_string_def split: if_splits)
qed

section \<open>TopologyProvenance\<close>

datatype TopologyProvenance =
    MEASURED | REPORTED | DERIVED | SYNTHETIC | UNKNOWN

fun topology_provenance_to_string :: "TopologyProvenance \<Rightarrow> string" where
  "topology_provenance_to_string TopologyProvenance.MEASURED = ''MEASURED''"
| "topology_provenance_to_string TopologyProvenance.REPORTED = ''REPORTED''"
| "topology_provenance_to_string TopologyProvenance.DERIVED = ''DERIVED''"
| "topology_provenance_to_string TopologyProvenance.SYNTHETIC = ''SYNTHETIC''"
| "topology_provenance_to_string TopologyProvenance.UNKNOWN = ''UNKNOWN''"

definition topology_provenance_from_string :: "string \<Rightarrow> TopologyProvenance option" where
  "topology_provenance_from_string s =
     (if s = ''MEASURED'' then Some TopologyProvenance.MEASURED
      else if s = ''REPORTED'' then Some TopologyProvenance.REPORTED
      else if s = ''DERIVED'' then Some TopologyProvenance.DERIVED
      else if s = ''SYNTHETIC'' then Some TopologyProvenance.SYNTHETIC
      else if s = ''UNKNOWN'' then Some TopologyProvenance.UNKNOWN
      else None)"

interpretation topology_provenance_str: string_enum topology_provenance_to_string topology_provenance_from_string
proof
  show "topology_provenance_from_string (topology_provenance_to_string e) = Some e" for e
    by (cases e) (simp_all add: topology_provenance_from_string_def)
  show "topology_provenance_to_string e = s" if "topology_provenance_from_string s = Some e" for s e
    using that by (auto simp: topology_provenance_from_string_def split: if_splits)
qed

section \<open>GroupLifecycle\<close>

datatype GroupLifecycle =
    CREATING | READY | DEGRADED | RECONFIGURING | FAILED | RETIRED

fun group_lifecycle_to_string :: "GroupLifecycle \<Rightarrow> string" where
  "group_lifecycle_to_string GroupLifecycle.CREATING = ''CREATING''"
| "group_lifecycle_to_string GroupLifecycle.READY = ''READY''"
| "group_lifecycle_to_string GroupLifecycle.DEGRADED = ''DEGRADED''"
| "group_lifecycle_to_string GroupLifecycle.RECONFIGURING = ''RECONFIGURING''"
| "group_lifecycle_to_string GroupLifecycle.FAILED = ''FAILED''"
| "group_lifecycle_to_string GroupLifecycle.RETIRED = ''RETIRED''"

definition group_lifecycle_from_string :: "string \<Rightarrow> GroupLifecycle option" where
  "group_lifecycle_from_string s =
     (if s = ''CREATING'' then Some GroupLifecycle.CREATING
      else if s = ''READY'' then Some GroupLifecycle.READY
      else if s = ''DEGRADED'' then Some GroupLifecycle.DEGRADED
      else if s = ''RECONFIGURING'' then Some GroupLifecycle.RECONFIGURING
      else if s = ''FAILED'' then Some GroupLifecycle.FAILED
      else if s = ''RETIRED'' then Some GroupLifecycle.RETIRED
      else None)"

interpretation group_lifecycle_str: string_enum group_lifecycle_to_string group_lifecycle_from_string
proof
  show "group_lifecycle_from_string (group_lifecycle_to_string e) = Some e" for e
    by (cases e) (simp_all add: group_lifecycle_from_string_def)
  show "group_lifecycle_to_string e = s" if "group_lifecycle_from_string s = Some e" for s e
    using that by (auto simp: group_lifecycle_from_string_def split: if_splits)
qed

section \<open>CollectiveState\<close>

datatype CollectiveState =
    CREATED | PLANNED | RESERVED | DISPATCHED | RUNNING | COMPLETING | SUCCEEDED | FAILED
  | ABORTED | CANCELLED | STALE

fun collective_state_to_string :: "CollectiveState \<Rightarrow> string" where
  "collective_state_to_string CollectiveState.CREATED = ''CREATED''"
| "collective_state_to_string CollectiveState.PLANNED = ''PLANNED''"
| "collective_state_to_string CollectiveState.RESERVED = ''RESERVED''"
| "collective_state_to_string CollectiveState.DISPATCHED = ''DISPATCHED''"
| "collective_state_to_string CollectiveState.RUNNING = ''RUNNING''"
| "collective_state_to_string CollectiveState.COMPLETING = ''COMPLETING''"
| "collective_state_to_string CollectiveState.SUCCEEDED = ''SUCCEEDED''"
| "collective_state_to_string CollectiveState.FAILED = ''FAILED''"
| "collective_state_to_string CollectiveState.ABORTED = ''ABORTED''"
| "collective_state_to_string CollectiveState.CANCELLED = ''CANCELLED''"
| "collective_state_to_string CollectiveState.STALE = ''STALE''"

definition collective_state_from_string :: "string \<Rightarrow> CollectiveState option" where
  "collective_state_from_string s =
     (if s = ''CREATED'' then Some CollectiveState.CREATED
      else if s = ''PLANNED'' then Some CollectiveState.PLANNED
      else if s = ''RESERVED'' then Some CollectiveState.RESERVED
      else if s = ''DISPATCHED'' then Some CollectiveState.DISPATCHED
      else if s = ''RUNNING'' then Some CollectiveState.RUNNING
      else if s = ''COMPLETING'' then Some CollectiveState.COMPLETING
      else if s = ''SUCCEEDED'' then Some CollectiveState.SUCCEEDED
      else if s = ''FAILED'' then Some CollectiveState.FAILED
      else if s = ''ABORTED'' then Some CollectiveState.ABORTED
      else if s = ''CANCELLED'' then Some CollectiveState.CANCELLED
      else if s = ''STALE'' then Some CollectiveState.STALE
      else None)"

interpretation collective_state_str: string_enum collective_state_to_string collective_state_from_string
proof
  show "collective_state_from_string (collective_state_to_string e) = Some e" for e
    by (cases e) (simp_all add: collective_state_from_string_def)
  show "collective_state_to_string e = s" if "collective_state_from_string s = Some e" for s e
    using that by (auto simp: collective_state_from_string_def split: if_splits)
qed

section \<open>Algorithm\<close>

datatype Algorithm =
    DIRECT | RING | TREE | RECURSIVE_DOUBLING | REDUCE_BROADCAST | HIERARCHICAL
  | BACKEND_DEFAULT | UNKNOWN

fun algorithm_to_string :: "Algorithm \<Rightarrow> string" where
  "algorithm_to_string Algorithm.DIRECT = ''DIRECT''"
| "algorithm_to_string Algorithm.RING = ''RING''"
| "algorithm_to_string Algorithm.TREE = ''TREE''"
| "algorithm_to_string Algorithm.RECURSIVE_DOUBLING = ''RECURSIVE_DOUBLING''"
| "algorithm_to_string Algorithm.REDUCE_BROADCAST = ''REDUCE_BROADCAST''"
| "algorithm_to_string Algorithm.HIERARCHICAL = ''HIERARCHICAL''"
| "algorithm_to_string Algorithm.BACKEND_DEFAULT = ''BACKEND_DEFAULT''"
| "algorithm_to_string Algorithm.UNKNOWN = ''UNKNOWN''"

definition algorithm_from_string :: "string \<Rightarrow> Algorithm option" where
  "algorithm_from_string s =
     (if s = ''DIRECT'' then Some Algorithm.DIRECT
      else if s = ''RING'' then Some Algorithm.RING
      else if s = ''TREE'' then Some Algorithm.TREE
      else if s = ''RECURSIVE_DOUBLING'' then Some Algorithm.RECURSIVE_DOUBLING
      else if s = ''REDUCE_BROADCAST'' then Some Algorithm.REDUCE_BROADCAST
      else if s = ''HIERARCHICAL'' then Some Algorithm.HIERARCHICAL
      else if s = ''BACKEND_DEFAULT'' then Some Algorithm.BACKEND_DEFAULT
      else if s = ''UNKNOWN'' then Some Algorithm.UNKNOWN
      else None)"

interpretation algorithm_str: string_enum algorithm_to_string algorithm_from_string
proof
  show "algorithm_from_string (algorithm_to_string e) = Some e" for e
    by (cases e) (simp_all add: algorithm_from_string_def)
  show "algorithm_to_string e = s" if "algorithm_from_string s = Some e" for s e
    using that by (auto simp: algorithm_from_string_def split: if_splits)
qed

section \<open>MeasurementProvenance\<close>

datatype MeasurementProvenance =
    THEORETICAL | BACKEND_REPORTED | MEASURED | SYNTHETIC | UNKNOWN

fun measurement_provenance_to_string :: "MeasurementProvenance \<Rightarrow> string" where
  "measurement_provenance_to_string MeasurementProvenance.THEORETICAL = ''THEORETICAL''"
| "measurement_provenance_to_string MeasurementProvenance.BACKEND_REPORTED = ''BACKEND_REPORTED''"
| "measurement_provenance_to_string MeasurementProvenance.MEASURED = ''MEASURED''"
| "measurement_provenance_to_string MeasurementProvenance.SYNTHETIC = ''SYNTHETIC''"
| "measurement_provenance_to_string MeasurementProvenance.UNKNOWN = ''UNKNOWN''"

definition measurement_provenance_from_string :: "string \<Rightarrow> MeasurementProvenance option" where
  "measurement_provenance_from_string s =
     (if s = ''THEORETICAL'' then Some MeasurementProvenance.THEORETICAL
      else if s = ''BACKEND_REPORTED'' then Some MeasurementProvenance.BACKEND_REPORTED
      else if s = ''MEASURED'' then Some MeasurementProvenance.MEASURED
      else if s = ''SYNTHETIC'' then Some MeasurementProvenance.SYNTHETIC
      else if s = ''UNKNOWN'' then Some MeasurementProvenance.UNKNOWN
      else None)"

interpretation measurement_provenance_str: string_enum measurement_provenance_to_string measurement_provenance_from_string
proof
  show "measurement_provenance_from_string (measurement_provenance_to_string e) = Some e" for e
    by (cases e) (simp_all add: measurement_provenance_from_string_def)
  show "measurement_provenance_to_string e = s" if "measurement_provenance_from_string s = Some e" for s e
    using that by (auto simp: measurement_provenance_from_string_def split: if_splits)
qed

section \<open>MeasurementFreshness\<close>

datatype MeasurementFreshness =
    CURRENT | STALE | REVALIDATION_REQUIRED | UNKNOWN

fun measurement_freshness_to_string :: "MeasurementFreshness \<Rightarrow> string" where
  "measurement_freshness_to_string MeasurementFreshness.CURRENT = ''CURRENT''"
| "measurement_freshness_to_string MeasurementFreshness.STALE = ''STALE''"
| "measurement_freshness_to_string MeasurementFreshness.REVALIDATION_REQUIRED = ''REVALIDATION_REQUIRED''"
| "measurement_freshness_to_string MeasurementFreshness.UNKNOWN = ''UNKNOWN''"

definition measurement_freshness_from_string :: "string \<Rightarrow> MeasurementFreshness option" where
  "measurement_freshness_from_string s =
     (if s = ''CURRENT'' then Some MeasurementFreshness.CURRENT
      else if s = ''STALE'' then Some MeasurementFreshness.STALE
      else if s = ''REVALIDATION_REQUIRED'' then Some MeasurementFreshness.REVALIDATION_REQUIRED
      else if s = ''UNKNOWN'' then Some MeasurementFreshness.UNKNOWN
      else None)"

interpretation measurement_freshness_str: string_enum measurement_freshness_to_string measurement_freshness_from_string
proof
  show "measurement_freshness_from_string (measurement_freshness_to_string e) = Some e" for e
    by (cases e) (simp_all add: measurement_freshness_from_string_def)
  show "measurement_freshness_to_string e = s" if "measurement_freshness_from_string s = Some e" for s e
    using that by (auto simp: measurement_freshness_from_string_def split: if_splits)
qed

section \<open>HealthState\<close>

datatype HealthState =
    HEALTHY | DEGRADED | UNHEALTHY | UNKNOWN

fun health_state_to_string :: "HealthState \<Rightarrow> string" where
  "health_state_to_string HealthState.HEALTHY = ''HEALTHY''"
| "health_state_to_string HealthState.DEGRADED = ''DEGRADED''"
| "health_state_to_string HealthState.UNHEALTHY = ''UNHEALTHY''"
| "health_state_to_string HealthState.UNKNOWN = ''UNKNOWN''"

definition health_state_from_string :: "string \<Rightarrow> HealthState option" where
  "health_state_from_string s =
     (if s = ''HEALTHY'' then Some HealthState.HEALTHY
      else if s = ''DEGRADED'' then Some HealthState.DEGRADED
      else if s = ''UNHEALTHY'' then Some HealthState.UNHEALTHY
      else if s = ''UNKNOWN'' then Some HealthState.UNKNOWN
      else None)"

interpretation health_state_str: string_enum health_state_to_string health_state_from_string
proof
  show "health_state_from_string (health_state_to_string e) = Some e" for e
    by (cases e) (simp_all add: health_state_from_string_def)
  show "health_state_to_string e = s" if "health_state_from_string s = Some e" for s e
    using that by (auto simp: health_state_from_string_def split: if_splits)
qed

section \<open>FailureClass\<close>

datatype FailureClass =
    PARTICIPANT_FAILURE | WORKER_DEATH | TRANSPORT_FAILURE | BACKEND_FAILURE
  | DEVICE_FAILURE | CONTRIBUTION_MISSING | DUPLICATE_CONTRIBUTION
  | CONFLICTING_CONTRIBUTION | STALE_RANK | STALE_BOOT | STALE_EPOCH
  | STALE_GROUP_GENERATION | STALE_COLLECTIVE_GENERATION | STALE_DISPATCH | ABORT
  | RECONFIGURATION_REQUIRED | AMBIGUOUS_LOCAL_EXECUTION | VALIDATION | UNKNOWN

fun failure_class_to_string :: "FailureClass \<Rightarrow> string" where
  "failure_class_to_string FailureClass.PARTICIPANT_FAILURE = ''PARTICIPANT_FAILURE''"
| "failure_class_to_string FailureClass.WORKER_DEATH = ''WORKER_DEATH''"
| "failure_class_to_string FailureClass.TRANSPORT_FAILURE = ''TRANSPORT_FAILURE''"
| "failure_class_to_string FailureClass.BACKEND_FAILURE = ''BACKEND_FAILURE''"
| "failure_class_to_string FailureClass.DEVICE_FAILURE = ''DEVICE_FAILURE''"
| "failure_class_to_string FailureClass.CONTRIBUTION_MISSING = ''CONTRIBUTION_MISSING''"
| "failure_class_to_string FailureClass.DUPLICATE_CONTRIBUTION = ''DUPLICATE_CONTRIBUTION''"
| "failure_class_to_string FailureClass.CONFLICTING_CONTRIBUTION = ''CONFLICTING_CONTRIBUTION''"
| "failure_class_to_string FailureClass.STALE_RANK = ''STALE_RANK''"
| "failure_class_to_string FailureClass.STALE_BOOT = ''STALE_BOOT''"
| "failure_class_to_string FailureClass.STALE_EPOCH = ''STALE_EPOCH''"
| "failure_class_to_string FailureClass.STALE_GROUP_GENERATION = ''STALE_GROUP_GENERATION''"
| "failure_class_to_string FailureClass.STALE_COLLECTIVE_GENERATION = ''STALE_COLLECTIVE_GENERATION''"
| "failure_class_to_string FailureClass.STALE_DISPATCH = ''STALE_DISPATCH''"
| "failure_class_to_string FailureClass.ABORT = ''ABORT''"
| "failure_class_to_string FailureClass.RECONFIGURATION_REQUIRED = ''RECONFIGURATION_REQUIRED''"
| "failure_class_to_string FailureClass.AMBIGUOUS_LOCAL_EXECUTION = ''AMBIGUOUS_LOCAL_EXECUTION''"
| "failure_class_to_string FailureClass.VALIDATION = ''VALIDATION''"
| "failure_class_to_string FailureClass.UNKNOWN = ''UNKNOWN''"

definition failure_class_from_string :: "string \<Rightarrow> FailureClass option" where
  "failure_class_from_string s =
     (if s = ''PARTICIPANT_FAILURE'' then Some FailureClass.PARTICIPANT_FAILURE
      else if s = ''WORKER_DEATH'' then Some FailureClass.WORKER_DEATH
      else if s = ''TRANSPORT_FAILURE'' then Some FailureClass.TRANSPORT_FAILURE
      else if s = ''BACKEND_FAILURE'' then Some FailureClass.BACKEND_FAILURE
      else if s = ''DEVICE_FAILURE'' then Some FailureClass.DEVICE_FAILURE
      else if s = ''CONTRIBUTION_MISSING'' then Some FailureClass.CONTRIBUTION_MISSING
      else if s = ''DUPLICATE_CONTRIBUTION'' then Some FailureClass.DUPLICATE_CONTRIBUTION
      else if s = ''CONFLICTING_CONTRIBUTION'' then Some FailureClass.CONFLICTING_CONTRIBUTION
      else if s = ''STALE_RANK'' then Some FailureClass.STALE_RANK
      else if s = ''STALE_BOOT'' then Some FailureClass.STALE_BOOT
      else if s = ''STALE_EPOCH'' then Some FailureClass.STALE_EPOCH
      else if s = ''STALE_GROUP_GENERATION'' then Some FailureClass.STALE_GROUP_GENERATION
      else if s = ''STALE_COLLECTIVE_GENERATION'' then Some FailureClass.STALE_COLLECTIVE_GENERATION
      else if s = ''STALE_DISPATCH'' then Some FailureClass.STALE_DISPATCH
      else if s = ''ABORT'' then Some FailureClass.ABORT
      else if s = ''RECONFIGURATION_REQUIRED'' then Some FailureClass.RECONFIGURATION_REQUIRED
      else if s = ''AMBIGUOUS_LOCAL_EXECUTION'' then Some FailureClass.AMBIGUOUS_LOCAL_EXECUTION
      else if s = ''VALIDATION'' then Some FailureClass.VALIDATION
      else if s = ''UNKNOWN'' then Some FailureClass.UNKNOWN
      else None)"

interpretation failure_class_str: string_enum failure_class_to_string failure_class_from_string
proof
  show "failure_class_from_string (failure_class_to_string e) = Some e" for e
    by (cases e) (simp_all add: failure_class_from_string_def)
  show "failure_class_to_string e = s" if "failure_class_from_string s = Some e" for s e
    using that by (auto simp: failure_class_from_string_def split: if_splits)
qed

section \<open>TransportClass\<close>

datatype TransportClass =
    SHARED_MEMORY | HOST_MEMORY | TCP | RDMA | NVLINK_CLASS | GPU_DIRECT | PCIE
  | HOST_STAGED_TCP | UNKNOWN

fun transport_class_to_string :: "TransportClass \<Rightarrow> string" where
  "transport_class_to_string TransportClass.SHARED_MEMORY = ''SHARED_MEMORY''"
| "transport_class_to_string TransportClass.HOST_MEMORY = ''HOST_MEMORY''"
| "transport_class_to_string TransportClass.TCP = ''TCP''"
| "transport_class_to_string TransportClass.RDMA = ''RDMA''"
| "transport_class_to_string TransportClass.NVLINK_CLASS = ''NVLINK_CLASS''"
| "transport_class_to_string TransportClass.GPU_DIRECT = ''GPU_DIRECT''"
| "transport_class_to_string TransportClass.PCIE = ''PCIE''"
| "transport_class_to_string TransportClass.HOST_STAGED_TCP = ''HOST_STAGED_TCP''"
| "transport_class_to_string TransportClass.UNKNOWN = ''UNKNOWN''"

definition transport_class_from_string :: "string \<Rightarrow> TransportClass option" where
  "transport_class_from_string s =
     (if s = ''SHARED_MEMORY'' then Some TransportClass.SHARED_MEMORY
      else if s = ''HOST_MEMORY'' then Some TransportClass.HOST_MEMORY
      else if s = ''TCP'' then Some TransportClass.TCP
      else if s = ''RDMA'' then Some TransportClass.RDMA
      else if s = ''NVLINK_CLASS'' then Some TransportClass.NVLINK_CLASS
      else if s = ''GPU_DIRECT'' then Some TransportClass.GPU_DIRECT
      else if s = ''PCIE'' then Some TransportClass.PCIE
      else if s = ''HOST_STAGED_TCP'' then Some TransportClass.HOST_STAGED_TCP
      else if s = ''UNKNOWN'' then Some TransportClass.UNKNOWN
      else None)"

interpretation transport_class_str: string_enum transport_class_to_string transport_class_from_string
proof
  show "transport_class_from_string (transport_class_to_string e) = Some e" for e
    by (cases e) (simp_all add: transport_class_from_string_def)
  show "transport_class_to_string e = s" if "transport_class_from_string s = Some e" for s e
    using that by (auto simp: transport_class_from_string_def split: if_splits)
qed

section \<open>AuthorityVerdict\<close>

datatype AuthorityVerdict =
    CURRENT | STALE | FRESH | DUPLICATE | CONFLICT | UNKNOWN | INVALID

fun authority_verdict_to_string :: "AuthorityVerdict \<Rightarrow> string" where
  "authority_verdict_to_string AuthorityVerdict.CURRENT = ''CURRENT''"
| "authority_verdict_to_string AuthorityVerdict.STALE = ''STALE''"
| "authority_verdict_to_string AuthorityVerdict.FRESH = ''FRESH''"
| "authority_verdict_to_string AuthorityVerdict.DUPLICATE = ''DUPLICATE''"
| "authority_verdict_to_string AuthorityVerdict.CONFLICT = ''CONFLICT''"
| "authority_verdict_to_string AuthorityVerdict.UNKNOWN = ''UNKNOWN''"
| "authority_verdict_to_string AuthorityVerdict.INVALID = ''INVALID''"

definition authority_verdict_from_string :: "string \<Rightarrow> AuthorityVerdict option" where
  "authority_verdict_from_string s =
     (if s = ''CURRENT'' then Some AuthorityVerdict.CURRENT
      else if s = ''STALE'' then Some AuthorityVerdict.STALE
      else if s = ''FRESH'' then Some AuthorityVerdict.FRESH
      else if s = ''DUPLICATE'' then Some AuthorityVerdict.DUPLICATE
      else if s = ''CONFLICT'' then Some AuthorityVerdict.CONFLICT
      else if s = ''UNKNOWN'' then Some AuthorityVerdict.UNKNOWN
      else if s = ''INVALID'' then Some AuthorityVerdict.INVALID
      else None)"

interpretation authority_verdict_str: string_enum authority_verdict_to_string authority_verdict_from_string
proof
  show "authority_verdict_from_string (authority_verdict_to_string e) = Some e" for e
    by (cases e) (simp_all add: authority_verdict_from_string_def)
  show "authority_verdict_to_string e = s" if "authority_verdict_from_string s = Some e" for s e
    using that by (auto simp: authority_verdict_from_string_def split: if_splits)
qed

section \<open>SchedulingIntent\<close>

datatype SchedulingIntent =
    DEFAULT | LOW_LATENCY | HIGH_THROUGHPUT | BACKGROUND

fun scheduling_intent_to_string :: "SchedulingIntent \<Rightarrow> string" where
  "scheduling_intent_to_string SchedulingIntent.DEFAULT = ''DEFAULT''"
| "scheduling_intent_to_string SchedulingIntent.LOW_LATENCY = ''LOW_LATENCY''"
| "scheduling_intent_to_string SchedulingIntent.HIGH_THROUGHPUT = ''HIGH_THROUGHPUT''"
| "scheduling_intent_to_string SchedulingIntent.BACKGROUND = ''BACKGROUND''"

definition scheduling_intent_from_string :: "string \<Rightarrow> SchedulingIntent option" where
  "scheduling_intent_from_string s =
     (if s = ''DEFAULT'' then Some SchedulingIntent.DEFAULT
      else if s = ''LOW_LATENCY'' then Some SchedulingIntent.LOW_LATENCY
      else if s = ''HIGH_THROUGHPUT'' then Some SchedulingIntent.HIGH_THROUGHPUT
      else if s = ''BACKGROUND'' then Some SchedulingIntent.BACKGROUND
      else None)"

interpretation scheduling_intent_str: string_enum scheduling_intent_to_string scheduling_intent_from_string
proof
  show "scheduling_intent_from_string (scheduling_intent_to_string e) = Some e" for e
    by (cases e) (simp_all add: scheduling_intent_from_string_def)
  show "scheduling_intent_to_string e = s" if "scheduling_intent_from_string s = Some e" for s e
    using that by (auto simp: scheduling_intent_from_string_def split: if_splits)
qed

section \<open>BufferPlacement\<close>

datatype BufferPlacement =
    HOST | DEVICE | UNKNOWN

fun buffer_placement_to_string :: "BufferPlacement \<Rightarrow> string" where
  "buffer_placement_to_string BufferPlacement.HOST = ''HOST''"
| "buffer_placement_to_string BufferPlacement.DEVICE = ''DEVICE''"
| "buffer_placement_to_string BufferPlacement.UNKNOWN = ''UNKNOWN''"

definition buffer_placement_from_string :: "string \<Rightarrow> BufferPlacement option" where
  "buffer_placement_from_string s =
     (if s = ''HOST'' then Some BufferPlacement.HOST
      else if s = ''DEVICE'' then Some BufferPlacement.DEVICE
      else if s = ''UNKNOWN'' then Some BufferPlacement.UNKNOWN
      else None)"

interpretation buffer_placement_str: string_enum buffer_placement_to_string buffer_placement_from_string
proof
  show "buffer_placement_from_string (buffer_placement_to_string e) = Some e" for e
    by (cases e) (simp_all add: buffer_placement_from_string_def)
  show "buffer_placement_to_string e = s" if "buffer_placement_from_string s = Some e" for s e
    using that by (auto simp: buffer_placement_from_string_def split: if_splits)
qed

section \<open>ProvenanceKind\<close>

datatype ProvenanceKind =
    MEASURED | REPORTED | DERIVED | SYNTHETIC | UNKNOWN

fun provenance_kind_to_string :: "ProvenanceKind \<Rightarrow> string" where
  "provenance_kind_to_string ProvenanceKind.MEASURED = ''MEASURED''"
| "provenance_kind_to_string ProvenanceKind.REPORTED = ''REPORTED''"
| "provenance_kind_to_string ProvenanceKind.DERIVED = ''DERIVED''"
| "provenance_kind_to_string ProvenanceKind.SYNTHETIC = ''SYNTHETIC''"
| "provenance_kind_to_string ProvenanceKind.UNKNOWN = ''UNKNOWN''"

definition provenance_kind_from_string :: "string \<Rightarrow> ProvenanceKind option" where
  "provenance_kind_from_string s =
     (if s = ''MEASURED'' then Some ProvenanceKind.MEASURED
      else if s = ''REPORTED'' then Some ProvenanceKind.REPORTED
      else if s = ''DERIVED'' then Some ProvenanceKind.DERIVED
      else if s = ''SYNTHETIC'' then Some ProvenanceKind.SYNTHETIC
      else if s = ''UNKNOWN'' then Some ProvenanceKind.UNKNOWN
      else None)"

interpretation provenance_kind_str: string_enum provenance_kind_to_string provenance_kind_from_string
proof
  show "provenance_kind_from_string (provenance_kind_to_string e) = Some e" for e
    by (cases e) (simp_all add: provenance_kind_from_string_def)
  show "provenance_kind_to_string e = s" if "provenance_kind_from_string s = Some e" for s e
    using that by (auto simp: provenance_kind_from_string_def split: if_splits)
qed

section \<open>Underlying values\<close>

text \<open>
  \<open>X_to_u8\<close> is \<open>static_cast<std::uint8_t>(x)\<close>: the enumerator's position. \<open>X_of_u8\<close> is the cast
  back, defined on the values that name an enumerator only; the code guards each such cast.
\<close>

fun collective_kind_to_u8 :: "CollectiveKind \<Rightarrow> u8" where
  "collective_kind_to_u8 CollectiveKind.BARRIER = 0"
| "collective_kind_to_u8 CollectiveKind.BROADCAST = 1"
| "collective_kind_to_u8 CollectiveKind.REDUCE = 2"
| "collective_kind_to_u8 CollectiveKind.ALL_REDUCE = 3"
| "collective_kind_to_u8 CollectiveKind.ALL_GATHER = 4"
| "collective_kind_to_u8 CollectiveKind.REDUCE_SCATTER = 5"

fun reduction_op_to_u8 :: "ReductionOp \<Rightarrow> u8" where
  "reduction_op_to_u8 ReductionOp.SUM = 0"
| "reduction_op_to_u8 ReductionOp.PRODUCT = 1"
| "reduction_op_to_u8 ReductionOp.MIN = 2"
| "reduction_op_to_u8 ReductionOp.MAX = 3"
| "reduction_op_to_u8 ReductionOp.NONE = 4"

fun datatype_to_u8 :: "Datatype \<Rightarrow> u8" where
  "datatype_to_u8 Datatype.INT32 = 0"
| "datatype_to_u8 Datatype.UINT32 = 1"
| "datatype_to_u8 Datatype.INT64 = 2"
| "datatype_to_u8 Datatype.FLOAT32 = 3"
| "datatype_to_u8 Datatype.FLOAT64 = 4"
| "datatype_to_u8 Datatype.BYTE = 5"

fun group_lifecycle_to_u8 :: "GroupLifecycle \<Rightarrow> u8" where
  "group_lifecycle_to_u8 GroupLifecycle.CREATING = 0"
| "group_lifecycle_to_u8 GroupLifecycle.READY = 1"
| "group_lifecycle_to_u8 GroupLifecycle.DEGRADED = 2"
| "group_lifecycle_to_u8 GroupLifecycle.RECONFIGURING = 3"
| "group_lifecycle_to_u8 GroupLifecycle.FAILED = 4"
| "group_lifecycle_to_u8 GroupLifecycle.RETIRED = 5"

definition group_lifecycle_of_u8 :: "u8 \<Rightarrow> GroupLifecycle option" where
  "group_lifecycle_of_u8 b =
     (if b = 0 then Some GroupLifecycle.CREATING
      else if b = 1 then Some GroupLifecycle.READY
      else if b = 2 then Some GroupLifecycle.DEGRADED
      else if b = 3 then Some GroupLifecycle.RECONFIGURING
      else if b = 4 then Some GroupLifecycle.FAILED
      else if b = 5 then Some GroupLifecycle.RETIRED
      else None)"

interpretation group_lifecycle_byte: byte_enum group_lifecycle_to_u8 group_lifecycle_of_u8 5
proof
  show "group_lifecycle_of_u8 (group_lifecycle_to_u8 e) = Some e" for e
    by (cases e) (simp_all add: group_lifecycle_of_u8_def)
  show "group_lifecycle_to_u8 e = b" if "group_lifecycle_of_u8 b = Some e" for b e
    using that by (auto simp: group_lifecycle_of_u8_def split: if_splits)
  show "group_lifecycle_of_u8 b = None \<longleftrightarrow> 5 < b" for b
    by (simp add: group_lifecycle_of_u8_def) unat_arith
qed

fun algorithm_to_u8 :: "Algorithm \<Rightarrow> u8" where
  "algorithm_to_u8 Algorithm.DIRECT = 0"
| "algorithm_to_u8 Algorithm.RING = 1"
| "algorithm_to_u8 Algorithm.TREE = 2"
| "algorithm_to_u8 Algorithm.RECURSIVE_DOUBLING = 3"
| "algorithm_to_u8 Algorithm.REDUCE_BROADCAST = 4"
| "algorithm_to_u8 Algorithm.HIERARCHICAL = 5"
| "algorithm_to_u8 Algorithm.BACKEND_DEFAULT = 6"
| "algorithm_to_u8 Algorithm.UNKNOWN = 7"

definition algorithm_of_u8 :: "u8 \<Rightarrow> Algorithm option" where
  "algorithm_of_u8 b =
     (if b = 0 then Some Algorithm.DIRECT
      else if b = 1 then Some Algorithm.RING
      else if b = 2 then Some Algorithm.TREE
      else if b = 3 then Some Algorithm.RECURSIVE_DOUBLING
      else if b = 4 then Some Algorithm.REDUCE_BROADCAST
      else if b = 5 then Some Algorithm.HIERARCHICAL
      else if b = 6 then Some Algorithm.BACKEND_DEFAULT
      else if b = 7 then Some Algorithm.UNKNOWN
      else None)"

interpretation algorithm_byte: byte_enum algorithm_to_u8 algorithm_of_u8 7
proof
  show "algorithm_of_u8 (algorithm_to_u8 e) = Some e" for e
    by (cases e) (simp_all add: algorithm_of_u8_def)
  show "algorithm_to_u8 e = b" if "algorithm_of_u8 b = Some e" for b e
    using that by (auto simp: algorithm_of_u8_def split: if_splits)
  show "algorithm_of_u8 b = None \<longleftrightarrow> 7 < b" for b
    by (simp add: algorithm_of_u8_def) unat_arith
qed

fun measurement_provenance_to_u8 :: "MeasurementProvenance \<Rightarrow> u8" where
  "measurement_provenance_to_u8 MeasurementProvenance.THEORETICAL = 0"
| "measurement_provenance_to_u8 MeasurementProvenance.BACKEND_REPORTED = 1"
| "measurement_provenance_to_u8 MeasurementProvenance.MEASURED = 2"
| "measurement_provenance_to_u8 MeasurementProvenance.SYNTHETIC = 3"
| "measurement_provenance_to_u8 MeasurementProvenance.UNKNOWN = 4"

definition measurement_provenance_of_u8 :: "u8 \<Rightarrow> MeasurementProvenance option" where
  "measurement_provenance_of_u8 b =
     (if b = 0 then Some MeasurementProvenance.THEORETICAL
      else if b = 1 then Some MeasurementProvenance.BACKEND_REPORTED
      else if b = 2 then Some MeasurementProvenance.MEASURED
      else if b = 3 then Some MeasurementProvenance.SYNTHETIC
      else if b = 4 then Some MeasurementProvenance.UNKNOWN
      else None)"

interpretation measurement_provenance_byte: byte_enum measurement_provenance_to_u8 measurement_provenance_of_u8 4
proof
  show "measurement_provenance_of_u8 (measurement_provenance_to_u8 e) = Some e" for e
    by (cases e) (simp_all add: measurement_provenance_of_u8_def)
  show "measurement_provenance_to_u8 e = b" if "measurement_provenance_of_u8 b = Some e" for b e
    using that by (auto simp: measurement_provenance_of_u8_def split: if_splits)
  show "measurement_provenance_of_u8 b = None \<longleftrightarrow> 4 < b" for b
    by (simp add: measurement_provenance_of_u8_def) unat_arith
qed

fun measurement_freshness_to_u8 :: "MeasurementFreshness \<Rightarrow> u8" where
  "measurement_freshness_to_u8 MeasurementFreshness.CURRENT = 0"
| "measurement_freshness_to_u8 MeasurementFreshness.STALE = 1"
| "measurement_freshness_to_u8 MeasurementFreshness.REVALIDATION_REQUIRED = 2"
| "measurement_freshness_to_u8 MeasurementFreshness.UNKNOWN = 3"

definition measurement_freshness_of_u8 :: "u8 \<Rightarrow> MeasurementFreshness option" where
  "measurement_freshness_of_u8 b =
     (if b = 0 then Some MeasurementFreshness.CURRENT
      else if b = 1 then Some MeasurementFreshness.STALE
      else if b = 2 then Some MeasurementFreshness.REVALIDATION_REQUIRED
      else if b = 3 then Some MeasurementFreshness.UNKNOWN
      else None)"

interpretation measurement_freshness_byte: byte_enum measurement_freshness_to_u8 measurement_freshness_of_u8 3
proof
  show "measurement_freshness_of_u8 (measurement_freshness_to_u8 e) = Some e" for e
    by (cases e) (simp_all add: measurement_freshness_of_u8_def)
  show "measurement_freshness_to_u8 e = b" if "measurement_freshness_of_u8 b = Some e" for b e
    using that by (auto simp: measurement_freshness_of_u8_def split: if_splits)
  show "measurement_freshness_of_u8 b = None \<longleftrightarrow> 3 < b" for b
    by (simp add: measurement_freshness_of_u8_def) unat_arith
qed

fun health_state_to_u8 :: "HealthState \<Rightarrow> u8" where
  "health_state_to_u8 HealthState.HEALTHY = 0"
| "health_state_to_u8 HealthState.DEGRADED = 1"
| "health_state_to_u8 HealthState.UNHEALTHY = 2"
| "health_state_to_u8 HealthState.UNKNOWN = 3"

definition health_state_of_u8 :: "u8 \<Rightarrow> HealthState option" where
  "health_state_of_u8 b =
     (if b = 0 then Some HealthState.HEALTHY
      else if b = 1 then Some HealthState.DEGRADED
      else if b = 2 then Some HealthState.UNHEALTHY
      else if b = 3 then Some HealthState.UNKNOWN
      else None)"

interpretation health_state_byte: byte_enum health_state_to_u8 health_state_of_u8 3
proof
  show "health_state_of_u8 (health_state_to_u8 e) = Some e" for e
    by (cases e) (simp_all add: health_state_of_u8_def)
  show "health_state_to_u8 e = b" if "health_state_of_u8 b = Some e" for b e
    using that by (auto simp: health_state_of_u8_def split: if_splits)
  show "health_state_of_u8 b = None \<longleftrightarrow> 3 < b" for b
    by (simp add: health_state_of_u8_def) unat_arith
qed

fun transport_class_to_u8 :: "TransportClass \<Rightarrow> u8" where
  "transport_class_to_u8 TransportClass.SHARED_MEMORY = 0"
| "transport_class_to_u8 TransportClass.HOST_MEMORY = 1"
| "transport_class_to_u8 TransportClass.TCP = 2"
| "transport_class_to_u8 TransportClass.RDMA = 3"
| "transport_class_to_u8 TransportClass.NVLINK_CLASS = 4"
| "transport_class_to_u8 TransportClass.GPU_DIRECT = 5"
| "transport_class_to_u8 TransportClass.PCIE = 6"
| "transport_class_to_u8 TransportClass.HOST_STAGED_TCP = 7"
| "transport_class_to_u8 TransportClass.UNKNOWN = 8"

fun scheduling_intent_to_u8 :: "SchedulingIntent \<Rightarrow> u8" where
  "scheduling_intent_to_u8 SchedulingIntent.DEFAULT = 0"
| "scheduling_intent_to_u8 SchedulingIntent.LOW_LATENCY = 1"
| "scheduling_intent_to_u8 SchedulingIntent.HIGH_THROUGHPUT = 2"
| "scheduling_intent_to_u8 SchedulingIntent.BACKGROUND = 3"

fun buffer_placement_to_u8 :: "BufferPlacement \<Rightarrow> u8" where
  "buffer_placement_to_u8 BufferPlacement.HOST = 0"
| "buffer_placement_to_u8 BufferPlacement.DEVICE = 1"
| "buffer_placement_to_u8 BufferPlacement.UNKNOWN = 2"

section \<open>Sizes and applicability\<close>

fun datatype_size_bytes :: "Datatype \<Rightarrow> u64" where
  "datatype_size_bytes INT32 = 4"
| "datatype_size_bytes UINT32 = 4"
| "datatype_size_bytes INT64 = 8"
| "datatype_size_bytes FLOAT32 = 4"
| "datatype_size_bytes FLOAT64 = 8"
| "datatype_size_bytes BYTE = 1"

definition reduction_is_applicable :: "CollectiveKind \<Rightarrow> ReductionOp \<Rightarrow> bool" where
  "reduction_is_applicable kind rop =
     (if rop = NONE then kind = BARRIER \<or> kind = BROADCAST
      else kind = REDUCE \<or> kind = ALL_REDUCE \<or> kind = REDUCE_SCATTER)"

definition datatype_is_supported :: "CollectiveKind \<Rightarrow> Datatype \<Rightarrow> bool" where
  "datatype_is_supported kind d = True"

lemma datatype_size_nonzero [simp]: "datatype_size_bytes d \<noteq> 0"
  by (cases d) auto

lemma unat_datatype_size: "unat (datatype_size_bytes d) \<in> {1, 4, 8}"
  by (cases d) auto

section \<open>Sources\<close>

text \<open>
  \<open>Source\<close> of \<open>foundation/source.hpp\<close>. \<open>make_source\<close> takes its id from a process-wide counter and its
  time from the clock; both are arguments here, and the counter is returned incremented.
\<close>

record Source =
  src_id :: SourceId
  src_generation :: SourceGeneration
  src_provenance :: ProvenanceKind
  created_utc_ns :: u64
  src_description :: string

definition null_source :: Source where
  "null_source =
     \<lparr>src_id = null_id, src_generation = null_gen, src_provenance = ProvenanceKind.UNKNOWN,
      created_utc_ns = 0, src_description = []\<rparr>"

definition make_source :: "u64 \<Rightarrow> u64 \<Rightarrow> string \<Rightarrow> ProvenanceKind \<Rightarrow> Source \<times> u64" where
  "make_source counter now description prov =
     (\<lparr>src_id = StrongId (counter + 1), src_generation = Generation 1, src_provenance = prov,
       created_utc_ns = now, src_description = description\<rparr>, counter + 1)"

end
