(* ===== verification/CF_Store.thy ===== *)
theory CF_Store
  imports CF_Canonical CF_Crc32 CF_Sha256 CF_Enums
begin

text \<open>
  \<open>store.hpp\<close> and \<open>store.cpp\<close>: the versioned binary persistence. \<open>encode\<close> and \<open>decode\<close> are the
  canonical payload with its bounds, duplicate and enum checks; \<open>save\<close> and \<open>load\<close> are the framed file
  over a file system given as a map from paths to contents. The writer and the reader of each record
  are tied by an interpretation of \<open>codec\<close>.
\<close>

unbundle bit_operations_syntax

section \<open>Persisted data\<close>

record PersistedParticipant =
  pp_participant_id :: ParticipantId
  pp_worker :: WorkerId
  pp_boot :: WorkerBootId
  pp_node :: NodeId
  pp_device :: DeviceId
  pp_rank :: RankId
  pp_backend_generation :: BackendGeneration
  pp_is_known :: bool

record PersistedGroup =
  pg_group_id :: CollectiveGroupId
  pg_generation :: GroupGeneration
  pg_membership :: MembershipGeneration
  pg_topology :: TopologyGeneration
  pg_health :: HealthGeneration
  pg_backend :: BackendGeneration
  pg_lifecycle :: GroupLifecycle
  pg_provenance :: string
  pg_participants :: "PersistedParticipant list"

record PersistedMeasurement =
  pm_id :: MeasurementId
  pm_collective :: CollectiveId
  pm_collective_generation :: CollectiveGeneration
  pm_group_generation :: GroupGeneration
  pm_algorithm :: Algorithm
  pm_backend :: BackendId
  pm_rank_count :: u64
  pm_payload_bytes :: u64
  pm_wall_time_us :: u64
  pm_provenance :: MeasurementProvenance
  pm_freshness :: MeasurementFreshness
  pm_timestamp_ns :: u64
  pm_measurement_generation :: MeasurementGeneration
  pm_success :: bool

record PersistedHealth =
  ph_state :: HealthState
  ph_generation :: HealthGeneration
  ph_observed_ns :: u64
  ph_narrative :: string

record PersistedBackend =
  pb_id :: BackendId
  pb_generation :: BackendGeneration
  pb_name :: string

record PersistentState =
  ps_format_version :: u64
  ps_epoch :: CoordinatorEpoch
  ps_live_boot :: WorkerBootId
  ps_groups :: "PersistedGroup list"
  ps_measurements :: "PersistedMeasurement list"
  ps_health :: "PersistedHealth option"
  ps_backends :: "PersistedBackend list"
  ps_policy_count :: u64
  ps_saved_ns :: u64

definition kFormatVersion :: u64 where "kFormatVersion = 1"
definition kMagic :: u32 where "kMagic = 0x43464142"
definition kMaxCount :: u64 where "kMaxCount = 10000000"

section \<open>Encoding\<close>

definition write_participant :: "PersistedParticipant \<Rightarrow> bytes" where
  "write_participant p =
     w_u64 (raw (pp_participant_id p)) @ w_u64 (raw (pp_worker p)) @ w_u64 (raw (pp_boot p)) @
     w_u64 (raw (pp_node p)) @ w_u64 (raw (pp_device p)) @ w_u64 (raw (pp_rank p)) @
     w_u64 (gen_value (pp_backend_generation p)) @ w_boolean (pp_is_known p)"

definition write_group :: "PersistedGroup \<Rightarrow> bytes" where
  "write_group g =
     w_u64 (raw (pg_group_id g)) @ w_u64 (gen_value (pg_generation g)) @
     w_u64 (gen_value (pg_membership g)) @ w_u64 (gen_value (pg_topology g)) @
     w_u64 (gen_value (pg_health g)) @ w_u64 (gen_value (pg_backend g)) @
     w_u8 (group_lifecycle_to_u8 (pg_lifecycle g)) @ w_string (pg_provenance g) @
     w_u64 (of_nat (length (pg_participants g))) @
     concat (map write_participant (pg_participants g))"

definition write_measurement :: "PersistedMeasurement \<Rightarrow> bytes" where
  "write_measurement m =
     w_u64 (raw (pm_id m)) @ w_u64 (raw (pm_collective m)) @
     w_u64 (gen_value (pm_collective_generation m)) @ w_u64 (gen_value (pm_group_generation m)) @
     w_u8 (algorithm_to_u8 (pm_algorithm m)) @ w_u64 (raw (pm_backend m)) @
     w_u64 (pm_rank_count m) @ w_u64 (pm_payload_bytes m) @ w_u64 (pm_wall_time_us m) @
     w_u8 (measurement_provenance_to_u8 (pm_provenance m)) @
     w_u8 (measurement_freshness_to_u8 (pm_freshness m)) @ w_u64 (pm_timestamp_ns m) @
     w_u64 (gen_value (pm_measurement_generation m)) @ w_boolean (pm_success m)"

definition write_health :: "PersistedHealth \<Rightarrow> bytes" where
  "write_health h =
     w_u8 (health_state_to_u8 (ph_state h)) @ w_u64 (gen_value (ph_generation h)) @
     w_u64 (ph_observed_ns h) @ w_string (ph_narrative h)"

definition write_backend :: "PersistedBackend \<Rightarrow> bytes" where
  "write_backend b = w_u64 (raw (pb_id b)) @ w_u64 (gen_value (pb_generation b)) @ w_string (pb_name b)"

definition store_encode :: "PersistentState \<Rightarrow> bytes" where
  "store_encode s =
     w_u64 (ps_format_version s) @ w_u64 (gen_value (ps_epoch s)) @ w_u64 (raw (ps_live_boot s)) @
     w_u64 (of_nat (length (ps_groups s))) @ concat (map write_group (ps_groups s)) @
     w_u64 (of_nat (length (ps_measurements s))) @
     concat (map write_measurement (ps_measurements s)) @
     w_boolean (ps_health s \<noteq> None) @
     (case ps_health s of None \<Rightarrow> [] | Some h \<Rightarrow> write_health h) @
     w_u64 (of_nat (length (ps_backends s))) @ concat (map write_backend (ps_backends s)) @
     w_u64 (ps_policy_count s) @ w_u64 (ps_saved_ns s)"

section \<open>Decoding\<close>

abbreviation bad :: "string \<Rightarrow> fault" where "bad msg \<equiv> Error DECODE (''store: '' @ msg)"

definition read_participant :: "reader \<Rightarrow> fault + PersistedParticipant \<times> reader" where
  "read_participant r0 =
     sbind (rd r_u64 (bad ''truncated participant id'') r0) (\<lambda>(pid, r1).
     sbind (rd r_u64 (bad ''truncated worker'') r1) (\<lambda>(worker, r2).
     sbind (rd r_u64 (bad ''truncated boot'') r2) (\<lambda>(boot, r3).
     sbind (rd r_u64 (bad ''truncated node'') r3) (\<lambda>(node, r4).
     sbind (rd r_u64 (bad ''truncated device'') r4) (\<lambda>(device, r5).
     sbind (rd r_u64 (bad ''truncated rank'') r5) (\<lambda>(rank, r6).
     sbind (rd r_u64 (bad ''truncated backend gen'') r6) (\<lambda>(bgen, r7).
     sbind (rd r_boolean (bad ''truncated known'') r7) (\<lambda>(known, r8).
       Inr (\<lparr>pp_participant_id = StrongId pid, pp_worker = StrongId worker,
             pp_boot = StrongId boot, pp_node = StrongId node, pp_device = StrongId device,
             pp_rank = StrongId rank, pp_backend_generation = Generation bgen,
             pp_is_known = known\<rparr>, r8)))))))))"

text \<open>The test of a set of keys seen so far: \<open>seen.count(key)\<close>, or \<open>!seen.insert(key).second\<close>.\<close>

definition check_fresh :: "('a \<Rightarrow> 'k) \<Rightarrow> string \<Rightarrow> 'a list \<Rightarrow> 'a \<Rightarrow> fault option" where
  "check_fresh key msg seen x = (if key x \<in> key ` set seen then Some (bad msg) else None)"

definition check_participant :: "PersistedParticipant list \<Rightarrow> PersistedParticipant \<Rightarrow> fault option" where
  "check_participant seen p =
     (case check_fresh pp_participant_id ''duplicate participant id'' seen p of
        Some e \<Rightarrow> Some e
      | None \<Rightarrow> check_fresh pp_rank ''duplicate participant rank'' seen p)"

definition read_group :: "reader \<Rightarrow> fault + PersistedGroup \<times> reader" where
  "read_group r0 =
     sbind (rd r_u64 (bad ''truncated group id'') r0) (\<lambda>(gid, r1).
     sbind (rd r_u64 (bad ''truncated group generation'') r1) (\<lambda>(gen, r2).
     sbind (rd r_u64 (bad ''truncated membership'') r2) (\<lambda>(mem, r3).
     sbind (rd r_u64 (bad ''truncated topology'') r3) (\<lambda>(top, r4).
     sbind (rd r_u64 (bad ''truncated health'') r4) (\<lambda>(hea, r5).
     sbind (rd r_u64 (bad ''truncated backend'') r5) (\<lambda>(bac, r6).
     sbind (rd r_u8 (bad ''truncated lifecycle'') r6) (\<lambda>(lc, r7).
     sbind (or_throw (group_lifecycle_of_u8 lc) (bad ''invalid lifecycle enum'')) (\<lambda>life.
     sbind (rd r_string (bad ''truncated provenance'') r7) (\<lambda>(prov, r8).
     sbind (rd r_u64 (bad ''invalid participant count'') r8) (\<lambda>(pc, r9).
     sbind (throw_if (pc > kMaxCount) (bad ''invalid participant count'')) (\<lambda>_.
     sbind (read_list check_participant read_participant (unat pc) [] r9) (\<lambda>(ps, r10).
       Inr (\<lparr>pg_group_id = StrongId gid, pg_generation = Generation gen,
             pg_membership = Generation mem, pg_topology = Generation top,
             pg_health = Generation hea, pg_backend = Generation bac, pg_lifecycle = life,
             pg_provenance = prov, pg_participants = ps\<rparr>, r10)))))))))))))"

definition check_group :: "PersistedGroup list \<Rightarrow> PersistedGroup \<Rightarrow> fault option" where
  "check_group = check_fresh (\<lambda>g. (pg_group_id g, pg_generation g)) ''duplicate group id/generation''"

definition read_measurement :: "reader \<Rightarrow> fault + PersistedMeasurement \<times> reader" where
  "read_measurement r0 =
     sbind (rd r_u64 (bad ''truncated measurement id'') r0) (\<lambda>(mid, r1).
     sbind (rd r_u64 (bad ''truncated collective'') r1) (\<lambda>(col, r2).
     sbind (rd r_u64 (bad ''truncated collective gen'') r2) (\<lambda>(cgen, r3).
     sbind (rd r_u64 (bad ''truncated group gen'') r3) (\<lambda>(ggen, r4).
     sbind (rd r_u8 (bad ''truncated algorithm'') r4) (\<lambda>(al, r5).
     sbind (or_throw (algorithm_of_u8 al) (bad ''invalid algorithm enum'')) (\<lambda>algo.
     sbind (rd r_u64 (bad ''truncated backend'') r5) (\<lambda>(bac, r6).
     sbind (rd r_u64 (bad ''truncated measurement counters'') r6) (\<lambda>(ranks, r7).
     sbind (rd r_u64 (bad ''truncated measurement counters'') r7) (\<lambda>(payload, r8).
     sbind (rd r_u64 (bad ''truncated measurement counters'') r8) (\<lambda>(wall, r9).
     sbind (rd r_u8 (bad ''truncated provenance/freshness'') r9) (\<lambda>(pr, r10).
     sbind (rd r_u8 (bad ''truncated provenance/freshness'') r10) (\<lambda>(fr, r11).
     sbind (or_throw (measurement_provenance_of_u8 pr) (bad ''invalid measurement enum'')) (\<lambda>prov.
     sbind (or_throw (measurement_freshness_of_u8 fr) (bad ''invalid measurement enum'')) (\<lambda>fresh.
     sbind (rd r_u64 (bad ''truncated timestamp'') r11) (\<lambda>(ts, r12).
     sbind (rd r_u64 (bad ''truncated measurement gen'') r12) (\<lambda>(mgen, r13).
     sbind (rd r_boolean (bad ''truncated success'') r13) (\<lambda>(succ, r14).
       Inr (\<lparr>pm_id = StrongId mid, pm_collective = StrongId col,
             pm_collective_generation = Generation cgen, pm_group_generation = Generation ggen,
             pm_algorithm = algo, pm_backend = StrongId bac, pm_rank_count = ranks,
             pm_payload_bytes = payload, pm_wall_time_us = wall, pm_provenance = prov,
             pm_freshness = fresh, pm_timestamp_ns = ts,
             pm_measurement_generation = Generation mgen, pm_success = succ\<rparr>, r14))))))))))))))))))"

definition check_measurement :: "PersistedMeasurement list \<Rightarrow> PersistedMeasurement \<Rightarrow> fault option" where
  "check_measurement = check_fresh pm_id ''duplicate measurement id''"

definition read_health :: "reader \<Rightarrow> fault + PersistedHealth \<times> reader" where
  "read_health r0 =
     sbind (rd r_u8 (bad ''truncated health state'') r0) (\<lambda>(st, r1).
     sbind (or_throw (health_state_of_u8 st) (bad ''invalid health enum'')) (\<lambda>hs.
     sbind (rd r_u64 (bad ''truncated health gen'') r1) (\<lambda>(gen, r2).
     sbind (rd r_u64 (bad ''truncated health time'') r2) (\<lambda>(obs, r3).
     sbind (rd r_string (bad ''truncated health narrative'') r3) (\<lambda>(narr, r4).
       Inr (\<lparr>ph_state = hs, ph_generation = Generation gen, ph_observed_ns = obs,
             ph_narrative = narr\<rparr>, r4))))))"

definition read_health_opt :: "reader \<Rightarrow> fault + PersistedHealth option \<times> reader" where
  "read_health_opt r0 =
     sbind (rd r_boolean (bad ''truncated health flag'') r0) (\<lambda>(has, r1).
       if has then sbind (read_health r1) (\<lambda>(h, r2). Inr (Some h, r2)) else Inr (None, r1))"

definition read_backend :: "reader \<Rightarrow> fault + PersistedBackend \<times> reader" where
  "read_backend r0 =
     sbind (rd r_u64 (bad ''truncated backend id'') r0) (\<lambda>(bid, r1).
     sbind (rd r_u64 (bad ''truncated backend gen'') r1) (\<lambda>(gen, r2).
     sbind (rd r_string (bad ''truncated backend name'') r2) (\<lambda>(name, r3).
       Inr (\<lparr>pb_id = StrongId bid, pb_generation = Generation gen, pb_name = name\<rparr>, r3))))"

definition store_decode :: "bytes \<Rightarrow> fault + PersistentState" where
  "store_decode payload =
     sbind (rd r_u64 (bad ''truncated format version'') (new_reader payload)) (\<lambda>(version, r1).
     sbind (throw_if (version > kFormatVersion) (bad ''unsupported version'')) (\<lambda>_.
     sbind (rd r_u64 (bad ''truncated epoch/boot'') r1) (\<lambda>(epoch, r2).
     sbind (rd r_u64 (bad ''truncated epoch/boot'') r2) (\<lambda>(boot, r3).
     sbind (rd r_u64 (bad ''invalid group count'') r3) (\<lambda>(gcount, r4).
     sbind (throw_if (gcount > kMaxCount) (bad ''invalid group count'')) (\<lambda>_.
     sbind (read_list check_group read_group (unat gcount) [] r4) (\<lambda>(groups, r5).
     sbind (rd r_u64 (bad ''invalid measurement count'') r5) (\<lambda>(mcount, r6).
     sbind (throw_if (mcount > kMaxCount) (bad ''invalid measurement count'')) (\<lambda>_.
     sbind (read_list check_measurement read_measurement (unat mcount) [] r6) (\<lambda>(measurements, r7).
     sbind (read_health_opt r7) (\<lambda>(health, r8).
     sbind (rd r_u64 (bad ''invalid backend count'') r8) (\<lambda>(bcount, r9).
     sbind (throw_if (bcount > kMaxCount) (bad ''invalid backend count'')) (\<lambda>_.
     sbind (read_list (\<lambda>_ _. None) read_backend (unat bcount) [] r9) (\<lambda>(backends, r10).
     sbind (rd r_u64 (bad ''truncated policy count'') r10) (\<lambda>(policies, r11).
     sbind (rd r_u64 (bad ''truncated saved time'') r11) (\<lambda>(saved, r12).
     sbind (throw_if (\<not> at_end r12) (bad ''trailing garbage in payload'')) (\<lambda>_.
       Inr \<lparr>ps_format_version = version, ps_epoch = Generation epoch, ps_live_boot = StrongId boot,
            ps_groups = groups, ps_measurements = measurements, ps_health = health,
            ps_backends = backends, ps_policy_count = policies, ps_saved_ns = saved\<rparr>)))))))))))))))))"

definition semantic_digest :: "PersistentState \<Rightarrow> bytes" where
  "semantic_digest s = sha256 (store_encode s)"

section \<open>Files\<close>

text \<open>
  A file system is a map from paths to contents. What the operating system does to one \<open>save\<close> is
  its parameter \<open>io\<close>: everything succeeds, the temporary file cannot be opened, the write stops
  after \<open>n\<close> bytes, or the replacing rename (\<open>MoveFileExW\<close>) fails. A crash leaves the file system of
  one of these outcomes.
\<close>

type_synonym filesystem = "string \<Rightarrow> bytes option"

datatype save_io = Io_ok | Open_fails | Write_fails nat | Rename_fails

record SaveResult =
  sr_digest :: bytes
  sr_bytes :: nat

definition store_frame :: "PersistentState \<Rightarrow> bytes" where
  "store_frame s =
     (let payload = store_encode s
      in push_be 4 (ucast kMagic) @ push_be 4 kFormatVersion @
         push_be 8 (of_nat (length payload)) @ push_be 4 (ucast (crc_compute payload)) @ payload)"

fun store_save :: "save_io \<Rightarrow> string \<Rightarrow> PersistentState \<Rightarrow> filesystem \<Rightarrow> (fault + SaveResult) \<times> filesystem" where
  "store_save Open_fails path s fs = (Inl (Error IO ''store: cannot open temp file''), fs)"
| "store_save (Write_fails n) path s fs =
     (Inl (Error IO ''store: write failed''), fs(path @ ''.tmp'' \<mapsto> take n (store_frame s)))"
| "store_save Rename_fails path s fs =
     (Inl (Error IO ''store: atomic rename failed''), fs(path @ ''.tmp'' \<mapsto> store_frame s))"
| "store_save Io_ok path s fs =
     (Inr \<lparr>sr_digest = sha256 (store_encode s), sr_bytes = length (store_frame s)\<rparr>,
      (fs(path @ ''.tmp'' := None))(path \<mapsto> store_frame s))"

text \<open>The big-endian field of \<open>n\<close> bytes at offset \<open>off\<close> of a buffer.\<close>

definition be_field :: "nat \<Rightarrow> nat \<Rightarrow> bytes \<Rightarrow> 'a::len word" where
  "be_field n off buf = foldl (\<lambda>v b. push_bit 8 v OR ucast b) 0 (take n (drop off buf))"

definition load_frame :: "bytes \<Rightarrow> fault + PersistentState \<times> SaveResult" where
  "load_frame buf =
     sbind (throw_if (length buf < 20) (bad ''file too small'')) (\<lambda>_.
     sbind (throw_if (be_field 4 0 buf \<noteq> kMagic) (bad ''bad magic'')) (\<lambda>_.
     sbind (throw_if ((be_field 4 4 buf :: u64) > kFormatVersion) (bad ''unsupported version'')) (\<lambda>_.
     sbind (throw_if ((be_field 8 8 buf :: u64) \<noteq> of_nat (length buf - 20))
                     (bad ''payload length mismatch'')) (\<lambda>_.
     (let payload = drop 20 buf
      in sbind (throw_if (crc_compute payload \<noteq> be_field 4 16 buf) (bad ''checksum mismatch'')) (\<lambda>_.
         sbind (store_decode payload) (\<lambda>s.
           Inr (s, \<lparr>sr_digest = sha256 payload, sr_bytes = length buf\<rparr>))))))))"

definition store_load :: "string \<Rightarrow> filesystem \<Rightarrow> fault + PersistentState \<times> SaveResult" where
  "store_load path fs =
     (case fs path of
        None \<Rightarrow> Inl (Error IO ''store: cannot open state file'')
      | Some buf \<Rightarrow> load_frame buf)"

section \<open>Reader against writer\<close>

lemma field_short:
  "\<lbrakk>strict_prefix ys (w_u8 a @ t); \<And>q zs. strict_prefix zs t \<Longrightarrow> \<exists>e. f (a, reader_at q zs) = Inl e\<rbrakk>
    \<Longrightarrow> \<exists>e. sbind (rd r_u8 e0 (reader_at p ys)) f = Inl e"
  "\<lbrakk>strict_prefix ys (w_u64 b @ t); \<And>q zs. strict_prefix zs t \<Longrightarrow> \<exists>e. g (b, reader_at q zs) = Inl e\<rbrakk>
    \<Longrightarrow> \<exists>e. sbind (rd r_u64 e0 (reader_at p ys)) g = Inl e"
  "\<lbrakk>strict_prefix ys (w_boolean c @ t); \<And>q zs. strict_prefix zs t \<Longrightarrow> \<exists>e. h (c, reader_at q zs) = Inl e\<rbrakk>
    \<Longrightarrow> \<exists>e. sbind (rd r_boolean e0 (reader_at p ys)) h = Inl e"
  "\<lbrakk>strict_prefix ys (w_string s @ t); length s < 2 ^ 64;
     \<And>q zs. strict_prefix zs t \<Longrightarrow> \<exists>e. k (s, reader_at q zs) = Inl e\<rbrakk>
    \<Longrightarrow> \<exists>e. sbind (rd r_string e0 (reader_at p ys)) k = Inl e"
  by (rule u8_codec.bind_short u64_codec.bind_short boolean_codec.bind_short string_codec.bind_short; blast)+

lemma last_field_short:
  "strict_prefix ys (w_u64 b) \<Longrightarrow> \<exists>e. sbind (rd r_u64 e0 (reader_at p ys)) g = Inl e"
  "strict_prefix ys (w_boolean c) \<Longrightarrow> \<exists>e. sbind (rd r_boolean e0 (reader_at p ys)) h = Inl e"
  "strict_prefix ys (w_string s) \<Longrightarrow> length s < 2 ^ 64 \<Longrightarrow>
    \<exists>e. sbind (rd r_string e0 (reader_at p ys)) k = Inl e"
  using field_short(2) [of ys b "[]" g e0 p] field_short(3) [of ys c "[]" h e0 p]
    field_short(4) [of ys s "[]" k e0 p] by simp_all

lemmas enum_bytes = group_lifecycle_byte.of_to algorithm_byte.of_to measurement_provenance_byte.of_to
  measurement_freshness_byte.of_to health_state_byte.of_to

lemma rd_string_enc [codec_simps]:
  "length s < 2 ^ 64 \<Longrightarrow>
    rd r_string e (reader_at p (w_string s @ ys)) = Inr (s, reader_at (p @ w_string s) ys)"
  "length s < 2 ^ 64 \<Longrightarrow>
    rd r_string e (reader_at p (w_string s)) = Inr (s, reader_at (p @ w_string s) [])"
  by (simp_all add: string_codec.dec_enc string_codec.dec_enc_nil)

lemma bind_fails: "\<exists>e. m = Inl e \<Longrightarrow> \<exists>e. sbind m f = Inl e"
  by auto

interpretation participant_codec: codec write_participant read_participant "\<lambda>_. True"
proof
  fix x :: PersistedParticipant and p ys
  show "read_participant (reader_at p (write_participant x @ ys)) =
      Inr (x, reader_at (p @ write_participant x) ys)"
    by (simp add: read_participant_def write_participant_def codec_simps)
  assume "strict_prefix ys (write_participant x)"
  then show "\<exists>e. read_participant (reader_at p ys) = Inl e"
    unfolding read_participant_def write_participant_def
    by - (erule field_short last_field_short, simp?)+
qed

text \<open>A duplicate test over what was read so far passes exactly for lists without duplicates.\<close>

lemma passes_fresh_acc:
  "passes (check_fresh key msg) acc xs \<longleftrightarrow>
     distinct (map key xs) \<and> key ` set acc \<inter> key ` set xs = {}"
  by (induction xs arbitrary: acc) (auto simp: check_fresh_def)

lemma passes_fresh [simp]: "passes (check_fresh key msg) [] xs \<longleftrightarrow> distinct (map key xs)"
  by (simp add: passes_fresh_acc)

lemma passes_True [simp]: "passes (\<lambda>_ _. None) acc xs"
  by (induction xs arbitrary: acc) simp_all

lemma passes_both:
  assumes "\<And>acc x. chk acc x = (case c1 acc x of Some e \<Rightarrow> Some e | None \<Rightarrow> c2 acc x)"
  shows "passes chk acc xs \<longleftrightarrow> passes c1 acc xs \<and> passes c2 acc xs"
  by (induction xs arbitrary: acc) (auto simp: assms split: option.splits)

lemma passes_participants [simp]:
  "passes check_participant [] ps \<longleftrightarrow>
     distinct (map pp_participant_id ps) \<and> distinct (map pp_rank ps)"
  by (subst passes_both [OF check_participant_def]) simp

lemmas list_short = bind_fails [OF participant_codec.read_list_short [rotated]]

definition group_ok :: "PersistedGroup \<Rightarrow> bool" where
  "group_ok g =
     (length (pg_provenance g) < 2 ^ 64 \<and> length (pg_participants g) \<le> 10000000 \<and>
      distinct (map pp_participant_id (pg_participants g)) \<and>
      distinct (map pp_rank (pg_participants g)))"

lemma count_ok:
  "n \<le> 10000000 \<Longrightarrow> unat (of_nat n :: u64) = n \<and> \<not> kMaxCount < of_nat n"
  by (simp add: unat_of_nat_u64 kMaxCount_def word_less_nat_alt)

interpretation group_codec: codec write_group read_group group_ok
proof
  fix x :: PersistedGroup and p ys
  assume ok: "group_ok x"
  then have s: "length (pg_provenance x) < 2 ^ 64"
    and cnt: "unat (of_nat (length (pg_participants x)) :: u64) = length (pg_participants x)"
      "\<not> kMaxCount < of_nat (length (pg_participants x))"
    and chk: "passes check_participant [] (pg_participants x)"
    by (simp_all add: group_ok_def count_ok)
  note enc = participant_codec.read_list_enc [OF _ chk, simplified]
  show "read_group (reader_at p (write_group x @ ys)) = Inr (x, reader_at (p @ write_group x) ys)"
    using s cnt by (simp add: read_group_def write_group_def codec_simps enum_bytes enc)
  note short = field_short(1-3) field_short(4) [OF _ s] list_short
  assume "strict_prefix ys (write_group x)"
  then show "\<exists>e. read_group (reader_at p ys) = Inl e"
    unfolding read_group_def write_group_def by - (erule short, (simp add: enum_bytes cnt)?)+
qed

interpretation measurement_codec: codec write_measurement read_measurement "\<lambda>_. True"
proof
  fix x :: PersistedMeasurement and p ys
  show "read_measurement (reader_at p (write_measurement x @ ys)) =
      Inr (x, reader_at (p @ write_measurement x) ys)"
    by (simp add: read_measurement_def write_measurement_def codec_simps enum_bytes)
  assume "strict_prefix ys (write_measurement x)"
  then show "\<exists>e. read_measurement (reader_at p ys) = Inl e"
    unfolding read_measurement_def write_measurement_def
    by - (erule field_short(1-3) last_field_short, (simp add: enum_bytes)?)+
qed

interpretation backend_codec: codec write_backend read_backend "\<lambda>b. length (pb_name b) < 2 ^ 64"
proof
  fix x :: PersistedBackend and p ys
  assume s: "length (pb_name x) < 2 ^ 64"
  then show "read_backend (reader_at p (write_backend x @ ys)) = Inr (x, reader_at (p @ write_backend x) ys)"
    by (simp add: read_backend_def write_backend_def codec_simps)
  assume "strict_prefix ys (write_backend x)"
  then show "\<exists>e. read_backend (reader_at p ys) = Inl e"
    unfolding read_backend_def write_backend_def
    by - (erule field_short(1-3) last_field_short(3) [OF _ s], simp?)+
qed

definition write_health_opt :: "PersistedHealth option \<Rightarrow> bytes" where
  "write_health_opt h =
     w_boolean (h \<noteq> None) @ (case h of None \<Rightarrow> [] | Some x \<Rightarrow> write_health x)"

definition health_ok :: "PersistedHealth option \<Rightarrow> bool" where
  "health_ok h = (case h of None \<Rightarrow> True | Some x \<Rightarrow> length (ph_narrative x) < 2 ^ 64)"

interpretation health_codec: codec write_health_opt read_health_opt health_ok
proof
  fix x :: "PersistedHealth option" and p ys
  assume ok: "health_ok x"
  then show "read_health_opt (reader_at p (write_health_opt x @ ys)) =
      Inr (x, reader_at (p @ write_health_opt x) ys)"
    by (cases x) (simp_all add: health_ok_def read_health_opt_def write_health_opt_def read_health_def
      write_health_def codec_simps enum_bytes)
  assume short: "strict_prefix ys (write_health_opt x)"
  show "\<exists>e. read_health_opt (reader_at p ys) = Inl e"
  proof (cases x)
    case None
    with short have "strict_prefix ys (w_boolean False)" by (simp add: write_health_opt_def)
    then show ?thesis unfolding read_health_opt_def by (rule last_field_short)
  next
    case (Some h)
    with ok have s: "length (ph_narrative h) < 2 ^ 64" by (simp add: health_ok_def)
    have "\<exists>e. read_health (reader_at q zs) = Inl e" if "strict_prefix zs (write_health h)" for q zs
      using that unfolding read_health_def write_health_def
      by - (erule field_short(1-3) last_field_short(3) [OF _ s], (simp add: enum_bytes)?)+
    moreover from short Some have "strict_prefix ys (w_boolean True @ write_health h)"
      by (simp add: write_health_opt_def)
    ultimately show ?thesis
      unfolding read_health_opt_def by - (erule field_short, simp add: bind_fails)
  qed
qed

section \<open>Round trip of whole states\<close>

text \<open>What a state must satisfy for its encoding to be accepted again.\<close>

definition storable :: "PersistentState \<Rightarrow> bool" where
  "storable s =
     (ps_format_version s \<le> kFormatVersion \<and>
      length (ps_groups s) \<le> 10000000 \<and> list_all group_ok (ps_groups s) \<and>
      distinct (map (\<lambda>g. (pg_group_id g, pg_generation g)) (ps_groups s)) \<and>
      length (ps_measurements s) \<le> 10000000 \<and> distinct (map pm_id (ps_measurements s)) \<and>
      health_ok (ps_health s) \<and>
      length (ps_backends s) \<le> 10000000 \<and>
      list_all (\<lambda>b. length (pb_name b) < 2 ^ 64) (ps_backends s))"

lemma store_encode_eq:
  "store_encode s =
     w_u64 (ps_format_version s) @ w_u64 (gen_value (ps_epoch s)) @ w_u64 (raw (ps_live_boot s)) @
     w_u64 (of_nat (length (ps_groups s))) @ concat (map write_group (ps_groups s)) @
     w_u64 (of_nat (length (ps_measurements s))) @
     concat (map write_measurement (ps_measurements s)) @ write_health_opt (ps_health s) @
     w_u64 (of_nat (length (ps_backends s))) @ concat (map write_backend (ps_backends s)) @
     w_u64 (ps_policy_count s) @ w_u64 (ps_saved_ns s)"
  by (simp add: store_encode_def write_health_opt_def)

lemma storable_facts:
  assumes "storable s"
  shows "\<forall>x\<in>set (ps_groups s). group_ok x" "passes check_group [] (ps_groups s)"
    "unat (of_nat (length (ps_groups s)) :: u64) = length (ps_groups s)"
    "\<not> kMaxCount < of_nat (length (ps_groups s))"
    "passes check_measurement [] (ps_measurements s)"
    "unat (of_nat (length (ps_measurements s)) :: u64) = length (ps_measurements s)"
    "\<not> kMaxCount < of_nat (length (ps_measurements s))"
    "\<forall>x\<in>set (ps_backends s). length (pb_name x) < 2 ^ 64"
    "unat (of_nat (length (ps_backends s)) :: u64) = length (ps_backends s)"
    "\<not> kMaxCount < of_nat (length (ps_backends s))"
    "\<not> kFormatVersion < ps_format_version s" "health_ok (ps_health s)"
  using assms by (simp_all add: storable_def check_group_def check_measurement_def count_ok list_all_iff not_less)

lemma store_decode_encode_rest:
  assumes "storable s"
  shows "store_decode (store_encode s @ rest) =
    (if rest = [] then Inr s else Inl (bad ''trailing garbage in payload''))"
proof -
  note f = storable_facts [OF assms]
  note lists = group_codec.read_list_enc [OF f(1,2)] health_codec.dec_enc [OF f(12)]
    measurement_codec.read_list_enc [OF _ f(5), simplified]
    backend_codec.read_list_enc [OF f(8) passes_True]
  show ?thesis
    unfolding store_decode_def store_encode_eq new_reader_at
    by (simp add: codec_simps f lists)
qed

lemma store_decode_short:
  assumes "storable s" "strict_prefix ys (store_encode s)"
  shows "\<exists>e. store_decode ys = Inl e"
proof -
  note f = storable_facts [OF assms(1)]
  have m: "\<forall>x\<in>set (ps_measurements s). True" by simp
  note short = field_short(1-3) last_field_short group_codec.list_bind_short [OF _ f(1,2)]
    measurement_codec.list_bind_short [OF _ m f(5)] health_codec.bind_short [OF f(12)]
    backend_codec.list_bind_short [OF _ f(8) passes_True]
  from assms(2) show ?thesis
    unfolding store_decode_def store_encode_eq new_reader_at
    by - (erule short, (simp add: f)?)+
qed

section \<open>What a decoded state satisfies\<close>

lemmas reader_rules =
  ensures_fixed ensures_string ensures_or_throw ensures_throw_if ensures_return

lemma count_bound: "\<not> kMaxCount < n \<Longrightarrow> unat n \<le> 10000000"
  by (simp add: kMaxCount_def word_less_nat_alt not_less)

lemma read_participant_sound: "in_bounds r \<Longrightarrow> ensures (read_participant r) (\<lambda>(x, r'). True \<and> in_bounds r')"
  unfolding read_participant_def by (rule reader_rules; simp?)+

lemma read_measurement_sound: "in_bounds r \<Longrightarrow> ensures (read_measurement r) (\<lambda>(x, r'). True \<and> in_bounds r')"
  unfolding read_measurement_def by (rule reader_rules; simp?)+

lemma read_backend_sound:
  "in_bounds r \<Longrightarrow> ensures (read_backend r) (\<lambda>(x, r'). length (pb_name x) < 2 ^ 64 \<and> in_bounds r')"
  unfolding read_backend_def by (rule reader_rules; simp?)+

lemma read_health_sound:
  "in_bounds r \<Longrightarrow> ensures (read_health r) (\<lambda>(x, r'). length (ph_narrative x) < 2 ^ 64 \<and> in_bounds r')"
  unfolding read_health_def by (rule reader_rules; simp?)+

lemma read_health_opt_sound:
  "in_bounds r \<Longrightarrow> ensures (read_health_opt r) (\<lambda>(x, r'). health_ok x \<and> in_bounds r')"
  unfolding read_health_opt_def
  by (rule ensures_fixed; auto simp: health_ok_def intro!: ensures_return ensures_reader [OF read_health_sound])

lemma read_group_sound: "in_bounds r \<Longrightarrow> ensures (read_group r) (\<lambda>(x, r'). group_ok x \<and> in_bounds r')"
  unfolding read_group_def
  by (rule reader_rules ensures_read_list [OF _ read_participant_sound]; simp?)+
    (simp add: group_ok_def count_bound)

lemma store_decode_sound: "ensures (store_decode b) storable"
  unfolding store_decode_def
  by (rule reader_rules ensures_read_list [OF _ read_group_sound]
      ensures_read_list [OF _ read_measurement_sound] ensures_read_list [OF _ read_backend_sound]
      ensures_reader [OF read_health_opt_sound]; (simp add: new_reader_at)?)+
    (simp add: storable_def count_bound check_group_def check_measurement_def list_all_iff)

section \<open>Files read back\<close>

lemma be_field_push:
  "length a = off \<Longrightarrow> be_field n off (a @ push_be n v @ b) = (ucast (take_bit (8 * n) v) :: 'a::len word)"
  by (simp add: be_field_def foldl_push_be)

definition frame_head :: "u32 \<Rightarrow> nat \<Rightarrow> bytes" where
  "frame_head crc n =
     push_be 4 (ucast kMagic) @ push_be 4 kFormatVersion @ push_be 8 (of_nat n) @ push_be 4 (ucast crc)"

lemma length_frame_head [simp]: "length (frame_head crc n) = 20"
  by (simp add: frame_head_def)

lemma store_frame_eq:
  "store_frame s = frame_head (crc_compute (store_encode s)) (length (store_encode s)) @ store_encode s"
  by (simp add: store_frame_def frame_head_def Let_def)

lemma ucast_take_32: "ucast (take_bit 32 (ucast (c :: u32) :: u64)) = c"
  by (rule bit_word_eqI) (auto simp: bit_simps)

lemma frame_head_fields:
  "be_field 4 0 (frame_head crc n @ p) = kMagic"
  "(be_field 4 4 (frame_head crc n @ p) :: u64) = kFormatVersion"
  "(be_field 8 8 (frame_head crc n @ p) :: u64) = of_nat n"
  "be_field 4 16 (frame_head crc n @ p) = crc"
proof -
  let ?m = "push_be 4 (ucast kMagic)" and ?v = "push_be 4 kFormatVersion" and ?l = "push_be 8 (of_nat n)"
    and ?c = "push_be 4 (ucast crc)"
  have h: "frame_head crc n @ p = [] @ ?m @ ?v @ ?l @ ?c @ p" "frame_head crc n @ p = ?m @ ?v @ ?l @ ?c @ p"
    "frame_head crc n @ p = (?m @ ?v) @ ?l @ ?c @ p" "frame_head crc n @ p = (?m @ ?v @ ?l) @ ?c @ p"
    by (simp_all add: frame_head_def)
  show "be_field 4 0 (frame_head crc n @ p) = kMagic"
    unfolding h(1) by (subst be_field_push) (simp_all add: ucast_take_32)
  show "(be_field 4 4 (frame_head crc n @ p) :: u64) = kFormatVersion"
    unfolding h(2) by (subst be_field_push) (simp_all add: kFormatVersion_def)
  show "(be_field 8 8 (frame_head crc n @ p) :: u64) = of_nat n"
    unfolding h(3) by (subst be_field_push) (simp_all add: take_bit_word_eq_self)
  show "be_field 4 16 (frame_head crc n @ p) = crc"
    unfolding h(4) by (subst be_field_push) (simp_all add: ucast_take_32)
qed

lemma load_frame_head:
  assumes "length p < 2 ^ 64"
  shows "load_frame (frame_head crc n @ p) =
    (if of_nat n \<noteq> (of_nat (length p) :: u64) then Inl (bad ''payload length mismatch'')
     else if crc_compute p \<noteq> crc then Inl (bad ''checksum mismatch'')
     else sbind (store_decode p) (\<lambda>s. Inr (s, \<lparr>sr_digest = sha256 p, sr_bytes = 20 + length p\<rparr>)))"
  by (simp add: load_frame_def frame_head_fields Let_def)

lemma load_store_frame:
  assumes "storable s" "length (store_encode s) < 2 ^ 64"
  shows "load_frame (store_frame s) =
    Inr (s, \<lparr>sr_digest = semantic_digest s, sr_bytes = length (store_frame s)\<rparr>)"
  using assms store_decode_encode_rest [OF assms(1), of "[]"]
  by (simp add: store_frame_eq load_frame_head semantic_digest_def)

lemma load_frame_short:
  assumes "length (store_encode s) < 2 ^ 64" "strict_prefix b (store_frame s)"
  shows "\<exists>m. load_frame b = Inl (Error DECODE m)"
proof -
  from assms(2) show ?thesis
    unfolding store_frame_eq
  proof (cases rule: strict_prefix_append_cases)
    case 1
    then have "length b < 20" using prefix_length_less by fastforce
    then show ?thesis by (simp add: load_frame_def)
  next
    case (2 q)
    from 2(2) have lt: "length q < length (store_encode s)" by (rule prefix_length_less)
    then have "(of_nat (length (store_encode s)) :: u64) \<noteq> of_nat (length q)"
      using assms(1) unat_of_nat_u64 by (metis less_trans nat_neq_iff)
    with 2(1) lt assms(1) show ?thesis by (simp add: load_frame_head)
  qed
qed

section \<open>Properties\<close>


text \<open>C26: Whatever the payload, a state that \<open>decode\<close> accepts satisfies every rule of the store and
  survives being written and read again.\<close>
theorem decoded_state_is_valid:
  assumes "store_decode b = Inr s"
  shows "storable s \<and> store_decode (store_encode s) = Inr s"
  using ensuresD [OF store_decode_sound assms] store_decode_encode_rest [of s "[]"] by simp

definition sample_group :: PersistedGroup where
  "sample_group =
     \<lparr>pg_group_id = StrongId 5, pg_generation = Generation 1, pg_membership = Generation 1,
      pg_topology = Generation 1, pg_health = Generation 0, pg_backend = Generation 1,
      pg_lifecycle = READY, pg_provenance = ''x'',
      pg_participants =
        [\<lparr>pp_participant_id = StrongId 1, pp_worker = StrongId 1, pp_boot = StrongId 100,
          pp_node = StrongId 1, pp_device = StrongId 1, pp_rank = StrongId 0,
          pp_backend_generation = Generation 1, pp_is_known = True\<rparr>]\<rparr>"

definition sample_state :: PersistentState where
  "sample_state =
     \<lparr>ps_format_version = 1, ps_epoch = Generation 2, ps_live_boot = StrongId 100,
      ps_groups = [sample_group],
      ps_measurements =
        [\<lparr>pm_id = StrongId 1, pm_collective = StrongId 1, pm_collective_generation = Generation 1,
          pm_group_generation = Generation 1, pm_algorithm = RING, pm_backend = StrongId 1,
          pm_rank_count = 1, pm_payload_bytes = 64, pm_wall_time_us = 10,
          pm_provenance = MeasurementProvenance.MEASURED,
          pm_freshness = MeasurementFreshness.CURRENT, pm_timestamp_ns = 7,
          pm_measurement_generation = Generation 1, pm_success = True\<rparr>],
      ps_health = None, ps_backends = [], ps_policy_count = 0, ps_saved_ns = 111\<rparr>"

lemma sample_state_storable: "storable sample_state"
  by (simp add: sample_state_def sample_group_def storable_def group_ok_def health_ok_def
      kFormatVersion_def)

lemma sample_state_round_trip: "store_decode (store_encode sample_state) = Inr sample_state"
  using store_decode_encode_rest [OF sample_state_storable, of "[]"] by simp

theorem decoded_state_is_valid_witness:
  "storable sample_state \<and> store_decode (store_encode sample_state) = Inr sample_state"
  by (rule decoded_state_is_valid) (rule sample_state_round_trip)

text \<open>A payload that is cut anywhere, or followed by any extra byte, is rejected.\<close>
theorem damaged_payload_length_rejected:
  assumes "storable s"
  shows "(\<exists>e. store_decode (take n (store_encode s)) = Inl e) = (n < length (store_encode s)) \<and>
    store_decode (store_encode s @ x # xs) = Inl (Error DECODE ''store: trailing garbage in payload'')"
proof -
  have "\<exists>e. store_decode (take n (store_encode s)) = Inl e" if "n < length (store_encode s)"
  proof (rule store_decode_short [OF assms])
    have "length (take n (store_encode s)) \<noteq> length (store_encode s)" using that by simp
    then show "strict_prefix (take n (store_encode s)) (store_encode s)"
      by (auto simp: strict_prefix_def take_is_prefix)
  qed
  moreover have "store_decode (take n (store_encode s)) = Inr s" if "\<not> n < length (store_encode s)"
    using that store_decode_encode_rest [OF assms, of "[]"] by simp
  moreover have "store_decode (store_encode s @ x # xs) =
      Inl (Error DECODE ''store: trailing garbage in payload'')"
    using store_decode_encode_rest [OF assms, of "x # xs"] by simp
  ultimately show ?thesis by fastforce
qed

theorem damaged_payload_length_rejected_witness:
  "(\<exists>e. store_decode (take 30 (store_encode sample_state)) = Inl e) =
     (30 < length (store_encode sample_state)) \<and>
   store_decode (store_encode sample_state @ 0 # []) =
     Inl (Error DECODE ''store: trailing garbage in payload'')"
  by (rule damaged_payload_length_rejected) (rule sample_state_storable)

text \<open>C25: Saving is atomic: whatever happens to the temporary file, the state file holds either its old
  contents, and then \<open>save\<close> has thrown, or the complete new state, and then \<open>load\<close> returns that state
  with the digest and the size \<open>save\<close> reported.\<close>
theorem save_is_atomic:
  assumes "storable s" "length (store_encode s) < 2 ^ 64"
    and "store_save io path s fs = (r, fs')"
  shows "case r of
      Inl e \<Rightarrow> io \<noteq> Io_ok \<and> store_load path fs' = store_load path fs
    | Inr res \<Rightarrow> io = Io_ok \<and> store_load path fs' = Inr (s, res)"
  using assms(3) load_store_frame [OF assms(1,2)]
  by (cases io) (auto simp: store_load_def semantic_digest_def)

theorem save_is_atomic_witness:
  "case (Inr \<lparr>sr_digest = sha256 (store_encode sample_state),
      sr_bytes = length (store_frame sample_state)\<rparr> :: fault + SaveResult) of
      Inl e \<Rightarrow> Io_ok \<noteq> Io_ok \<and>
        store_load ''s'' ((Map.empty (''s.tmp'' := None))(''s'' \<mapsto> store_frame sample_state)) =
          store_load ''s'' Map.empty
    | Inr res \<Rightarrow> Io_ok = Io_ok \<and>
        store_load ''s'' ((Map.empty (''s.tmp'' := None))(''s'' \<mapsto> store_frame sample_state)) =
          Inr (sample_state, res)"
proof (rule save_is_atomic [OF sample_state_storable])
  show "length (store_encode sample_state) < 2 ^ 64"
    by (simp add: store_encode_def sample_state_def sample_group_def write_group_def
        write_participant_def write_measurement_def)
  show "store_save Io_ok ''s'' sample_state Map.empty =
      (Inr \<lparr>sr_digest = sha256 (store_encode sample_state), sr_bytes = length (store_frame sample_state)\<rparr>,
       (Map.empty (''s.tmp'' := None))(''s'' \<mapsto> store_frame sample_state))"
    by simp
qed

text \<open>A damaged state file is never loaded: every proper prefix of a saved file and every saved file
  with up to four consecutive corrupted payload bytes is rejected with a decode error.\<close>
theorem damaged_file_rejected:
  assumes "length (store_encode s) < 2 ^ 64"
    and "strict_prefix part (store_frame s)"
    and "store_encode s = a @ d @ b" "length d = length d'" "length d \<le> 4" "d \<noteq> d'"
  shows "(\<exists>m. load_frame part = Inl (Error DECODE m)) \<and>
    load_frame (take 20 (store_frame s) @ a @ d' @ b) =
      Inl (Error DECODE ''store: checksum mismatch'')"
proof
  show "\<exists>m. load_frame part = Inl (Error DECODE m)" using assms(1,2) by (rule load_frame_short)
  have len: "length (a @ d' @ b) = length (store_encode s)" using assms(3,4) by simp
  have "crc_update crc_reset (a @ d @ b) \<noteq> crc_update crc_reset (a @ d' @ b)"
    using assms(4-6) by (rule crc_detects_burst)
  then have "crc_compute (a @ d' @ b) \<noteq> crc_compute (store_encode s)"
    using assms(3) by (simp add: crc_compute_def crc_value_inject)
  then show "load_frame (take 20 (store_frame s) @ a @ d' @ b) =
      Inl (Error DECODE ''store: checksum mismatch'')"
    using len assms(1) load_frame_head [of "a @ d' @ b"] by (simp add: store_frame_eq)
qed

theorem damaged_file_rejected_witness:
  "(\<exists>m. load_frame (take 25 (store_frame sample_state)) = Inl (Error DECODE m)) \<and>
    load_frame (take 20 (store_frame sample_state) @ [] @ [9] @ tl (store_encode sample_state)) =
      Inl (Error DECODE ''store: checksum mismatch'')"
proof (rule damaged_file_rejected [where d = "[0]"])
  show "store_encode sample_state = [] @ [0] @ tl (store_encode sample_state)"
    by (simp add: store_encode_def sample_state_def w_u64_def eval_nat_numeral)
  have len: "25 < length (store_frame sample_state)"
    by (simp add: store_frame_eq store_encode_def)
  then have "length (take 25 (store_frame sample_state)) \<noteq> length (store_frame sample_state)" by simp
  then show "strict_prefix (take 25 (store_frame sample_state)) (store_frame sample_state)"
    by (auto simp: strict_prefix_def take_is_prefix)
  show "length (store_encode sample_state) < 2 ^ 64"
    by (simp add: store_encode_def sample_state_def sample_group_def write_group_def
        write_participant_def write_measurement_def)
qed simp_all

text \<open>Loading restores what was saved as it was: a measurement saved as \<open>CURRENT\<close> is loaded as
  \<open>CURRENT\<close>, and the live boot identity is restored, not cleared.\<close>
theorem load_keeps_current_and_live_boot:
  "\<exists>m s res. load_frame (store_frame sample_state) = Inr (s, res) \<and> m \<in> set (ps_measurements s) \<and>
     pm_freshness m = MeasurementFreshness.CURRENT \<and> \<not> id_is_null (ps_live_boot s)"
proof -
  have "length (store_encode sample_state) < 2 ^ 64"
    by (simp add: store_encode_def sample_state_def sample_group_def write_group_def
        write_participant_def write_measurement_def)
  from load_store_frame [OF sample_state_storable this] show ?thesis
    by (simp add: sample_state_def id_is_null_def)
qed

end
