(* ===== verification/CF_Lifecycle.thy ===== *)
theory CF_Lifecycle
  imports CF_Enums
begin

text \<open>
  \<open>lifecycle.hpp\<close>: the guarded state machine of one collective execution. The state of
  \<open>CollectiveStateMachine\<close> is one \<open>CollectiveState\<close>; \<open>transition_to\<close> throws on an illegal move.
\<close>

section \<open>Transitions\<close>

definition is_terminal :: "CollectiveState \<Rightarrow> bool" where
  "is_terminal s =
     (s = SUCCEEDED \<or> s = CollectiveState.FAILED \<or> s = ABORTED \<or> s = CANCELLED \<or>
      s = CollectiveState.STALE)"

fun allowed :: "CollectiveState \<Rightarrow> CollectiveState \<Rightarrow> bool" where
  "allowed CREATED to = (to = PLANNED \<or> to = CollectiveState.FAILED \<or> to = CANCELLED \<or> to = ABORTED)"
| "allowed PLANNED to = (to = RESERVED \<or> to = CollectiveState.FAILED \<or> to = CANCELLED)"
| "allowed RESERVED to = (to = DISPATCHED \<or> to = CollectiveState.FAILED \<or> to = CANCELLED)"
| "allowed DISPATCHED to = (to = RUNNING \<or> to = CollectiveState.FAILED \<or> to = ABORTED \<or> to = CANCELLED)"
| "allowed RUNNING to = (to = COMPLETING \<or> to = CollectiveState.FAILED \<or> to = ABORTED \<or> to = CANCELLED)"
| "allowed COMPLETING to = (to = SUCCEEDED \<or> to = CollectiveState.FAILED \<or> to = ABORTED)"
| "allowed SUCCEEDED to = (to = CollectiveState.STALE)"
| "allowed CollectiveState.FAILED to = (to = CollectiveState.STALE)"
| "allowed ABORTED to = False"
| "allowed CANCELLED to = False"
| "allowed CollectiveState.STALE to = False"

definition transition_to :: "CollectiveState \<Rightarrow> CollectiveState \<Rightarrow> fault + CollectiveState" where
  "transition_to s to =
     (if \<not> allowed s to
      then Inl (Error LIFECYCLE
             (''illegal lifecycle transition '' @ collective_state_to_string s @ '' -> '' @
              collective_state_to_string to))
      else Inr to)"

text \<open>\<open>try_transition\<close> is the idiom \<open>try { transition_to(to); } catch (const Error&) {}\<close>.\<close>

definition try_transition :: "CollectiveState \<Rightarrow> CollectiveState \<Rightarrow> CollectiveState" where
  "try_transition s to = (case transition_to s to of Inl e \<Rightarrow> s | Inr s' \<Rightarrow> s')"

fun run_transitions :: "CollectiveState \<Rightarrow> CollectiveState list \<Rightarrow> fault + CollectiveState" where
  "run_transitions s [] = Inr s"
| "run_transitions s (to # ts) = sbind (transition_to s to) (\<lambda>s'. run_transitions s' ts)"

section \<open>Facts about single moves\<close>

lemma transition_to_Inr [simp]: "transition_to s to = Inr s' \<longleftrightarrow> allowed s to \<and> s' = to"
  by (auto simp: transition_to_def)

lemma try_transition_eq: "try_transition s to = (if allowed s to then to else s)"
  by (simp add: try_transition_def transition_to_def)

text \<open>How far a state is from the end: every move decreases it.\<close>

fun stage :: "CollectiveState \<Rightarrow> nat" where
  "stage CREATED = 7"
| "stage PLANNED = 6"
| "stage RESERVED = 5"
| "stage DISPATCHED = 4"
| "stage RUNNING = 3"
| "stage COMPLETING = 2"
| "stage SUCCEEDED = 1"
| "stage CollectiveState.FAILED = 1"
| "stage ABORTED = 0"
| "stage CANCELLED = 0"
| "stage CollectiveState.STALE = 0"

lemma allowed_stage: "allowed s t \<Longrightarrow> stage t < stage s"
  by (cases s) auto

lemma allowed_irrefl: "\<not> allowed s s"
  using allowed_stage [of s s] by auto

lemma terminal_allowed:
  "is_terminal s \<Longrightarrow> allowed s t \<longleftrightarrow> (s = SUCCEEDED \<or> s = CollectiveState.FAILED) \<and> t = CollectiveState.STALE"
  by (cases s) (auto simp: is_terminal_def)

lemma allowed_terminal: "is_terminal s \<Longrightarrow> allowed s t \<Longrightarrow> is_terminal t"
  by (cases s) (auto simp: is_terminal_def)

lemma allowed_to_success: "allowed s SUCCEEDED \<longleftrightarrow> s = COMPLETING"
  by (cases s) auto

lemma allowed_to_COMPLETING: "allowed s COMPLETING \<longleftrightarrow> s = RUNNING"
  by (cases s) auto

lemma allowed_to_RUNNING: "allowed s RUNNING \<longleftrightarrow> s = DISPATCHED"
  by (cases s) auto

lemma allowed_to_CREATED: "\<not> allowed s CREATED"
  by (cases s) auto

lemma allowed_to_PLANNED: "allowed s PLANNED \<longleftrightarrow> s = CREATED"
  by (cases s) auto

lemma allowed_to_RESERVED: "allowed s RESERVED \<longleftrightarrow> s = PLANNED"
  by (cases s) auto

lemma allowed_to_DISPATCHED: "allowed s DISPATCHED \<longleftrightarrow> s = RESERVED"
  by (cases s) auto

lemmas allowed_to =
  allowed_to_success allowed_to_COMPLETING allowed_to_RUNNING allowed_to_CREATED
  allowed_to_PLANNED allowed_to_RESERVED allowed_to_DISPATCHED

section \<open>Facts about histories\<close>

lemma run_transitions_append:
  "run_transitions s (xs @ ys) = sbind (run_transitions s xs) (\<lambda>s'. run_transitions s' ys)"
  by (induction xs arbitrary: s) (simp_all add: sbind_assoc)

lemma run_transitions_stage: "run_transitions s ts = Inr s' \<Longrightarrow> length ts + stage s' \<le> stage s"
proof (induction ts arbitrary: s)
  case Nil
  then show ?case by simp
next
  case (Cons t ts)
  then have "allowed s t" "run_transitions t ts = Inr s'" by (auto simp: err_simps)
  with Cons.IH [of t] allowed_stage [of s t] show ?case by simp
qed

lemma run_transitions_last:
  "ts \<noteq> [] \<Longrightarrow> run_transitions s ts = Inr s' \<Longrightarrow> last ts = s'"
  by (induction ts arbitrary: s) (auto simp: err_simps)

lemma run_transitions_snoc:
  "run_transitions s (ts @ [t]) = Inr s' \<longleftrightarrow>
     (\<exists>u. run_transitions s ts = Inr u \<and> allowed u t \<and> s' = t)"
  by (auto simp: run_transitions_append err_simps)

lemma run_transitions_to:
  assumes "run_transitions s ts = Inr s'" "s' \<noteq> s"
  obtains u us where "ts = us @ [s']" "run_transitions s us = Inr u" "allowed u s'"
proof -
  from assms have "ts \<noteq> []" by auto
  then obtain us t where "ts = us @ [t]" by (metis append_butlast_last_id)
  with assms(1) that show thesis by (auto simp: run_transitions_snoc)
qed

lemma run_to_CREATED: "run_transitions CREATED ts = Inr CREATED \<Longrightarrow> ts = []"
  using run_transitions_stage [of CREATED ts CREATED] by simp

lemma run_transitions_success:
  assumes "run_transitions CREATED ts = Inr SUCCEEDED"
  shows "ts = [PLANNED, RESERVED, DISPATCHED, RUNNING, COMPLETING, SUCCEEDED]"
proof -
  obtain t1 where t1: "ts = t1 @ [SUCCEEDED]" "run_transitions CREATED t1 = Inr COMPLETING"
    using run_transitions_to [OF assms] by (auto simp: allowed_to)
  obtain t2 where t2: "t1 = t2 @ [COMPLETING]" "run_transitions CREATED t2 = Inr RUNNING"
    using run_transitions_to [OF t1(2)] by (auto simp: allowed_to)
  obtain t3 where t3: "t2 = t3 @ [RUNNING]" "run_transitions CREATED t3 = Inr DISPATCHED"
    using run_transitions_to [OF t2(2)] by (auto simp: allowed_to)
  obtain t4 where t4: "t3 = t4 @ [DISPATCHED]" "run_transitions CREATED t4 = Inr RESERVED"
    using run_transitions_to [OF t3(2)] by (auto simp: allowed_to)
  obtain t5 where t5: "t4 = t5 @ [RESERVED]" "run_transitions CREATED t5 = Inr PLANNED"
    using run_transitions_to [OF t4(2)] by (auto simp: allowed_to)
  obtain t6 where t6: "t5 = t6 @ [PLANNED]" "run_transitions CREATED t6 = Inr CREATED"
    using run_transitions_to [OF t5(2)] by (auto simp: allowed_to)
  from t6(2) have "t6 = []" by (rule run_to_CREATED)
  with t1 t2 t3 t4 t5 t6 show ?thesis by simp
qed

section \<open>Properties\<close>

text \<open>From \<open>CREATED\<close> the state \<open>SUCCEEDED\<close> is reached through the six steps of the happy path in
  their order and in no other way: no execution succeeds without having been planned, reserved,
  dispatched, run and completed.\<close>
theorem success_only_by_full_path:
  "run_transitions CREATED ts = Inr SUCCEEDED \<longleftrightarrow>
     ts = [PLANNED, RESERVED, DISPATCHED, RUNNING, COMPLETING, SUCCEEDED]"
  using run_transitions_success [of ts] by (auto simp: transition_to_def)

text \<open>A terminal execution stays terminal: the only move it can still make is to \<open>STALE\<close>, once, and
  only from \<open>SUCCEEDED\<close> or \<open>FAILED\<close>.\<close>
theorem terminal_is_final:
  assumes "is_terminal s" "run_transitions s ts = Inr s'"
  shows "ts = [] \<or> (ts = [CollectiveState.STALE] \<and> (s = SUCCEEDED \<or> s = CollectiveState.FAILED))"
proof (cases ts)
  case Nil
  then show ?thesis by simp
next
  case (Cons t us)
  with assms have "allowed s t" "run_transitions t us = Inr s'" by (auto simp: err_simps)
  with terminal_allowed [OF assms(1), of t] have "t = CollectiveState.STALE" "us = []"
    using run_transitions_stage [of t us s'] by auto
  with Cons \<open>allowed s t\<close> terminal_allowed [OF assms(1), of t] show ?thesis by simp
qed

theorem terminal_is_final_witness:
  "[CollectiveState.STALE] = [] \<or> ([CollectiveState.STALE] = [CollectiveState.STALE] \<and>
     (SUCCEEDED = SUCCEEDED \<or> SUCCEEDED = CollectiveState.FAILED))"
  using terminal_is_final [of SUCCEEDED "[CollectiveState.STALE]" CollectiveState.STALE]
  by (simp add: is_terminal_def)

text \<open>C30: The lifecycle has no cycle: a legal history from any state makes at most seven moves.\<close>
theorem lifecycle_terminates:
  "run_transitions s ts = Inr s' \<Longrightarrow> length ts \<le> 7 \<and> (s' = s) = (ts = [])"
proof -
  assume run: "run_transitions s ts = Inr s'"
  have "stage s \<le> 7" by (cases s) simp_all
  with run_transitions_stage [OF run] run show ?thesis by (cases ts) (auto simp del: run_transitions.simps(2))
qed

theorem lifecycle_terminates_witness:
  "length [PLANNED, CollectiveState.FAILED, CollectiveState.STALE] \<le> 7 \<and>
   (CollectiveState.STALE = CREATED) =
     ([PLANNED, CollectiveState.FAILED, CollectiveState.STALE] = [])"
  by (rule lifecycle_terminates) (simp add: transition_to_def)

end
