(* ===== verification/CF_Authority.thy ===== *)
theory CF_Authority
  imports CF_Enums
begin

text \<open>
  \<open>authority.hpp\<close>: incarnation-scoped authority. \<open>evaluate_authority\<close> compares a claim with the
  coordinator's ground truth, incarnation first, then the epoch, then the four generations.
\<close>

section \<open>Ground truth, claims, decisions\<close>

record AuthorityGroundTruth =
  gt_epoch :: CoordinatorEpoch
  live_boot :: WorkerBootId
  gt_group_generation :: GroupGeneration
  gt_collective_generation :: CollectiveGeneration
  gt_attempt_generation :: AttemptGeneration
  gt_dispatch_generation :: DispatchGeneration

definition boot_is_authoritative :: "AuthorityGroundTruth \<Rightarrow> WorkerBootId \<Rightarrow> bool" where
  "boot_is_authoritative truth b = (\<not> id_is_null (live_boot truth) \<and> b = live_boot truth)"

record AuthorityClaim =
  cl_boot :: WorkerBootId
  cl_epoch :: CoordinatorEpoch
  cl_group_generation :: GroupGeneration
  cl_collective_generation :: CollectiveGeneration
  cl_attempt_generation :: AttemptGeneration
  cl_dispatch_generation :: DispatchGeneration
  is_completion :: bool

record AuthorityDecision =
  verdict :: AuthorityVerdict
  reason :: string

section \<open>Evaluation\<close>

definition evaluate_authority :: "AuthorityGroundTruth \<Rightarrow> AuthorityClaim \<Rightarrow> AuthorityDecision" where
  "evaluate_authority truth claim =
     (if \<not> id_is_null (live_boot truth) \<and> cl_boot claim \<noteq> live_boot truth then
        \<lparr>verdict = AuthorityVerdict.STALE,
         reason = ''WorkerBootId does not match current participant incarnation''\<rparr>
      else if id_is_null (live_boot truth) \<and> id_is_null (cl_boot claim) then
        \<lparr>verdict = INVALID, reason = ''claim carries no boot identity''\<rparr>
      else if cl_epoch claim \<noteq> gt_epoch truth then
        (if cl_epoch claim < gt_epoch truth then
           \<lparr>verdict = AuthorityVerdict.STALE, reason = ''stale coordinator epoch''\<rparr>
         else
           \<lparr>verdict = AuthorityVerdict.UNKNOWN,
            reason = ''claim epoch is ahead of the coordinator epoch''\<rparr>)
      else if cl_group_generation claim < gt_group_generation truth then
        \<lparr>verdict = AuthorityVerdict.STALE, reason = ''stale group generation''\<rparr>
      else if cl_collective_generation claim < gt_collective_generation truth then
        \<lparr>verdict = AuthorityVerdict.STALE, reason = ''stale collective generation''\<rparr>
      else if cl_attempt_generation claim < gt_attempt_generation truth then
        \<lparr>verdict = AuthorityVerdict.STALE, reason = ''stale attempt generation''\<rparr>
      else if cl_dispatch_generation claim < gt_dispatch_generation truth then
        \<lparr>verdict = AuthorityVerdict.STALE, reason = ''stale dispatch generation''\<rparr>
      else if cl_group_generation claim = gt_group_generation truth \<and>
              cl_collective_generation claim = gt_collective_generation truth \<and>
              cl_attempt_generation claim = gt_attempt_generation truth \<and>
              cl_dispatch_generation claim = gt_dispatch_generation truth then
        \<lparr>verdict = (if is_completion claim then DUPLICATE else AuthorityVerdict.CURRENT),
         reason = (if is_completion claim
                   then ''generation matches but completion already recorded''
                   else ''claim is current'')\<rparr>
      else
        \<lparr>verdict = FRESH, reason = ''claim is newer than the recorded generation''\<rparr>)"

section \<open>Abstract specification\<close>

text \<open>
  The order in which a claim can be behind: some component older than the truth's. \<open>same_position\<close>
  is equality of the four generations.
\<close>

definition behind :: "AuthorityGroundTruth \<Rightarrow> AuthorityClaim \<Rightarrow> bool" where
  "behind truth claim =
     (cl_group_generation claim < gt_group_generation truth \<or>
      cl_collective_generation claim < gt_collective_generation truth \<or>
      cl_attempt_generation claim < gt_attempt_generation truth \<or>
      cl_dispatch_generation claim < gt_dispatch_generation truth)"

definition same_position :: "AuthorityGroundTruth \<Rightarrow> AuthorityClaim \<Rightarrow> bool" where
  "same_position truth claim =
     (cl_group_generation claim = gt_group_generation truth \<and>
      cl_collective_generation claim = gt_collective_generation truth \<and>
      cl_attempt_generation claim = gt_attempt_generation truth \<and>
      cl_dispatch_generation claim = gt_dispatch_generation truth)"

definition fenced :: "AuthorityGroundTruth \<Rightarrow> AuthorityClaim \<Rightarrow> bool" where
  "fenced truth claim = (\<not> id_is_null (live_boot truth) \<and> cl_boot claim \<noteq> live_boot truth)"

definition unattributable :: "AuthorityGroundTruth \<Rightarrow> AuthorityClaim \<Rightarrow> bool" where
  "unattributable truth claim = (id_is_null (live_boot truth) \<and> id_is_null (cl_boot claim))"

lemmas authority_defs = behind_def same_position_def fenced_def unattributable_def

lemma evaluate_STALE:
  "verdict (evaluate_authority truth claim) = AuthorityVerdict.STALE \<longleftrightarrow>
     fenced truth claim \<or>
     (\<not> unattributable truth claim \<and>
      (cl_epoch claim < gt_epoch truth \<or>
       (cl_epoch claim = gt_epoch truth \<and> behind truth claim)))"
  by (auto simp: evaluate_authority_def authority_defs)

lemma evaluate_INVALID:
  "verdict (evaluate_authority truth claim) = INVALID \<longleftrightarrow> unattributable truth claim"
  by (auto simp: evaluate_authority_def authority_defs)

lemma evaluate_UNKNOWN:
  "verdict (evaluate_authority truth claim) = AuthorityVerdict.UNKNOWN \<longleftrightarrow>
     \<not> fenced truth claim \<and> \<not> unattributable truth claim \<and> gt_epoch truth < cl_epoch claim"
  by (auto simp: evaluate_authority_def authority_defs)

lemma evaluate_at_position:
  assumes "\<not> fenced truth claim" "\<not> unattributable truth claim"
    "cl_epoch claim = gt_epoch truth" "\<not> behind truth claim"
  shows "verdict (evaluate_authority truth claim) =
    (if same_position truth claim
     then (if is_completion claim then DUPLICATE else AuthorityVerdict.CURRENT) else FRESH)"
  using assms by (auto simp: evaluate_authority_def authority_defs)

lemma evaluate_CURRENT:
  "verdict (evaluate_authority truth claim) = AuthorityVerdict.CURRENT \<longleftrightarrow>
     \<not> fenced truth claim \<and> \<not> unattributable truth claim \<and> cl_epoch claim = gt_epoch truth \<and>
     same_position truth claim \<and> \<not> is_completion claim"
  by (auto simp: evaluate_authority_def authority_defs)

lemma evaluate_not_CONFLICT: "verdict (evaluate_authority truth claim) \<noteq> AuthorityVerdict.CONFLICT"
  by (auto simp: evaluate_authority_def)

text \<open>Once a claim is fenced by the epoch, no later epoch accepts it again.\<close>

lemma evaluate_STALE_epoch:
  assumes "\<not> unattributable truth claim" "cl_epoch claim < gt_epoch truth"
  shows "verdict (evaluate_authority truth claim) = AuthorityVerdict.STALE"
  using assms by (simp add: evaluate_STALE)

section \<open>Properties\<close>

text \<open>The ground truth advances when the epoch or, within one epoch, no generation goes back; the
  live incarnation is kept or replaced by one the claim does not come from.\<close>

definition truth_advances :: "AuthorityClaim \<Rightarrow> AuthorityGroundTruth \<Rightarrow> AuthorityGroundTruth \<Rightarrow> bool" where
  "truth_advances claim t t' =
     ((gt_epoch t < gt_epoch t' \<or>
       (gt_epoch t = gt_epoch t' \<and> gt_group_generation t \<le> gt_group_generation t' \<and>
        gt_collective_generation t \<le> gt_collective_generation t' \<and>
        gt_attempt_generation t \<le> gt_attempt_generation t' \<and>
        gt_dispatch_generation t \<le> gt_dispatch_generation t')) \<and>
      (live_boot t' = live_boot t \<or>
       (\<not> id_is_null (live_boot t') \<and> cl_boot claim \<noteq> live_boot t')))"



definition sample_truth :: AuthorityGroundTruth where
  "sample_truth =
     \<lparr>gt_epoch = Generation 2, live_boot = StrongId 7, gt_group_generation = Generation 1,
      gt_collective_generation = Generation 1, gt_attempt_generation = Generation 2,
      gt_dispatch_generation = Generation 1\<rparr>"

definition sample_claim :: AuthorityClaim where
  "sample_claim =
     \<lparr>cl_boot = StrongId 7, cl_epoch = Generation 2, cl_group_generation = Generation 1,
      cl_collective_generation = Generation 1, cl_attempt_generation = Generation 1,
      cl_dispatch_generation = Generation 1, is_completion = True\<rparr>"


end
