(* ===== verification/CF_Group.thy ===== *)
theory CF_Group
  imports CF_Canonical CF_Sha256 CF_Enums "HOL-Library.Multiset"
begin

text \<open>
  \<open>group.hpp\<close>: participants, the immutable group and its validating builder. \<open>build\<close> returns its
  result or what it threw together with the builder it leaves behind, whose participants it has
  sorted and ranked. \<open>std::sort\<close> is \<open>sort_key\<close>; the two can differ only in the order of equal keys,
  and then \<open>validate\<close> throws.
\<close>

section \<open>Participants and groups\<close>

record Participant =
  pt_id :: ParticipantId
  pt_worker :: WorkerId
  pt_boot :: WorkerBootId
  pt_node :: NodeId
  pt_device :: DeviceId
  pt_rank :: RankId
  pt_backend_generation :: BackendGeneration
  pt_is_known :: bool

record CollectiveGroup =
  cg_id :: CollectiveGroupId
  cg_generation :: GroupGeneration
  cg_membership :: MembershipGeneration
  cg_topology :: TopologyGeneration
  cg_health :: HealthGeneration
  cg_backend :: BackendGeneration
  cg_lifecycle :: GroupLifecycle
  cg_provenance :: Source
  cg_participants :: "Participant list"

definition cg_rank_count :: "CollectiveGroup \<Rightarrow> nat" where
  "cg_rank_count g = length (cg_participants g)"

definition participant_at :: "CollectiveGroup \<Rightarrow> RankId \<Rightarrow> Participant option" where
  "participant_at g r = find (\<lambda>p. pt_rank p = r) (cg_participants g)"

definition participant :: "CollectiveGroup \<Rightarrow> ParticipantId \<Rightarrow> Participant option" where
  "participant g i = find (\<lambda>p. pt_id p = i) (cg_participants g)"

definition rank_of :: "CollectiveGroup \<Rightarrow> ParticipantId \<Rightarrow> RankId option" where
  "rank_of g i = (case participant g i of None \<Rightarrow> None | Some p \<Rightarrow> Some (pt_rank p))"

definition is_live_authority :: "CollectiveGroup \<Rightarrow> WorkerBootId \<Rightarrow> bool" where
  "is_live_authority g b = list_ex (\<lambda>p. pt_boot p = b) (cg_participants g)"

definition set_lifecycle :: "GroupLifecycle \<Rightarrow> CollectiveGroup \<Rightarrow> CollectiveGroup" where
  "set_lifecycle l g = g\<lparr>cg_lifecycle := l\<rparr>"

definition participant_bytes :: "Participant \<Rightarrow> bytes" where
  "participant_bytes p =
     w_u64 (raw (pt_id p)) @ w_u64 (raw (pt_worker p)) @ w_u64 (raw (pt_boot p)) @
     w_u64 (raw (pt_node p)) @ w_u64 (raw (pt_device p)) @ w_u64 (raw (pt_rank p)) @
     w_u64 (gen_value (pt_backend_generation p)) @ w_boolean (pt_is_known p)"

definition group_bytes :: "CollectiveGroup \<Rightarrow> bytes" where
  "group_bytes g =
     w_u64 (raw (cg_id g)) @ w_u64 (gen_value (cg_generation g)) @
     w_u64 (gen_value (cg_membership g)) @ w_u64 (gen_value (cg_topology g)) @
     w_u64 (gen_value (cg_health g)) @ w_u64 (gen_value (cg_backend g)) @
     w_u8 (group_lifecycle_to_u8 (cg_lifecycle g)) @
     w_u64 (of_nat (length (cg_participants g))) @
     concat (map participant_bytes (cg_participants g))"

definition group_digest :: "CollectiveGroup \<Rightarrow> bytes" where
  "group_digest g = sha256 (group_bytes g)"

section \<open>The builder\<close>

record GroupBuilder =
  gb_id :: CollectiveGroupId
  gb_generation :: GroupGeneration
  gb_membership :: MembershipGeneration
  gb_topology :: TopologyGeneration
  gb_health :: HealthGeneration
  gb_backend :: BackendGeneration
  gb_lifecycle :: GroupLifecycle
  gb_provenance :: Source
  gb_participants :: "Participant list"

definition new_group_builder :: "CollectiveGroupId \<Rightarrow> GroupGeneration \<Rightarrow> GroupBuilder" where
  "new_group_builder i g =
     \<lparr>gb_id = i, gb_generation = g, gb_membership = Generation 1, gb_topology = Generation 1,
      gb_health = Generation 0, gb_backend = Generation 0, gb_lifecycle = CREATING,
      gb_provenance = null_source, gb_participants = []\<rparr>"

definition add_participant ::
  "ParticipantId \<Rightarrow> WorkerId \<Rightarrow> WorkerBootId \<Rightarrow> NodeId \<Rightarrow> DeviceId \<Rightarrow> BackendGeneration \<Rightarrow> RankId
    \<Rightarrow> GroupBuilder \<Rightarrow> GroupBuilder" where
  "add_participant i worker boot node device bgen rank b =
     b\<lparr>gb_participants := gb_participants b @
        [\<lparr>pt_id = i, pt_worker = worker, pt_boot = boot, pt_node = node, pt_device = device,
          pt_rank = rank, pt_backend_generation = bgen, pt_is_known = True\<rparr>]\<rparr>"

definition assign_ranks :: "Participant list \<Rightarrow> Participant list" where
  "assign_ranks ps =
     (if list_ex (\<lambda>p. id_is_null (pt_rank p)) ps
      then let sorted = sort_key pt_id ps
           in map (\<lambda>i. (sorted ! i)\<lparr>pt_rank := StrongId (of_nat i)\<rparr>) [0..<length sorted]
      else sort_key pt_rank ps)"

abbreviation invalid :: "string \<Rightarrow> fault" where "invalid msg \<equiv> Error ErrorCode.VALIDATION msg"

definition pair_error :: "Participant \<Rightarrow> Participant \<Rightarrow> fault option" where
  "pair_error p q =
     (if pt_id p = pt_id q then Some (invalid ''duplicate ParticipantId'')
      else if pt_rank p = pt_rank q then Some (invalid ''duplicate RankId'')
      else if pt_worker p = pt_worker q \<and> pt_boot p = pt_boot q
      then Some (invalid ''duplicate boot identity'')
      else None)"

fun first_error :: "('a \<Rightarrow> fault option) \<Rightarrow> 'a list \<Rightarrow> fault option" where
  "first_error f [] = None"
| "first_error f (x # xs) = (case f x of Some e \<Rightarrow> Some e | None \<Rightarrow> first_error f xs)"

text \<open>\<open>for (i) for (j = i + 1)\<close>: the first offending pair decides the error.\<close>

fun pairs_error :: "Participant list \<Rightarrow> fault option" where
  "pairs_error [] = None"
| "pairs_error (p # ps) =
     (case first_error (pair_error p) ps of Some e \<Rightarrow> Some e | None \<Rightarrow> pairs_error ps)"

definition validate_group :: "GroupBuilder \<Rightarrow> fault + unit" where
  "validate_group b =
     (let ps = gb_participants b in
      if ps = [] then Inl (invalid ''group has zero participants'')
      else if gen_is_null (gb_membership b)
      then Inl (invalid ''group requires a membership generation'')
      else if gen_is_null (gb_topology b)
      then Inl (invalid ''group requires a topology generation'')
      else case pairs_error ps of
        Some e \<Rightarrow> Inl e
      | None \<Rightarrow>
          if list_ex (\<lambda>i. raw (pt_rank (ps ! i)) \<noteq> of_nat i) [0..<length ps]
          then Inl (invalid ''rank hole or non-dense rank representation'')
          else if list_ex (\<lambda>p. id_is_null (pt_worker p) \<or> id_is_null (pt_boot p)) ps
          then Inl (invalid ''participant requires worker and boot identity'')
          else Inr ())"

definition build :: "GroupBuilder \<Rightarrow> (fault + CollectiveGroup) \<times> GroupBuilder" where
  "build b0 =
     (let b = b0\<lparr>gb_participants := assign_ranks (gb_participants b0)\<rparr>
      in (sbind (validate_group b) (\<lambda>_.
            Inr \<lparr>cg_id = gb_id b, cg_generation = gb_generation b, cg_membership = gb_membership b,
                 cg_topology = gb_topology b, cg_health = gb_health b, cg_backend = gb_backend b,
                 cg_lifecycle = gb_lifecycle b, cg_provenance = gb_provenance b,
                 cg_participants = gb_participants b\<rparr>), b))"

section \<open>What the builder accepts\<close>

lemma first_error_None: "first_error f xs = None \<longleftrightarrow> (\<forall>x\<in>set xs. f x = None)"
  by (induction xs) (auto split: option.splits)

lemma pair_error_None:
  "pair_error p q = None \<longleftrightarrow>
     pt_id p \<noteq> pt_id q \<and> pt_rank p \<noteq> pt_rank q \<and> (pt_worker p, pt_boot p) \<noteq> (pt_worker q, pt_boot q)"
  by (auto simp: pair_error_def)

lemma pairs_error_None:
  "pairs_error ps = None \<longleftrightarrow>
     distinct (map pt_id ps) \<and> distinct (map pt_rank ps) \<and>
     distinct (map (\<lambda>p. (pt_worker p, pt_boot p)) ps)"
proof (induction ps)
  case Nil
  then show ?case by simp
next
  case (Cons p ps)
  have "pairs_error (p # ps) = None \<longleftrightarrow>
      (\<forall>q\<in>set ps. pair_error p q = None) \<and> pairs_error ps = None"
    by (auto simp: first_error_None [symmetric] split: option.splits)
  then show ?case by (auto simp: Cons.IH pair_error_None)
qed

definition dense :: "Participant list \<Rightarrow> bool" where
  "dense ps = (\<forall>i<length ps. raw (pt_rank (ps ! i)) = of_nat i)"

lemma validate_group_ok:
  "validate_group b = Inr u \<longleftrightarrow>
     gb_participants b \<noteq> [] \<and> \<not> gen_is_null (gb_membership b) \<and> \<not> gen_is_null (gb_topology b) \<and>
     distinct (map pt_id (gb_participants b)) \<and> distinct (map pt_rank (gb_participants b)) \<and>
     distinct (map (\<lambda>p. (pt_worker p, pt_boot p)) (gb_participants b)) \<and>
     dense (gb_participants b) \<and>
     (\<forall>p\<in>set (gb_participants b). \<not> id_is_null (pt_worker p) \<and> \<not> id_is_null (pt_boot p))"
  using pairs_error_None [of "gb_participants b"]
  by (auto simp: validate_group_def Let_def dense_def list_ex_iff split: option.splits if_splits)

text \<open>A dense list starts with rank 0, which is the null rank.\<close>

lemma dense_has_null: "dense ps \<Longrightarrow> ps \<noteq> [] \<Longrightarrow> list_ex (\<lambda>p. id_is_null (pt_rank p)) ps"
  by (cases ps) (auto simp: dense_def id_is_null_def)

definition ranked :: "Participant list \<Rightarrow> Participant list" where
  "ranked ps = map (\<lambda>i. (ps ! i)\<lparr>pt_rank := StrongId (of_nat i)\<rparr>) [0..<length ps]"

lemma assign_ranks_eq:
  "assign_ranks ps =
     (if list_ex (\<lambda>p. id_is_null (pt_rank p)) ps then ranked (sort_key pt_id ps) else sort_key pt_rank ps)"
  by (simp add: assign_ranks_def ranked_def Let_def)

lemma length_ranked [simp]: "length (ranked ps) = length ps"
  by (simp add: ranked_def)

lemma ranked_nth [simp]: "i < length ps \<Longrightarrow> ranked ps ! i = (ps ! i)\<lparr>pt_rank := StrongId (of_nat i)\<rparr>"
  by (simp add: ranked_def)

lemma map_ranked:
  assumes "\<And>p r. f (p\<lparr>pt_rank := r\<rparr>) = f p"
  shows "map f (ranked ps) = map f ps"
  by (rule nth_equalityI) (simp_all add: assms)

lemma ranked_dense: "dense (ranked ps)"
  by (simp add: dense_def)

lemma ranked_distinct: "distinct (map pt_rank (ranked ps)) \<longleftrightarrow> length ps \<le> 2 ^ 64"
proof
  assume "length ps \<le> 2 ^ 64"
  then have "inj_on (\<lambda>i. of_nat i :: u64) {0..<length ps}"
    by (intro inj_onI) (metis atLeastLessThan_iff order_less_le_trans unat_of_nat_u64)
  then show "distinct (map pt_rank (ranked ps))"
    by (auto simp: ranked_def distinct_map comp_def inj_on_def)
next
  assume d: "distinct (map pt_rank (ranked ps))"
  show "length ps \<le> 2 ^ 64"
  proof (rule ccontr)
    assume long: "\<not> length ps \<le> 2 ^ 64"
    obtain N :: nat where N: "N = 2 ^ 64" by simp
    with long have lt: "N < length ps" "0 < length ps" by auto
    have z: "of_nat N = (0 :: u64)" by (rule word_of_nat_eq_0_iff [THEN iffD2]) (simp add: N)
    have "map pt_rank (ranked ps) ! N = map pt_rank (ranked ps) ! 0"
      using lt by (simp add: z)
    then have "N = 0" using nth_eq_iff_index_eq [OF d, of N 0] lt by simp
    with N show False by simp
  qed
qed

definition builder_ok :: "GroupBuilder \<Rightarrow> bool" where
  "builder_ok b =
     (gb_participants b \<noteq> [] \<and> length (gb_participants b) \<le> 2 ^ 64 \<and>
      \<not> gen_is_null (gb_membership b) \<and> \<not> gen_is_null (gb_topology b) \<and>
      distinct (map pt_id (gb_participants b)) \<and>
      distinct (map (\<lambda>p. (pt_worker p, pt_boot p)) (gb_participants b)) \<and>
      list_all (\<lambda>p. \<not> id_is_null (pt_worker p) \<and> \<not> id_is_null (pt_boot p)) (gb_participants b) \<and>
      list_ex (\<lambda>p. id_is_null (pt_rank p)) (gb_participants b))"

definition group_of :: "GroupBuilder \<Rightarrow> CollectiveGroup" where
  "group_of b =
     \<lparr>cg_id = gb_id b, cg_generation = gb_generation b, cg_membership = gb_membership b,
      cg_topology = gb_topology b, cg_health = gb_health b, cg_backend = gb_backend b,
      cg_lifecycle = gb_lifecycle b, cg_provenance = gb_provenance b,
      cg_participants = ranked (sort_key pt_id (gb_participants b))\<rparr>"

lemma distinct_sort_key: "distinct (map f (sort_key k xs)) \<longleftrightarrow> distinct (map f xs)"
  by (metis distinct_map distinct_sort mset_map mset_sort set_sort distinct_count_atmost_1)

lemma set_ranked:
  assumes "\<And>p r. P (p\<lparr>pt_rank := r\<rparr>) = P p"
  shows "(\<forall>p\<in>set (ranked ps). P p) \<longleftrightarrow> (\<forall>p\<in>set ps. P p)"
  by (auto simp: all_set_conv_all_nth assms)

lemma validate_ranked:
  assumes "list_ex (\<lambda>p. id_is_null (pt_rank p)) (gb_participants b)"
  shows "validate_group (b\<lparr>gb_participants := assign_ranks (gb_participants b)\<rparr>) = Inr u \<longleftrightarrow> builder_ok b"
proof -
  let ?s = "sort_key pt_id (gb_participants b)"
  have "map pt_id (ranked ?s) = map pt_id ?s"
    "map (\<lambda>p. (pt_worker p, pt_boot p)) (ranked ?s) = map (\<lambda>p. (pt_worker p, pt_boot p)) ?s"
    by (simp_all add: map_ranked)
  moreover have "(\<forall>p\<in>set (ranked ?s). \<not> id_is_null (pt_worker p) \<and> \<not> id_is_null (pt_boot p)) \<longleftrightarrow>
      (\<forall>p\<in>set (gb_participants b). \<not> id_is_null (pt_worker p) \<and> \<not> id_is_null (pt_boot p))"
    by (subst set_ranked) simp_all
  moreover have "ranked ?s = [] \<longleftrightarrow> gb_participants b = []"
    by (metis length_0_conv length_ranked length_sort)
  ultimately show ?thesis
    using assms
    by (auto simp: validate_group_ok assign_ranks_eq builder_ok_def ranked_distinct ranked_dense
        distinct_sort_key list_all_iff)
qed

lemma validate_explicit:
  assumes "\<not> list_ex (\<lambda>p. id_is_null (pt_rank p)) (gb_participants b)"
  shows "validate_group (b\<lparr>gb_participants := assign_ranks (gb_participants b)\<rparr>) \<noteq> Inr u"
  using assms dense_has_null [of "sort_key pt_rank (gb_participants b)"]
  by (auto simp: validate_group_ok assign_ranks_eq list_ex_iff)

lemma build_ok_iff: "fst (build b) = Inr g \<longleftrightarrow> builder_ok b \<and> g = group_of b"
proof (cases "list_ex (\<lambda>p. id_is_null (pt_rank p)) (gb_participants b)")
  case True
  from validate_ranked [OF True, of "()"] show ?thesis
    using True by (auto simp: build_def Let_def err_simps group_of_def assign_ranks_eq)
next
  case False
  from validate_explicit [OF False] have "fst (build b) \<noteq> Inr g"
    by (auto simp: build_def Let_def err_simps)
  moreover from False have "\<not> builder_ok b" by (simp add: builder_ok_def)
  ultimately show ?thesis by simp
qed

lemma first_error_validation:
  "first_error f xs = Some e \<Longrightarrow> \<exists>x\<in>set xs. f x = Some e"
  by (induction xs) (auto split: option.splits)

lemma pairs_error_validation: "pairs_error ps = Some e \<Longrightarrow> \<exists>m. e = invalid m"
  by (induction ps)
    (auto split: option.splits dest!: first_error_validation simp: pair_error_def split: if_splits)

lemma validate_group_error: "validate_group b = Inl e \<Longrightarrow> \<exists>m. e = invalid m"
  using pairs_error_validation by (auto simp: validate_group_def Let_def split: option.splits if_splits)

section \<open>Lookups in a built group\<close>

definition group_wf :: "CollectiveGroup \<Rightarrow> bool" where
  "group_wf g =
     (cg_participants g \<noteq> [] \<and> dense (cg_participants g) \<and>
      \<not> gen_is_null (cg_membership g) \<and> \<not> gen_is_null (cg_topology g) \<and>
      distinct (map pt_id (cg_participants g)) \<and> distinct (map pt_rank (cg_participants g)) \<and>
      distinct (map (\<lambda>p. (pt_worker p, pt_boot p)) (cg_participants g)) \<and>
      (\<forall>p\<in>set (cg_participants g). \<not> id_is_null (pt_worker p) \<and> \<not> id_is_null (pt_boot p)))"

lemma build_wf [inv_intros]: "fst (build b) = Inr g \<Longrightarrow> group_wf g"
  by (auto simp: build_def Let_def err_simps validate_group_ok group_wf_def)

lemma find_distinct:
  "distinct (map f xs) \<Longrightarrow> i < length xs \<Longrightarrow> find (\<lambda>x. f x = f (xs ! i)) xs = Some (xs ! i)"
  by (auto simp: find_Some_iff nth_eq_iff_index_eq distinct_conv_nth)

lemma wf_participant_at:
  assumes "group_wf g" "i < cg_rank_count g"
  shows "participant_at g (StrongId (of_nat i)) = Some (cg_participants g ! i)"
proof -
  have "pt_rank (cg_participants g ! i) = StrongId (of_nat i)"
    using assms by (metis StrongId_raw cg_rank_count_def dense_def group_wf_def)
  with find_distinct [of pt_rank "cg_participants g" i] assms show ?thesis
    by (simp add: participant_at_def group_wf_def cg_rank_count_def)
qed

lemma wf_rank_of:
  assumes "group_wf g" "i < cg_rank_count g"
  shows "rank_of g (pt_id (cg_participants g ! i)) = Some (StrongId (of_nat i))"
proof -
  have "pt_rank (cg_participants g ! i) = StrongId (of_nat i)"
    using assms by (metis StrongId_raw cg_rank_count_def dense_def group_wf_def)
  with find_distinct [of pt_id "cg_participants g" i] assms show ?thesis
    by (simp add: participant_def rank_of_def group_wf_def cg_rank_count_def)
qed

section \<open>What the digest covers\<close>

lemma participant_bytes_inject:
  "participant_bytes p = participant_bytes q \<longleftrightarrow> p = q"
  by (auto simp: participant_bytes_def w_u64_inject boolean_codec.enc_inject StrongId.expand
      Generation.expand)

lemma length_participant_bytes [simp]: "length (participant_bytes p) = 57"
  by (simp add: participant_bytes_def)

lemma concat_blocks_inject:
  "length ps = length qs \<Longrightarrow>
    concat (map participant_bytes ps) = concat (map participant_bytes qs) \<longleftrightarrow> ps = qs"
  by (induction ps qs rule: list_induct2) (auto simp: append_eq_append_conv participant_bytes_inject)

section \<open>Properties\<close>

text \<open>C17: \<open>GroupBuilder::build\<close> returns a group for exactly the valid builders, and then the group has the
  participants in the order of their ids with ranks \<open>0..n-1\<close> in that order, whatever ranks were
  asked for; every other builder is rejected with a validation error. In particular a builder
  whose ranks are all explicit and non-null is never accepted.\<close>
theorem group_build_iff:
  "(fst (build b) = Inr g) = (builder_ok b \<and> g = group_of b) \<and>
   (\<exists>m. fst (build b) = Inl (Error ErrorCode.VALIDATION m)) = (\<not> builder_ok b)"
proof -
  have "\<exists>m. fst (build b) = Inl (invalid m)" if "\<not> builder_ok b"
  proof (cases "fst (build b)")
    case (Inl e)
    then show ?thesis by (auto simp: build_def Let_def err_simps dest: validate_group_error)
  next
    case (Inr h)
    with that show ?thesis by (simp add: build_ok_iff)
  qed
  moreover have "fst (build b) \<noteq> Inl e" if "builder_ok b" for e
    using that build_ok_iff [of b "group_of b"] by simp
  ultimately show ?thesis using build_ok_iff [of b g] by blast
qed

text \<open>Rank assignment is deterministic: participants registered in another order give the same group,
  hence the same digest.\<close>
theorem group_independent_of_order:
  assumes "fst (build b) = Inr g" "mset ps = mset (gb_participants b)"
  shows "fst (build (b\<lparr>gb_participants := ps\<rparr>)) = Inr g"
proof -
  from assms(1) have ok: "builder_ok b" and g: "g = group_of b" by (simp_all add: build_ok_iff)
  have set: "set ps = set (gb_participants b)" using assms(2) by (metis set_mset_mset)
  have len: "length ps = length (gb_participants b)" using assms(2) by (metis size_mset)
  have dist: "distinct (map f ps) \<longleftrightarrow> distinct (map f (gb_participants b))"
    for f :: "Participant \<Rightarrow> 'k"
    by (rule mset_eq_imp_distinct_iff) (simp add: assms(2))
  from ok dist [of pt_id] dist [of "\<lambda>p. (pt_worker p, pt_boot p)"]
  have "builder_ok (b\<lparr>gb_participants := ps\<rparr>)"
    using set len by (auto simp: builder_ok_def list_all_iff list_ex_iff)
  moreover have "sort_key pt_id ps = sort_key pt_id (gb_participants b)"
  proof (rule sort_key_inj_key_eq)
    show "mset ps = mset (sort_key pt_id (gb_participants b))" using assms(2) by simp
    show "inj_on pt_id (set ps)" using ok set by (simp add: builder_ok_def distinct_map)
  qed simp
  ultimately show ?thesis by (simp add: build_ok_iff g group_of_def)
qed

definition sample_participant :: "u64 \<Rightarrow> Participant" where
  "sample_participant n =
     \<lparr>pt_id = StrongId n, pt_worker = StrongId n, pt_boot = StrongId (n + 100), pt_node = StrongId 1,
      pt_device = StrongId n, pt_rank = null_id, pt_backend_generation = Generation 1,
      pt_is_known = True\<rparr>"

definition sample_builder :: GroupBuilder where
  "sample_builder =
     (new_group_builder (StrongId 5) (Generation 1))
       \<lparr>gb_participants := [sample_participant 1, sample_participant 2]\<rparr>"

lemma sample_builder_ok: "builder_ok sample_builder"
  by (simp add: builder_ok_def sample_builder_def new_group_builder_def sample_participant_def
      gen_is_null_def id_is_null_def)

lemma sample_builder_builds: "fst (build sample_builder) = Inr (group_of sample_builder)"
  by (simp add: build_ok_iff sample_builder_ok)

theorem group_independent_of_order_witness:
  "fst (build (sample_builder\<lparr>gb_participants := [sample_participant 2, sample_participant 1]\<rparr>)) =
     Inr (group_of sample_builder)"
  by (rule group_independent_of_order [OF sample_builder_builds]) (simp add: sample_builder_def)

text \<open>In every built group the ranks are a bijection: the participant at rank \<open>i\<close> is the \<open>i\<close>-th one,
  asking for its rank by its id gives \<open>i\<close> back, there is no participant at a rank beyond the last,
  and exactly the boots of its participants have authority.\<close>
theorem built_group_ranks:
  assumes "fst (build b) = Inr g" "i < cg_rank_count g"
  shows "\<exists>p. participant_at g (StrongId (of_nat i)) = Some p \<and> p = cg_participants g ! i \<and>
    rank_of g (pt_id p) = Some (StrongId (of_nat i)) \<and> participant g (pt_id p) = Some p \<and>
    is_live_authority g (pt_boot p) \<and> \<not> is_live_authority g null_id"
proof -
  have wf: "group_wf g" using assms(1) by (rule build_wf)
  have "\<forall>p\<in>set (cg_participants g). pt_boot p \<noteq> null_id"
    using wf by (auto simp: group_wf_def id_is_null_def)
  moreover have "participant g (pt_id (cg_participants g ! i)) = Some (cg_participants g ! i)"
    using wf assms(2) find_distinct [of pt_id "cg_participants g" i]
    by (simp add: participant_def group_wf_def cg_rank_count_def)
  ultimately show ?thesis
    using wf_participant_at [OF wf assms(2)] wf_rank_of [OF wf assms(2)] assms(2)
    by (auto simp: is_live_authority_def list_ex_iff cg_rank_count_def)
qed

theorem built_group_ranks_witness:
  "\<exists>p. participant_at (group_of sample_builder) (StrongId (of_nat 1)) = Some p \<and>
    p = cg_participants (group_of sample_builder) ! 1 \<and>
    rank_of (group_of sample_builder) (pt_id p) = Some (StrongId (of_nat 1)) \<and>
    participant (group_of sample_builder) (pt_id p) = Some p \<and>
    is_live_authority (group_of sample_builder) (pt_boot p) \<and>
    \<not> is_live_authority (group_of sample_builder) null_id"
  by (rule built_group_ranks [OF sample_builder_builds])
    (simp add: cg_rank_count_def group_of_def sample_builder_def)

text \<open>The bytes that a group digest hashes determine the group: two groups have the same bytes only if
  they agree in everything but their provenance.\<close>
theorem group_bytes_injective:
  "group_bytes g = group_bytes h \<longleftrightarrow> g\<lparr>cg_provenance := s\<rparr> = h\<lparr>cg_provenance := s\<rparr>"
proof
  assume eq: "group_bytes g = group_bytes h"
  have "length (concat (map participant_bytes ps)) = 57 * length ps" for ps
    by (induction ps) simp_all
  then have "length (group_bytes x) = 57 + 57 * length (cg_participants x)" for x
    by (simp add: group_bytes_def)
  from this [of g] this [of h] eq have len: "length (cg_participants g) = length (cg_participants h)"
    by simp
  from eq show "g\<lparr>cg_provenance := s\<rparr> = h\<lparr>cg_provenance := s\<rparr>"
    by (auto simp: group_bytes_def w_u64_inject w_u8_def len concat_blocks_inject StrongId.expand
        Generation.expand group_lifecycle_byte.to_byte_inject)
next
  assume eq: "g\<lparr>cg_provenance := s\<rparr> = h\<lparr>cg_provenance := s\<rparr>"
  have "group_bytes x = group_bytes (x\<lparr>cg_provenance := s\<rparr>)" for x by (simp add: group_bytes_def)
  with eq show "group_bytes g = group_bytes h" by metis
qed

end
