(* ===== verification/CF_Descriptor.thy ===== *)
theory CF_Descriptor
  imports CF_Canonical CF_Sha256 CF_Enums
begin

text \<open>
  \<open>collective/descriptor.hpp\<close>: the collective descriptor, its size computations, its validation and
  the bytes of its canonical digest. The fluent mutators are the record updates; \<open>root\<close> also sets
  \<open>has_root_\<close>. A \<open>Datatype\<close> outside the enum (the code's \<open>0xff\<close> test) has no value here.
\<close>

section \<open>Descriptors\<close>

datatype InPlace = OUT_OF_PLACE | IN_PLACE

fun in_place_to_u8 :: "InPlace \<Rightarrow> u8" where
  "in_place_to_u8 OUT_OF_PLACE = 0"
| "in_place_to_u8 IN_PLACE = 1"

record CollectiveDescriptor =
  cd_collective_id :: CollectiveId
  cd_group_id :: CollectiveGroupId
  cd_group_generation :: GroupGeneration
  cd_collective_generation :: CollectiveGeneration
  cd_kind :: CollectiveKind
  cd_reduction :: ReductionOp
  cd_datatype :: Datatype
  cd_element_count :: u64
  cd_root :: RankId
  cd_has_root :: bool
  cd_requested_backend :: BackendId
  cd_policy_generation :: PolicyGeneration
  cd_source :: Source
  cd_intent :: SchedulingIntent
  cd_in_place :: InPlace
  cd_constraints :: "TransportClass list"
  cd_input_placement :: BufferPlacement
  cd_output_placement :: BufferPlacement

definition default_descriptor :: CollectiveDescriptor where
  "default_descriptor =
     \<lparr>cd_collective_id = null_id, cd_group_id = null_id, cd_group_generation = null_gen,
      cd_collective_generation = null_gen, cd_kind = CollectiveKind.BARRIER, cd_reduction = NONE,
      cd_datatype = BYTE, cd_element_count = 0, cd_root = null_id, cd_has_root = False,
      cd_requested_backend = null_id, cd_policy_generation = null_gen, cd_source = null_source,
      cd_intent = DEFAULT, cd_in_place = OUT_OF_PLACE, cd_constraints = [],
      cd_input_placement = HOST, cd_output_placement = HOST\<rparr>"

definition set_root :: "RankId \<Rightarrow> CollectiveDescriptor \<Rightarrow> CollectiveDescriptor" where
  "set_root r d = d\<lparr>cd_root := r, cd_has_root := True\<rparr>"

definition element_byte_count :: "CollectiveDescriptor \<Rightarrow> fault + u64" where
  "element_byte_count d =
     or_throw (checked_mul (cd_element_count d) (datatype_size_bytes (cd_datatype d)))
       (Error ARITHMETIC_OVERFLOW ''element_count * datatype_size overflows uint64'')"

definition aggregate_byte_count :: "u64 \<Rightarrow> CollectiveDescriptor \<Rightarrow> fault + u64" where
  "aggregate_byte_count rank_count d =
     sbind (or_throw (checked_mul (cd_element_count d) (datatype_size_bytes (cd_datatype d)))
              (Error ARITHMETIC_OVERFLOW ''element_count * datatype_size overflows uint64'')) (\<lambda>per.
     or_throw (checked_mul per rank_count)
       (Error ARITHMETIC_OVERFLOW ''per-rank * rank_count overflows uint64''))"

definition validate_descriptor :: "CollectiveDescriptor \<Rightarrow> fault + unit" where
  "validate_descriptor d =
     (let k = cd_kind d in
      sbind (if k = REDUCE \<or> k = ALL_REDUCE \<or> k = REDUCE_SCATTER
             then throw_if (cd_reduction d = NONE)
               (Error ErrorCode.VALIDATION ''reduction collective requires a reduction operation'')
             else if k = CollectiveKind.BARRIER \<or> k = BROADCAST
             then throw_if (cd_reduction d \<noteq> NONE)
               (Error ErrorCode.VALIDATION ''barrier/broadcast must not carry a reduction operation'')
             else Inr ()) (\<lambda>_.
      sbind (throw_if (datatype_size_bytes (cd_datatype d) = 0)
               (Error ErrorCode.VALIDATION ''datatype has no known byte size'')) (\<lambda>_.
      if k = CollectiveKind.BARRIER then Inr ()
      else
        sbind (element_byte_count d) (\<lambda>_.
        sbind (throw_if ((k = BROADCAST \<or> k = REDUCE) \<and> \<not> cd_has_root d)
                 (Error ErrorCode.VALIDATION ''broadcast/reduce requires a root rank'')) (\<lambda>_.
        throw_if ((k = BROADCAST \<or> k = REDUCE \<or> k = ALL_REDUCE \<or> k = ALL_GATHER \<or> k = REDUCE_SCATTER) \<and>
                  cd_element_count d = 0)
          (Error ErrorCode.VALIDATION ''payload collectives require a nonzero element count''))))))"

definition descriptor_bytes :: "CollectiveDescriptor \<Rightarrow> bytes" where
  "descriptor_bytes d =
     w_u64 (raw (cd_collective_id d)) @ w_u64 (raw (cd_group_id d)) @
     w_u64 (gen_value (cd_group_generation d)) @ w_u64 (gen_value (cd_collective_generation d)) @
     w_u8 (collective_kind_to_u8 (cd_kind d)) @ w_u8 (reduction_op_to_u8 (cd_reduction d)) @
     w_u8 (datatype_to_u8 (cd_datatype d)) @ w_u64 (cd_element_count d) @
     w_u64 (raw (cd_root d)) @ w_boolean (cd_has_root d) @ w_u8 (in_place_to_u8 (cd_in_place d)) @
     w_u64 (raw (cd_requested_backend d)) @ w_u64 (gen_value (cd_policy_generation d)) @
     w_u8 (buffer_placement_to_u8 (cd_input_placement d)) @
     w_u8 (buffer_placement_to_u8 (cd_output_placement d)) @
     w_u8 (scheduling_intent_to_u8 (cd_intent d)) @ w_u64 (of_nat (length (cd_constraints d))) @
     concat (map (\<lambda>t. w_u8 (transport_class_to_u8 t)) (cd_constraints d))"

definition canonical_digest :: "CollectiveDescriptor \<Rightarrow> bytes" where
  "canonical_digest d = sha256 (descriptor_bytes d)"

section \<open>Sizes and validity\<close>

lemma datatype_size_range: "datatype_size_bytes t \<in> {1, 4, 8}"
  by (cases t) simp_all

definition payload_size :: "CollectiveDescriptor \<Rightarrow> nat" where
  "payload_size d = unat (cd_element_count d) * unat (datatype_size_bytes (cd_datatype d))"

lemma element_byte_count_eq:
  "element_byte_count d =
     (if payload_size d < 2 ^ 64 then Inr (of_nat (payload_size d))
      else Inl (Error ARITHMETIC_OVERFLOW ''element_count * datatype_size overflows uint64''))"
  by (simp add: element_byte_count_def checked_mul_eq payload_size_def)

lemma element_byte_count_unat: "element_byte_count d = Inr c \<Longrightarrow> unat c = payload_size d"
  by (auto simp: element_byte_count_eq unat_of_nat_u64 split: if_splits)

lemma aggregate_byte_count_ok:
  "aggregate_byte_count n d = Inr c \<longleftrightarrow>
     payload_size d < 2 ^ 64 \<and> payload_size d * unat n < 2 ^ 64 \<and> c = of_nat (payload_size d * unat n)"
  by (auto simp: aggregate_byte_count_def checked_mul_eq payload_size_def err_simps unat_mult_u64)

definition valid_descriptor :: "CollectiveDescriptor \<Rightarrow> bool" where
  "valid_descriptor d =
     (case cd_kind d of
        CollectiveKind.BARRIER \<Rightarrow> cd_reduction d = NONE
      | BROADCAST \<Rightarrow> cd_reduction d = NONE \<and> cd_has_root d \<and> 0 < payload_size d \<and> payload_size d < 2 ^ 64
      | REDUCE \<Rightarrow> cd_reduction d \<noteq> NONE \<and> cd_has_root d \<and> 0 < payload_size d \<and> payload_size d < 2 ^ 64
      | ALL_GATHER \<Rightarrow> 0 < payload_size d \<and> payload_size d < 2 ^ 64
      | _ \<Rightarrow> cd_reduction d \<noteq> NONE \<and> 0 < payload_size d \<and> payload_size d < 2 ^ 64)"

lemma payload_size_pos: "0 < payload_size d \<longleftrightarrow> cd_element_count d \<noteq> 0"
  by (auto simp: payload_size_def unat_eq_0 unat_gt_0)

lemma validate_descriptor_ok: "validate_descriptor d = Inr u \<longleftrightarrow> valid_descriptor d"
  by (cases "cd_kind d")
    (auto simp: validate_descriptor_def valid_descriptor_def err_simps element_byte_count_eq
      payload_size_pos Let_def split: if_splits)

section \<open>What the digest covers\<close>

lemma enum_u8_inject:
  "collective_kind_to_u8 k = collective_kind_to_u8 k' \<longleftrightarrow> k = k'"
  "reduction_op_to_u8 r = reduction_op_to_u8 r' \<longleftrightarrow> r = r'"
  "datatype_to_u8 d = datatype_to_u8 d' \<longleftrightarrow> d = d'"
  "in_place_to_u8 i = in_place_to_u8 i' \<longleftrightarrow> i = i'"
  "buffer_placement_to_u8 b = buffer_placement_to_u8 b' \<longleftrightarrow> b = b'"
  "scheduling_intent_to_u8 s = scheduling_intent_to_u8 s' \<longleftrightarrow> s = s'"
  "transport_class_to_u8 t = transport_class_to_u8 t' \<longleftrightarrow> t = t'"
        apply (cases k; cases k'; simp)
       apply (cases r; cases r'; simp)
      apply (cases d; cases d'; simp)
     apply (cases i; cases i'; simp)
    apply (cases b; cases b'; simp)
   apply (cases s; cases s'; simp)
  apply (cases t; cases t'; simp)
  done

section \<open>Properties\<close>


text \<open>The payload sizes are exact and never wrap: a size is returned exactly when the true product
  fits in 64 bits, and otherwise an overflow error is thrown.\<close>
theorem payload_sizes_exact:
  "(element_byte_count d = Inr c) = (payload_size d = unat c) \<and>
   (aggregate_byte_count n d = Inr t) = (payload_size d < 2 ^ 64 \<and> payload_size d * unat n = unat t) \<and>
   (\<exists>m. element_byte_count d = Inl (Error ARITHMETIC_OVERFLOW m)) = (2 ^ 64 \<le> payload_size d)"
proof -
  have "x < 2 ^ 64 \<and> v = of_nat x \<longleftrightarrow> x = unat v" for x and v :: u64
    using unat_of_nat_u64 [of x] unat_u64_less [of v] by auto
  from this [of "payload_size d" c] this [of "payload_size d * unat n" t] show ?thesis
    by (auto simp: element_byte_count_eq aggregate_byte_count_ok)
qed

text \<open>The bytes that the canonical digest hashes determine the descriptor: two descriptors have the
  same bytes only if they agree in everything but their source.\<close>
theorem descriptor_bytes_injective:
  "descriptor_bytes d = descriptor_bytes e \<longleftrightarrow> d\<lparr>cd_source := s\<rparr> = e\<lparr>cd_source := s\<rparr>"
proof
  assume eq: "descriptor_bytes d = descriptor_bytes e"
  have "length (concat (map (\<lambda>t. w_u8 (transport_class_to_u8 t)) ts)) = length ts" for ts
    by (induction ts) simp_all
  then have "length (descriptor_bytes x) = 80 + length (cd_constraints x)" for x
    by (simp add: descriptor_bytes_def)
  from this [of d] this [of e] eq have len: "length (cd_constraints d) = length (cd_constraints e)"
    by simp
  have "concat (map (\<lambda>t. w_u8 (transport_class_to_u8 t)) ts) =
      concat (map (\<lambda>t. w_u8 (transport_class_to_u8 t)) us) \<longleftrightarrow> ts = us" if "length ts = length us" for ts us
    using that by (induction ts us rule: list_induct2) (simp_all add: w_u8_def enum_u8_inject)
  from this [OF len] eq show "d\<lparr>cd_source := s\<rparr> = e\<lparr>cd_source := s\<rparr>"
    by (auto simp: descriptor_bytes_def w_u64_inject w_u8_def w_boolean_def len enum_u8_inject
        StrongId.expand Generation.expand split: if_splits)
next
  assume eq: "d\<lparr>cd_source := s\<rparr> = e\<lparr>cd_source := s\<rparr>"
  have "descriptor_bytes x = descriptor_bytes (x\<lparr>cd_source := s\<rparr>)" for x
    by (simp add: descriptor_bytes_def)
  with eq show "descriptor_bytes d = descriptor_bytes e" by metis
qed

end
