(* ===== verification/CF_Topology.thy ===== *)
theory CF_Topology
  imports CF_Canonical CF_Sha256 CF_Enums "HOL-Library.Multiset"
begin

text \<open>
  \<open>topology.hpp\<close>: the portable topology model. Nodes and devices take their ids from one counter of
  the object; links may only join known nodes and devices. The creation time is the clock's and is
  an argument of \<open>new_topology\<close>.
\<close>

section \<open>Links, nodes, devices\<close>

record LinkCapability =
  bandwidth :: "u64 option"
  latency :: "u64 option"

definition no_capability :: LinkCapability where
  "no_capability = \<lparr>bandwidth = None, latency = None\<rparr>"

definition capability_known :: "LinkCapability \<Rightarrow> bool" where
  "capability_known c = (bandwidth c \<noteq> None \<or> latency c \<noteq> None)"

record TopologyLink =
  tl_source_node :: NodeId
  tl_dest_node :: NodeId
  tl_source_device :: DeviceId
  tl_dest_device :: DeviceId
  tl_class :: LinkClass
  tl_nominal :: LinkCapability
  tl_measured :: LinkCapability
  tl_provenance :: ProvenanceKind
  tl_health :: HealthState
  tl_snapshot :: TopologyGeneration
  tl_degraded :: bool

record NodeEntry =
  ne_id :: NodeId
  ne_host_name :: string
  ne_devices :: "DeviceId list"

record DeviceEntry =
  de_id :: DeviceId
  de_node :: NodeId
  de_name :: string
  de_is_cuda :: bool
  de_compute_capability :: u32
  de_is_known :: bool

record Topology =
  tp_generation :: TopologyGeneration
  tp_provenance :: TopologyProvenance
  tp_created_utc_ns :: u64
  tp_next_id :: u64
  tp_nodes :: "NodeEntry list"
  tp_devices :: "DeviceEntry list"
  tp_links :: "TopologyLink list"

section \<open>Operations\<close>

definition new_topology :: "TopologyGeneration \<Rightarrow> u64 \<Rightarrow> Topology" where
  "new_topology g now =
     \<lparr>tp_generation = g, tp_provenance = TopologyProvenance.UNKNOWN, tp_created_utc_ns = now,
      tp_next_id = 1, tp_nodes = [], tp_devices = [], tp_links = []\<rparr>"

definition set_provenance :: "TopologyProvenance \<Rightarrow> Topology \<Rightarrow> Topology" where
  "set_provenance p t = t\<lparr>tp_provenance := p\<rparr>"

definition has_node :: "Topology \<Rightarrow> NodeId \<Rightarrow> bool" where
  "has_node t n = list_ex (\<lambda>e. ne_id e = n) (tp_nodes t)"

definition has_device :: "Topology \<Rightarrow> DeviceId \<Rightarrow> bool" where
  "has_device t d = list_ex (\<lambda>e. de_id e = d) (tp_devices t)"

definition add_node :: "string \<Rightarrow> Topology \<Rightarrow> NodeId \<times> Topology" where
  "add_node host t =
     (let i = StrongId (tp_next_id t)
      in (i, t\<lparr>tp_next_id := tp_next_id t + 1,
              tp_nodes := tp_nodes t @ [\<lparr>ne_id = i, ne_host_name = host, ne_devices = []\<rparr>]\<rparr>))"

definition add_device :: "NodeId \<Rightarrow> string \<Rightarrow> bool \<Rightarrow> u32 \<Rightarrow> Topology \<Rightarrow> fault + DeviceId \<times> Topology" where
  "add_device node name is_cuda cc t =
     (if \<not> has_node t node then Inl (Error ErrorCode.VALIDATION ''add_device: unknown node'')
      else let i = StrongId (tp_next_id t)
        in Inr (i, t\<lparr>tp_next_id := tp_next_id t + 1,
              tp_devices := tp_devices t @
                [\<lparr>de_id = i, de_node = node, de_name = name, de_is_cuda = is_cuda,
                  de_compute_capability = cc, de_is_known = True\<rparr>],
              tp_nodes := map (\<lambda>n. if ne_id n = node then n\<lparr>ne_devices := ne_devices n @ [i]\<rparr> else n)
                (tp_nodes t)\<rparr>))"

definition add_link :: "TopologyLink \<Rightarrow> Topology \<Rightarrow> fault + Topology" where
  "add_link l t =
     (if \<not> has_node t (tl_source_node l) \<or> \<not> has_node t (tl_dest_node l)
      then Inl (Error ErrorCode.VALIDATION ''add_link: unknown node'')
      else if \<not> has_device t (tl_source_device l) \<or> \<not> has_device t (tl_dest_device l)
      then Inl (Error ErrorCode.VALIDATION ''add_link: unknown device'')
      else Inr (t\<lparr>tp_links := tp_links t @ [l\<lparr>tl_snapshot := tp_generation t\<rparr>]\<rparr>))"

definition node_count :: "Topology \<Rightarrow> nat" where
  "node_count t = length (tp_nodes t)"

definition node_of :: "Topology \<Rightarrow> DeviceId \<Rightarrow> NodeId option" where
  "node_of t d = map_option de_node (find (\<lambda>e. de_id e = d) (tp_devices t))"

definition device_with_capacity :: "Topology \<Rightarrow> NodeId \<Rightarrow> bool \<Rightarrow> DeviceId option" where
  "device_with_capacity t n cuda =
     map_option de_id (find (\<lambda>e. de_node e = n \<and> de_is_cuda e = cuda) (tp_devices t))"

definition joins :: "DeviceId \<Rightarrow> DeviceId \<Rightarrow> TopologyLink \<Rightarrow> bool" where
  "joins a b l =
     ((tl_source_device l = a \<and> tl_dest_device l = b) \<or>
      (tl_source_device l = b \<and> tl_dest_device l = a))"

definition link_between :: "Topology \<Rightarrow> DeviceId \<Rightarrow> DeviceId \<Rightarrow> LinkCapability option" where
  "link_between t a b =
     (case find (joins a b) (tp_links t) of
        None \<Rightarrow> None
      | Some l \<Rightarrow>
          if capability_known (tl_measured l) then Some (tl_measured l)
          else if capability_known (tl_nominal l) then Some (tl_nominal l)
          else Some no_capability)"

fun link_class_rank :: "LinkClass \<Rightarrow> int" where
  "link_class_rank LinkClass.INTRA_PROCESS = 0"
| "link_class_rank LinkClass.SHARED_MEMORY = 1"
| "link_class_rank LinkClass.HOST_MEMORY = 2"
| "link_class_rank LinkClass.NVLINK_CLASS = 3"
| "link_class_rank LinkClass.RDMA_CLASS = 4"
| "link_class_rank LinkClass.PCIE = 5"
| "link_class_rank LinkClass.NETWORK = 6"
| "link_class_rank LinkClass.UNKNOWN = 7"

definition same_node :: "Topology \<Rightarrow> DeviceId \<Rightarrow> DeviceId \<Rightarrow> bool" where
  "same_node t a b = (node_of t a \<noteq> None \<and> node_of t a = node_of t b)"

fun best_class :: "DeviceId \<Rightarrow> DeviceId \<Rightarrow> LinkClass option \<Rightarrow> TopologyLink list \<Rightarrow> LinkClass option" where
  "best_class a b best [] = best"
| "best_class a b best (l # ls) =
     best_class a b
       (if joins a b l \<and>
           (case best of None \<Rightarrow> True | Some c \<Rightarrow> link_class_rank (tl_class l) < link_class_rank c)
        then Some (tl_class l) else best) ls"

definition locality_between :: "Topology \<Rightarrow> DeviceId \<Rightarrow> DeviceId \<Rightarrow> LinkClass option" where
  "locality_between t a b =
     (if same_node t a b then Some LinkClass.INTRA_PROCESS else best_class a b None (tp_links t))"

text \<open>\<open>d * (d - 1) / 2\<close> in \<open>size_t\<close>: for \<open>d = 0\<close> the difference wraps and the product is 0.\<close>

definition intra_node_device_pairs :: "Topology \<Rightarrow> u64" where
  "intra_node_device_pairs t =
     foldl (\<lambda>count n. let d = of_nat (length (ne_devices n)) in count + d * (d - 1) div 2) 0 (tp_nodes t)"

section \<open>Canonical bytes\<close>

fun link_class_to_u8 :: "LinkClass \<Rightarrow> u8" where
  "link_class_to_u8 LinkClass.INTRA_PROCESS = 0"
| "link_class_to_u8 LinkClass.HOST_MEMORY = 1"
| "link_class_to_u8 LinkClass.PCIE = 2"
| "link_class_to_u8 LinkClass.NVLINK_CLASS = 3"
| "link_class_to_u8 LinkClass.NETWORK = 4"
| "link_class_to_u8 LinkClass.RDMA_CLASS = 5"
| "link_class_to_u8 LinkClass.SHARED_MEMORY = 6"
| "link_class_to_u8 LinkClass.UNKNOWN = 7"

fun topology_provenance_to_u8 :: "TopologyProvenance \<Rightarrow> u8" where
  "topology_provenance_to_u8 TopologyProvenance.MEASURED = 0"
| "topology_provenance_to_u8 TopologyProvenance.REPORTED = 1"
| "topology_provenance_to_u8 TopologyProvenance.DERIVED = 2"
| "topology_provenance_to_u8 TopologyProvenance.SYNTHETIC = 3"
| "topology_provenance_to_u8 TopologyProvenance.UNKNOWN = 4"

fun provenance_kind_to_u8 :: "ProvenanceKind \<Rightarrow> u8" where
  "provenance_kind_to_u8 ProvenanceKind.MEASURED = 0"
| "provenance_kind_to_u8 ProvenanceKind.REPORTED = 1"
| "provenance_kind_to_u8 ProvenanceKind.DERIVED = 2"
| "provenance_kind_to_u8 ProvenanceKind.SYNTHETIC = 3"
| "provenance_kind_to_u8 ProvenanceKind.UNKNOWN = 4"

definition opt_bytes :: "u64 option \<Rightarrow> bytes" where
  "opt_bytes v = w_boolean (v \<noteq> None) @ (case v of None \<Rightarrow> [] | Some x \<Rightarrow> w_u64 x)"

definition node_bytes :: "NodeEntry \<Rightarrow> bytes" where
  "node_bytes n = w_u64 (raw (ne_id n)) @ w_string (ne_host_name n)"

definition device_bytes :: "DeviceEntry \<Rightarrow> bytes" where
  "device_bytes d =
     w_u64 (raw (de_id d)) @ w_u64 (raw (de_node d)) @ w_string (de_name d) @
     w_boolean (de_is_cuda d) @ w_u32 (de_compute_capability d) @ w_boolean (de_is_known d)"

definition link_bytes :: "TopologyLink \<Rightarrow> bytes" where
  "link_bytes l =
     w_u64 (raw (tl_source_node l)) @ w_u64 (raw (tl_dest_node l)) @
     w_u64 (raw (tl_source_device l)) @ w_u64 (raw (tl_dest_device l)) @
     w_u8 (link_class_to_u8 (tl_class l)) @
     opt_bytes (bandwidth (tl_nominal l)) @ opt_bytes (latency (tl_nominal l)) @
     opt_bytes (bandwidth (tl_measured l)) @ opt_bytes (latency (tl_measured l)) @
     w_u8 (provenance_kind_to_u8 (tl_provenance l)) @ w_u8 (health_state_to_u8 (tl_health l)) @
     w_boolean (tl_degraded l)"

definition topology_bytes :: "Topology \<Rightarrow> bytes" where
  "topology_bytes t =
     w_u64 (gen_value (tp_generation t)) @ w_u8 (topology_provenance_to_u8 (tp_provenance t)) @
     w_u64 (tp_created_utc_ns t) @
     w_u64 (of_nat (length (tp_nodes t))) @ concat (map node_bytes (tp_nodes t)) @
     w_u64 (of_nat (length (tp_devices t))) @ concat (map device_bytes (tp_devices t)) @
     w_u64 (of_nat (length (tp_links t))) @ concat (map link_bytes (tp_links t))"

definition topology_digest :: "Topology \<Rightarrow> bytes" where
  "topology_digest t = sha256 (topology_bytes t)"

section \<open>Construction\<close>

text \<open>The calls that build a topology; one that throws leaves it as it was.\<close>

datatype topology_call =
    AddNode string
  | AddDevice NodeId string bool u32
  | AddLink TopologyLink
  | SetProvenance TopologyProvenance

fun topology_step :: "topology_call \<Rightarrow> Topology \<Rightarrow> Topology" where
  "topology_step (AddNode h) t = snd (add_node h t)"
| "topology_step (AddDevice n name cuda cc) t =
     (case add_device n name cuda cc t of Inl e \<Rightarrow> t | Inr (i, t') \<Rightarrow> t')"
| "topology_step (AddLink l) t = (case add_link l t of Inl e \<Rightarrow> t | Inr t' \<Rightarrow> t')"
| "topology_step (SetProvenance p) t = set_provenance p t"

text \<open>
  Well-formedness: all ids lie below the counter and are distinct, every device is listed by exactly
  the node it names and by no other, and links join known nodes and devices at this generation.
\<close>

definition all_ids :: "Topology \<Rightarrow> u64 list" where
  "all_ids t = map (\<lambda>n. raw (ne_id n)) (tp_nodes t) @ map (\<lambda>d. raw (de_id d)) (tp_devices t)"

definition ids_ok :: "Topology \<Rightarrow> bool" where
  "ids_ok t =
     (distinct (all_ids t) \<and> (\<forall>i\<in>set (all_ids t). i \<noteq> 0 \<and> unat i < unat (tp_next_id t)) \<and>
      unat (tp_next_id t) = 1 + length (all_ids t))"

definition devices_ok :: "Topology \<Rightarrow> bool" where
  "devices_ok t =
     ((\<forall>d\<in>set (tp_devices t). has_node t (de_node d)) \<and>
      (\<forall>n\<in>set (tp_nodes t).
         ne_devices n = map de_id (filter (\<lambda>d. de_node d = ne_id n) (tp_devices t))))"

definition links_ok :: "Topology \<Rightarrow> bool" where
  "links_ok t =
     (\<forall>l\<in>set (tp_links t). has_node t (tl_source_node l) \<and> has_node t (tl_dest_node l) \<and>
        has_device t (tl_source_device l) \<and> has_device t (tl_dest_device l) \<and>
        tl_snapshot l = tp_generation t)"

definition topology_wf :: "Topology \<Rightarrow> bool" where
  "topology_wf t = (ids_ok t \<and> devices_ok t \<and> links_ok t)"

lemma has_node_iff: "has_node t n \<longleftrightarrow> n \<in> set (map ne_id (tp_nodes t))"
  by (auto simp: has_node_def list_ex_iff)

lemma has_device_iff: "has_device t d \<longleftrightarrow> d \<in> set (map de_id (tp_devices t))"
  by (auto simp: has_device_def list_ex_iff)

lemma topology_wf_new [inv_intros]: "topology_wf (new_topology g now)"
  by (simp add: topology_wf_def ids_ok_def devices_ok_def links_ok_def all_ids_def new_topology_def)

lemma next_id_suc: "unat (x :: u64) < 18446744073709551615 \<Longrightarrow> unat (x + 1) = unat x + 1"
  by (simp add: unat_plus_u64)

text \<open>Taking the next id for a new entry, whichever list it goes to.\<close>

lemma ids_ok_extend:
  assumes ok: "ids_ok t" and room: "unat (tp_next_id t) < 18446744073709551615"
    and ids: "mset (all_ids t') = add_mset (tp_next_id t) (mset (all_ids t))"
    and nxt: "tp_next_id t' = tp_next_id t + 1"
  shows "ids_ok t'"
proof -
  have set: "set (all_ids t') = insert (tp_next_id t) (set (all_ids t))"
    using arg_cong [OF ids, of set_mset] by simp
  have "length (all_ids t') = Suc (length (all_ids t))"
    using arg_cong [OF ids, of size] by simp
  moreover have "tp_next_id t \<notin> set (all_ids t)" using ok by (auto simp: ids_ok_def)
  then have "distinct (all_ids t')"
    using ok mset_eq_imp_distinct_iff [of "all_ids t'" "tp_next_id t # all_ids t"] ids
    by (simp add: ids_ok_def)
  moreover have "tp_next_id t \<noteq> 0" using ok by (auto simp: ids_ok_def)
  ultimately show ?thesis
    using ok room unfolding ids_ok_def set nxt by (auto simp: next_id_suc)
qed

lemma topology_wf_add_node [inv_intros]:
  assumes wf: "topology_wf t" and room: "unat (tp_next_id t) < 18446744073709551615"
  shows "topology_wf (snd (add_node h t))"
proof -
  let ?x = "tp_next_id t" and ?t = "snd (add_node h t)"
  have t: "tp_next_id ?t = ?x + 1" "tp_devices ?t = tp_devices t" "tp_links ?t = tp_links t"
    "tp_generation ?t = tp_generation t"
    "tp_nodes ?t = tp_nodes t @ [\<lparr>ne_id = StrongId ?x, ne_host_name = h, ne_devices = []\<rparr>]"
    by (simp_all add: add_node_def Let_def)
  have n: "has_node ?t m \<longleftrightarrow> m = StrongId ?x \<or> has_node t m" and d: "has_device ?t i = has_device t i" for m i
    by (auto simp: has_node_iff has_device_iff t)
  have "?x \<notin> set (all_ids t)" using wf by (auto simp: topology_wf_def ids_ok_def)
  then have "\<not> has_node t (StrongId ?x)"
    by (auto simp: has_node_iff all_ids_def image_iff dest: arg_cong [where f = raw])
  then have none: "filter (\<lambda>d. de_node d = StrongId ?x) (tp_devices t) = []"
    using wf by (auto simp: topology_wf_def devices_ok_def filter_empty_conv)
  have "ids_ok ?t"
    by (rule ids_ok_extend [OF _ room]) (use wf in \<open>simp_all add: topology_wf_def all_ids_def t\<close>)
  moreover have "devices_ok ?t"
    using wf none by (auto simp: topology_wf_def devices_ok_def n t)
  moreover have "links_ok ?t"
    using wf unfolding topology_wf_def links_ok_def n d t by blast
  ultimately show ?thesis by (simp add: topology_wf_def)
qed

lemma topology_wf_add_device [inv_intros]:
  assumes wf: "topology_wf t" and room: "unat (tp_next_id t) < 18446744073709551615"
    and ok: "add_device node name cuda cc t = Inr (i, t')"
  shows "topology_wf t'"
proof -
  let ?x = "tp_next_id t"
  let ?dev = "\<lparr>de_id = StrongId ?x, de_node = node, de_name = name, de_is_cuda = cuda,
    de_compute_capability = cc, de_is_known = True\<rparr>"
  let ?upd = "\<lambda>n. if ne_id n = node then n\<lparr>ne_devices := ne_devices n @ [StrongId ?x]\<rparr> else n"
  from ok have known: "has_node t node"
    and t: "tp_next_id t' = ?x + 1" "tp_devices t' = tp_devices t @ [?dev]" "tp_links t' = tp_links t"
      "tp_generation t' = tp_generation t" "tp_nodes t' = map ?upd (tp_nodes t)"
    by (auto simp: add_device_def Let_def split: if_splits)
  have ids: "map ne_id (tp_nodes t') = map ne_id (tp_nodes t)" by (simp add: t)
  have rids: "map (\<lambda>n. raw (ne_id n)) (tp_nodes t') = map (\<lambda>n. raw (ne_id n)) (tp_nodes t)" by (simp add: t)
  have n: "has_node t' m = has_node t m" and d: "has_device t' j \<longleftrightarrow> j = StrongId ?x \<or> has_device t j" for m j
    unfolding has_node_iff has_device_iff ids by (auto simp: t)
  have "ids_ok t'"
    by (rule ids_ok_extend [OF _ room]) (use wf in \<open>simp_all only: topology_wf_def all_ids_def t(1,2) rids, simp_all\<close>)
  moreover have "\<forall>n\<in>set (tp_nodes t'). ne_devices n = map de_id (filter (\<lambda>d. de_node d = ne_id n) (tp_devices t'))"
    using wf by (auto simp: topology_wf_def devices_ok_def t)
  then have "devices_ok t'"
    using wf known unfolding topology_wf_def devices_ok_def n by (auto simp: t(2))
  moreover have "links_ok t'"
    using wf unfolding topology_wf_def links_ok_def n d t(3,4) by blast
  ultimately show ?thesis by (simp add: topology_wf_def)
qed

lemma topology_wf_add_link [inv_intros]:
  assumes wf: "topology_wf t" and ok: "add_link l t = Inr t'"
  shows "topology_wf t'"
proof -
  from ok have t: "t' = t\<lparr>tp_links := tp_links t @ [l\<lparr>tl_snapshot := tp_generation t\<rparr>]\<rparr>"
    and l: "has_node t (tl_source_node l)" "has_node t (tl_dest_node l)"
      "has_device t (tl_source_device l)" "has_device t (tl_dest_device l)"
    by (auto simp: add_link_def split: if_splits)
  have same: "has_node t' m = has_node t m" "has_device t' i = has_device t i" "all_ids t' = all_ids t"
    "tp_next_id t' = tp_next_id t" "tp_devices t' = tp_devices t" "tp_nodes t' = tp_nodes t"
    "tp_generation t' = tp_generation t" for m i
    by (simp_all add: t has_node_def has_device_def all_ids_def)
  have "ids_ok t'" "devices_ok t'"
    using wf unfolding topology_wf_def ids_ok_def devices_ok_def same by blast+
  moreover have "links_ok t'"
    using wf l unfolding topology_wf_def links_ok_def same by (auto simp: t)
  ultimately show ?thesis by (simp add: topology_wf_def)
qed

lemma topology_wf_set_provenance [inv_intros]:
  assumes wf: "topology_wf t"
  shows "topology_wf (set_provenance p t)"
proof -
  have same: "has_node (set_provenance p t) m = has_node t m"
    "has_device (set_provenance p t) i = has_device t i" "all_ids (set_provenance p t) = all_ids t"
    "tp_next_id (set_provenance p t) = tp_next_id t" "tp_devices (set_provenance p t) = tp_devices t"
    "tp_nodes (set_provenance p t) = tp_nodes t" "tp_links (set_provenance p t) = tp_links t"
    "tp_generation (set_provenance p t) = tp_generation t" for m i
    by (simp_all add: set_provenance_def has_node_def has_device_def all_ids_def)
  from wf show ?thesis
    unfolding topology_wf_def ids_ok_def devices_ok_def links_ok_def same by blast
qed

lemma topology_step_next:
  "unat (tp_next_id t) < 18446744073709551615 \<Longrightarrow>
    unat (tp_next_id (topology_step c t)) \<le> unat (tp_next_id t) + 1"
  by (cases c)
    (auto simp: add_node_def add_device_def add_link_def set_provenance_def Let_def next_id_suc)

lemma topology_wf_step:
  assumes "topology_wf t" "unat (tp_next_id t) < 18446744073709551615"
  shows "topology_wf (topology_step c t)"
  using assms
  by (cases c)
    (auto split: sum.split intro: topology_wf_add_device topology_wf_add_link topology_wf_add_node
      topology_wf_set_provenance)

lemma topology_wf_run:
  assumes "topology_wf t" "unat (tp_next_id t) + length cs < 18446744073709551616"
  shows "topology_wf (fold topology_step cs t)"
  using assms
proof (induction cs arbitrary: t)
  case Nil
  then show ?case by simp
next
  case (Cons c cs)
  with topology_wf_step [of t c] topology_step_next [of t c] show ?case by simp
qed

section \<open>Queries\<close>

lemma best_class_spec:
  "best_class a b best ls = None \<longleftrightarrow> best = None \<and> (\<forall>l\<in>set ls. \<not> joins a b l)"
  by (induction ls arbitrary: best) auto

lemma best_class_least:
  assumes "best_class a b best ls = Some c"
  shows "(best = Some c \<or> (\<exists>l\<in>set ls. joins a b l \<and> tl_class l = c)) \<and>
    (\<forall>l\<in>set ls. joins a b l \<longrightarrow> link_class_rank c \<le> link_class_rank (tl_class l)) \<and>
    (\<forall>x. best = Some x \<longrightarrow> link_class_rank c \<le> link_class_rank x)"
  using assms
proof (induction ls arbitrary: best)
  case Nil
  then show ?case by simp
next
  case (Cons l ls)
  show ?case
    using Cons.IH [OF Cons.prems [unfolded best_class.simps]]
    by (auto split: if_splits option.splits)
qed

section \<open>Properties\<close>

text \<open>However a topology is built, as long as the id counter does not wrap, its ids are non-null and
  distinct, every device is listed by exactly the node it belongs to, and every link joins known
  nodes and devices at the generation of the topology.\<close>
theorem built_topology_is_well_formed:
  assumes "length cs < 2 ^ 64 - 1"
  shows "topology_wf (fold topology_step cs (new_topology g now))"
  using topology_wf_run [OF topology_wf_new, of g now cs] assms by (simp add: new_topology_def)

theorem built_topology_is_well_formed_witness:
  "topology_wf (fold topology_step
     [AddNode ''h'', AddDevice (StrongId 1) ''gpu'' True 120, AddDevice (StrongId 9) ''x'' False 0]
     (new_topology (Generation 1) 0))"
  by (rule built_topology_is_well_formed) simp

text \<open>\<open>locality_between\<close> answers \<open>INTRA_PROCESS\<close> for devices of one node, and otherwise the most
  local class among the links that join the two devices in either direction, none when no link
  joins them; the answer does not depend on the order of the two devices.\<close>
theorem locality_is_most_local_link:
  "(case locality_between t a b of
      None \<Rightarrow> \<not> same_node t a b \<and> list_all (\<lambda>l. \<not> joins a b l) (tp_links t)
    | Some c \<Rightarrow> (same_node t a b \<and> c = LinkClass.INTRA_PROCESS) \<or>
        list_ex (\<lambda>l. joins a b l \<and> tl_class l = c) (tp_links t) \<and>
        list_all (\<lambda>l. link_class_rank c \<le> link_class_rank (tl_class l)) (filter (joins a b) (tp_links t))) \<and>
   locality_between t b a = locality_between t a b"
proof -
  have sym: "joins b a = joins a b" by (auto simp: joins_def fun_eq_iff)
  have same: "same_node t b a = same_node t a b" by (metis same_node_def)
  have swap: "best_class b a best ls = best_class a b best ls" for best ls
    by (induction ls arbitrary: best) (simp_all add: sym)
  have "locality_between t b a = locality_between t a b"
    by (simp add: locality_between_def same swap)
  then show ?thesis
    using best_class_spec [of a b None "tp_links t"] best_class_least [of a b None "tp_links t"]
    by (auto simp: locality_between_def list_all_iff list_ex_iff split: option.split)
qed

end
