(* ===== verification/CF_Engine.thy ===== *)
theory CF_Engine
  imports CF_Enums "HOL-Library.Multiset"
begin

text \<open>
  \<open>reference/engine.hpp\<close>: the in-process reference collective engine. Contributions and results are
  byte sequences; a \<open>Span\<close> is the bytes it points at. The engine reinterprets them as arrays of the
  datatype on a little-endian host. What the C++ code leaves undefined (a subscript out of range, a
  copy past the end of a buffer, a signed overflow) is the result \<open>Inl Undefined\<close>. The values of
  floating-point operations are implementation-defined in C++, so they are the parameter
  \<open>float_ops\<close>, on bit patterns.
\<close>

unbundle bit_operations_syntax

section \<open>Elements\<close>

definition le_load :: "bytes \<Rightarrow> 'w::len word" where
  "le_load bs = foldr (\<lambda>b v. push_bit 8 v OR ucast b) bs 0"

definition le_store :: "nat \<Rightarrow> 'w::len word \<Rightarrow> bytes" where
  "le_store k w = map (\<lambda>i. ucast (drop_bit (8 * i) w)) [0..<k]"

definition load_elems :: "nat \<Rightarrow> nat \<Rightarrow> bytes \<Rightarrow> 'w::len word list" where
  "load_elems k n p = map (\<lambda>i. le_load (take k (drop (i * k) p))) [0..<n]"

definition store_elems :: "nat \<Rightarrow> 'w::len word list \<Rightarrow> bytes" where
  "store_elems k ws = concat (map (le_store k) ws)"

section \<open>Operations on one element\<close>

type_synonym 'w elem_op = "'w word \<Rightarrow> 'w word \<Rightarrow> ReductionOp \<Rightarrow> fault + 'w word"

text \<open>A signed result that does not fit is a signed overflow.\<close>

definition signed_result :: "int \<Rightarrow> fault + 'w::len word" where
  "signed_result v =
     (if - (2 ^ (LENGTH('w) - 1)) \<le> v \<and> v < 2 ^ (LENGTH('w) - 1) then Inr (word_of_int v) else Inl Undefined)"

fun op_signed :: "'w::len elem_op" where
  "op_signed a b ReductionOp.SUM = signed_result (sint a + sint b)"
| "op_signed a b ReductionOp.PRODUCT = signed_result (sint a * sint b)"
| "op_signed a b ReductionOp.MIN = Inr (if sint a < sint b then a else b)"
| "op_signed a b ReductionOp.MAX = Inr (if sint a > sint b then a else b)"
| "op_signed a b ReductionOp.NONE = Inr b"

fun op_unsigned :: "'w::len elem_op" where
  "op_unsigned a b ReductionOp.SUM = Inr (a + b)"
| "op_unsigned a b ReductionOp.PRODUCT = Inr (a * b)"
| "op_unsigned a b ReductionOp.MIN = Inr (if a < b then a else b)"
| "op_unsigned a b ReductionOp.MAX = Inr (if a > b then a else b)"
| "op_unsigned a b ReductionOp.NONE = Inr b"

record 'b fp =
  fp_add :: "'b \<Rightarrow> 'b \<Rightarrow> 'b"
  fp_mul :: "'b \<Rightarrow> 'b \<Rightarrow> 'b"
  fp_less :: "'b \<Rightarrow> 'b \<Rightarrow> bool"

record float_ops =
  fp32 :: "32 word fp"
  fp64 :: "64 word fp"

fun opf :: "'w::len word fp \<Rightarrow> 'w elem_op" where
  "opf F a b ReductionOp.SUM = Inr (fp_add F a b)"
| "opf F a b ReductionOp.PRODUCT = Inr (fp_mul F a b)"
| "opf F a b ReductionOp.MIN = Inr (if fp_less F a b then a else b)"
| "opf F a b ReductionOp.MAX = Inr (if fp_less F b a then a else b)"
| "opf F a b ReductionOp.NONE = Inr b"

definition reduce_i32 :: "32 elem_op" where "reduce_i32 = op_signed"
definition reduce_u32 :: "32 elem_op" where "reduce_u32 = op_unsigned"
definition reduce_i64 :: "64 elem_op" where "reduce_i64 = op_signed"
definition reduce_f32 :: "float_ops \<Rightarrow> 32 elem_op" where "reduce_f32 F = opf (fp32 F)"
definition reduce_f64 :: "float_ops \<Rightarrow> 64 elem_op" where "reduce_f64 F = opf (fp64 F)"

section \<open>Reduction\<close>

text \<open>\<open>for (i) dst[i] = opfn(dst[i], src[i], op)\<close>\<close>

fun combine :: "('w word \<Rightarrow> 'w word \<Rightarrow> fault + 'w word) \<Rightarrow> 'w word list \<Rightarrow> 'w word list \<Rightarrow> fault + 'w::len word list" where
  "combine f (d # ds) (s # ss) = sbind (f d s) (\<lambda>x. sbind (combine f ds ss) (\<lambda>xs. Inr (x # xs)))"
| "combine f _ _ = Inr []"

definition do_reduce ::
  "nat \<Rightarrow> bytes list \<Rightarrow> ReductionOp \<Rightarrow> nat \<Rightarrow> nat \<Rightarrow> 'w::len elem_op \<Rightarrow> fault + bytes" where
  "do_reduce k inputs op per_bytes rank_count opfn =
     (let n = per_bytes div k in
      if inputs = [] then Inl Undefined
      else
        sbind (foldl (\<lambda>acc r. sbind acc (\<lambda>dst. combine (\<lambda>a b. opfn a b op) dst (load_elems k n (inputs ! r))))
                 (Inr (load_elems k n (inputs ! 0))) [1..<rank_count]) (\<lambda>dst.
        Inr (store_elems k dst)))"

fun reduce_into ::
  "float_ops \<Rightarrow> Datatype \<Rightarrow> bytes list \<Rightarrow> ReductionOp \<Rightarrow> nat \<Rightarrow> nat \<Rightarrow> fault + bytes" where
  "reduce_into F INT32 inputs op per ranks = do_reduce 4 inputs op per ranks reduce_i32"
| "reduce_into F UINT32 inputs op per ranks = do_reduce 4 inputs op per ranks reduce_u32"
| "reduce_into F INT64 inputs op per ranks = do_reduce 8 inputs op per ranks reduce_i64"
| "reduce_into F FLOAT32 inputs op per ranks = do_reduce 4 inputs op per ranks (reduce_f32 F)"
| "reduce_into F FLOAT64 inputs op per ranks = do_reduce 8 inputs op per ranks (reduce_f64 F)"
| "reduce_into F BYTE inputs op per ranks =
     Inl (Error ErrorCode.VALIDATION ''reference engine: BYTE datatype not valid for reduction'')"

section \<open>The collectives\<close>

definition checksize :: "bytes list \<Rightarrow> nat \<Rightarrow> nat \<Rightarrow> fault + unit" where
  "checksize inputs per ranks =
     (if length inputs < ranks
      then Inl (Error ErrorCode.VALIDATION ''reference engine: missing rank contribution'')
      else throw_if (list_ex (\<lambda>r. length (inputs ! r) \<noteq> per) [0..<ranks])
             (Error ErrorCode.VALIDATION ''reference engine: rank contribution size mismatch''))"

definition barrier :: "nat \<Rightarrow> bytes list" where
  "barrier ranks = replicate ranks []"

definition broadcast :: "bytes list \<Rightarrow> nat \<Rightarrow> nat \<Rightarrow> nat \<Rightarrow> fault + bytes list" where
  "broadcast inputs per root ranks =
     (if root \<ge> length inputs \<or> length (inputs ! root) \<noteq> per
      then Inl (Error ErrorCode.VALIDATION ''broadcast: root input size mismatch'')
      else Inr (replicate ranks (inputs ! root)))"

definition reduce :: "float_ops \<Rightarrow> bytes list \<Rightarrow> Datatype \<Rightarrow> ReductionOp \<Rightarrow> nat \<Rightarrow> nat \<Rightarrow> nat \<Rightarrow> fault + bytes list" where
  "reduce F inputs dt op per root ranks =
     sbind (checksize inputs per ranks) (\<lambda>_.
     if root \<ge> ranks then Inl Undefined
     else sbind (reduce_into F dt inputs op per ranks) (\<lambda>out.
       Inr ((replicate ranks [])[root := out])))"

definition all_reduce :: "float_ops \<Rightarrow> bytes list \<Rightarrow> Datatype \<Rightarrow> ReductionOp \<Rightarrow> nat \<Rightarrow> nat \<Rightarrow> fault + bytes list" where
  "all_reduce F inputs dt op per ranks =
     sbind (checksize inputs per ranks) (\<lambda>_.
     if ranks = 0 then Inl Undefined
     else sbind (reduce_into F dt inputs op per ranks) (\<lambda>out. Inr (replicate ranks out)))"

text \<open>Iteration \<open>r\<close> checks the size of its own input only, then copies from all of them.\<close>

fun gather_from :: "bytes list \<Rightarrow> nat \<Rightarrow> nat \<Rightarrow> nat list \<Rightarrow> fault + bytes list" where
  "gather_from inputs per ranks [] = Inr []"
| "gather_from inputs per ranks (r # rs) =
     (if r \<ge> length inputs then Inl Undefined
      else if length (inputs ! r) \<noteq> per
      then Inl (Error ErrorCode.VALIDATION ''all_gather: rank input size mismatch'')
      else if list_ex (\<lambda>i. i \<ge> length inputs \<or> length (inputs ! i) < per) [0..<ranks] then Inl Undefined
      else sbind (gather_from inputs per ranks rs) (\<lambda>outs.
        Inr (concat (map (\<lambda>i. take per (inputs ! i)) [0..<ranks]) # outs)))"

definition all_gather :: "bytes list \<Rightarrow> nat \<Rightarrow> nat \<Rightarrow> fault + bytes list" where
  "all_gather inputs per ranks = gather_from inputs per ranks [0..<ranks]"

fun sizes_from :: "bytes list \<Rightarrow> nat \<Rightarrow> nat list \<Rightarrow> fault + unit" where
  "sizes_from inputs tot [] = Inr ()"
| "sizes_from inputs tot (r # rs) =
     (if r \<ge> length inputs then Inl Undefined
      else if length (inputs ! r) \<noteq> tot
      then Inl (Error ErrorCode.VALIDATION ''reduce_scatter: rank input size mismatch'')
      else sizes_from inputs tot rs)"

fun scatter_blocks ::
  "float_ops \<Rightarrow> bytes list \<Rightarrow> Datatype \<Rightarrow> ReductionOp \<Rightarrow> nat \<Rightarrow> nat \<Rightarrow> nat list \<Rightarrow> fault + bytes list" where
  "scatter_blocks F inputs dt op per ranks [] = Inr []"
| "scatter_blocks F inputs dt op per ranks (b # bs) =
     sbind (reduce_into F dt (map (\<lambda>r. take per (drop (b * per) (inputs ! r))) [0..<ranks]) op per ranks) (\<lambda>out.
     sbind (scatter_blocks F inputs dt op per ranks bs) (\<lambda>outs. Inr (out # outs)))"

definition reduce_scatter :: "float_ops \<Rightarrow> bytes list \<Rightarrow> Datatype \<Rightarrow> ReductionOp \<Rightarrow> u64 \<Rightarrow> u64 \<Rightarrow> fault + bytes list" where
  "reduce_scatter F inputs dt op per ranks =
     sbind (or_throw (checked_mul per ranks) (Error ARITHMETIC_OVERFLOW ''reduce_scatter: overflow'')) (\<lambda>total.
     sbind (sizes_from inputs (unat total) [0..<unat ranks]) (\<lambda>_.
     scatter_blocks F inputs dt op (unat per) (unat ranks) [0..<unat ranks]))"

definition execute ::
  "float_ops \<Rightarrow> CollectiveKind \<Rightarrow> ReductionOp \<Rightarrow> Datatype \<Rightarrow> u64 \<Rightarrow> u64 \<Rightarrow> u64 \<Rightarrow> bytes list \<Rightarrow> fault + bytes list" where
  "execute F kind op dt element_count root ranks inputs =
     (let dt_size = datatype_size_bytes dt in
      sbind (throw_if (dt_size = 0)
        (Error ErrorCode.VALIDATION ''reference engine: unknown datatype size'')) (\<lambda>_.
      sbind (or_throw (checked_mul element_count dt_size)
        (Error ARITHMETIC_OVERFLOW ''reference engine: element_count*datatype_size overflow'')) (\<lambda>per.
      sbind (or_throw (checked_mul per ranks)
        (Error ARITHMETIC_OVERFLOW ''reference engine: rank_count*per_bytes overflow'')) (\<lambda>total.
      case kind of
        CollectiveKind.BARRIER \<Rightarrow> Inr (barrier (unat ranks))
      | BROADCAST \<Rightarrow> broadcast inputs (unat per) (unat root) (unat ranks)
      | REDUCE \<Rightarrow> reduce F inputs dt op (unat per) (unat root) (unat ranks)
      | ALL_REDUCE \<Rightarrow> all_reduce F inputs dt op (unat per) (unat ranks)
      | ALL_GATHER \<Rightarrow> all_gather inputs (unat per) (unat ranks)
      | REDUCE_SCATTER \<Rightarrow> reduce_scatter F inputs dt op per ranks))))"

section \<open>Loading and storing\<close>

lemma bit_le_load:
  "bit (le_load bs :: 'w::len word) j \<longleftrightarrow> j < LENGTH('w) \<and> j div 8 < length bs \<and> bit (bs ! (j div 8)) (j mod 8)"
proof (induction bs arbitrary: j)
  case (Cons b bs)
  show ?case
  proof (cases "j < 8")
    case True
    then show ?thesis
      by (simp add: le_load_def bit_or_iff bit_push_bit_iff bit_ucast_iff)
  next
    case False
    then have "j div 8 = Suc ((j - 8) div 8)" "j mod 8 = (j - 8) mod 8" by (simp_all add: le_div_geq le_mod_geq)
    moreover have "\<not> bit b j" using False bit_lengths(1) [of b j] by auto
    moreover have "bit (le_load (b # bs) :: 'w word) j \<longleftrightarrow> j < LENGTH('w) \<and> bit (le_load bs :: 'w word) (j - 8)"
      using False \<open>\<not> bit b j\<close> by (auto simp: le_load_def bit_or_iff bit_push_bit_iff bit_ucast_iff)
    ultimately show ?thesis using False by (auto simp: Cons.IH)
  qed
qed (simp add: le_load_def)

lemma length_le_store [simp]: "length (le_store k w) = k"
  by (simp add: le_store_def)

lemma le_load_store [simp]:
  assumes "8 * k = LENGTH('w)"
  shows "le_load (le_store k (w :: 'w::len word)) = w"
proof (rule bit_word_eqI)
  fix j assume "j < LENGTH('w)"
  moreover from this have "j div 8 < k" using assms by simp
  ultimately show "bit (le_load (le_store k w) :: 'w word) j = bit w j"
    by (simp add: bit_le_load le_store_def bit_ucast_iff bit_drop_bit_eq)
qed

lemma le_store_load [simp]:
  assumes "8 * k = LENGTH('w::len)" "length bs = k"
  shows "le_store k (le_load bs :: 'w word) = bs"
proof (rule nth_equalityI)
  fix i assume "i < length (le_store k (le_load bs :: 'w word))"
  then have i: "i < k" by simp
  show "le_store k (le_load bs :: 'w word) ! i = bs ! i"
  proof (rule bit_word_eqI)
    fix j assume "j < LENGTH(8)"
    then have "(8 * i + j) div 8 = i" "(8 * i + j) mod 8 = j" "8 * i + j < 8 * k" using i by simp_all
    then show "bit (le_store k (le_load bs :: 'w word) ! i) j = bit (bs ! i) j"
      using i assms bit_lengths(1) [of "bs ! i" j]
      by (auto simp: le_store_def bit_le_load bit_ucast_iff bit_drop_bit_eq)
  qed
qed (simp add: assms)

text \<open>The bytes of element \<open>i\<close> of an array of \<open>k\<close>-byte elements.\<close>

definition element :: "nat \<Rightarrow> nat \<Rightarrow> bytes \<Rightarrow> bytes" where
  "element k i bs = take k (drop (i * k) bs)"

lemma length_element [simp]: "length bs = n * k \<Longrightarrow> i < n \<Longrightarrow> length (element k i bs) = k"
  by (simp add: element_def) (metis Suc_leI add_le_imp_le_diff min.absorb2 mult_Suc mult_le_mono1)

lemma load_elems_nth [simp]: "i < n \<Longrightarrow> load_elems k n bs ! i = le_load (element k i bs)"
  by (simp add: load_elems_def element_def)

lemma length_load_elems [simp]: "length (load_elems k n bs) = n"
  by (simp add: load_elems_def)

lemma length_store_elems [simp]: "length (store_elems k ws) = length ws * k"
  by (induction ws) (simp_all add: store_elems_def)

lemma element_concat:
  assumes "\<forall>x \<in> set xs. length x = k" "i < length xs"
  shows "element k i (concat xs) = xs ! i"
  using assms
proof (induction xs arbitrary: i)
  case (Cons x xs)
  then show ?case by (cases i) (simp_all add: element_def)
qed simp

lemma element_store [simp]: "i < length ws \<Longrightarrow> element k i (store_elems k ws) = le_store k (ws ! i)"
  by (simp add: store_elems_def element_concat)

lemma bytes_eq_by_elements:
  assumes "length a = n * k" "length b = n * k" "\<And>i. i < n \<Longrightarrow> element k i a = element k i b"
  shows "a = b"
  using assms
proof (induction n arbitrary: a b)
  case (Suc n)
  have "take k a = take k b" using Suc.prems(3) [of 0] by (simp add: element_def)
  moreover have "drop k a = drop k b"
  proof (rule Suc.IH)
    fix i assume "i < n"
    then show "element k i (drop k a) = element k i (drop k b)"
      using Suc.prems(3) [of "Suc i"] by (simp add: element_def add.commute)
  qed (simp_all add: Suc.prems)
  ultimately show ?case by (metis append_take_drop_id)
qed simp

section \<open>Element-wise specification\<close>

definition on_bytes :: "nat \<Rightarrow> 'w::len elem_op \<Rightarrow> ReductionOp \<Rightarrow> bytes \<Rightarrow> bytes \<Rightarrow> fault + bytes" where
  "on_bytes k f op a b = map_sum (\<lambda>e. e) (le_store k) (f (le_load a) (le_load b) op)"

fun element_op :: "float_ops \<Rightarrow> Datatype \<Rightarrow> ReductionOp \<Rightarrow> bytes \<Rightarrow> bytes \<Rightarrow> fault + bytes" where
  "element_op F INT32 = on_bytes 4 reduce_i32"
| "element_op F UINT32 = on_bytes 4 reduce_u32"
| "element_op F INT64 = on_bytes 8 reduce_i64"
| "element_op F FLOAT32 = on_bytes 4 (reduce_f32 F)"
| "element_op F FLOAT64 = on_bytes 8 (reduce_f64 F)"
| "element_op F BYTE = (\<lambda>op a b. Inl Undefined)"

text \<open>The documented reduction order: a left fold in rank order, from rank 0.\<close>

definition rank_fold :: "('a \<Rightarrow> 'a \<Rightarrow> 'e + 'a) \<Rightarrow> 'a list \<Rightarrow> 'e + 'a" where
  "rank_fold f xs = foldl (\<lambda>acc x. sbind acc (\<lambda>a. f a x)) (Inr (hd xs)) (tl xs)"

lemma combine_iff:
  "length ds = length ss \<Longrightarrow>
   combine f ds ss = Inr xs \<longleftrightarrow> length xs = length ds \<and> (\<forall>i < length ds. f (ds ! i) (ss ! i) = Inr (xs ! i))"
proof (induction ds ss arbitrary: xs rule: list_induct2)
  case (Cons d ds s ss)
  then show ?case
    by (cases xs) (auto simp: err_simps All_less_Suc2 nth_Cons' gr0_conv_Suc less_Suc_eq_0_disj)
qed auto

lemma combine_fold_iff:
  assumes "length d0 = n" "\<And>r. length (L r) = n"
  shows "foldl (\<lambda>acc r. sbind acc (\<lambda>d. combine g d (L r))) (Inr d0) rs = Inr d \<longleftrightarrow>
    length d = n \<and> (\<forall>i < n. foldl (\<lambda>acc r. sbind acc (\<lambda>a. g a (L r ! i))) (Inr (d0 ! i)) rs = Inr (d ! i))"
proof (induction rs arbitrary: d rule: rev_induct)
  case Nil
  then show ?case using assms(1) by (auto intro: nth_equalityI)
next
  case (snoc r rs)
  let ?row = "foldl (\<lambda>acc r. sbind acc (\<lambda>d. combine g d (L r))) (Inr d0) rs"
  let ?col = "\<lambda>i. foldl (\<lambda>acc r. sbind acc (\<lambda>a. g a (L r ! i))) (Inr (d0 ! i)) rs"
  have "(\<exists>m. ?row = Inr m \<and> combine g m (L r) = Inr d) \<longleftrightarrow>
      length d = n \<and> (\<forall>i < n. \<exists>a. ?col i = Inr a \<and> g a (L r ! i) = Inr (d ! i))"
  proof (intro iffI)
    assume "\<exists>m. ?row = Inr m \<and> combine g m (L r) = Inr d"
    then show "length d = n \<and> (\<forall>i < n. \<exists>a. ?col i = Inr a \<and> g a (L r ! i) = Inr (d ! i))"
      using assms(2) by (auto simp: snoc.IH combine_iff)
  next
    assume *: "length d = n \<and> (\<forall>i < n. \<exists>a. ?col i = Inr a \<and> g a (L r ! i) = Inr (d ! i))"
    then obtain h where h: "\<And>i. i < n \<Longrightarrow> ?col i = Inr (h i) \<and> g (h i) (L r ! i) = Inr (d ! i)" by metis
    then have "?row = Inr (map h [0..<n])" by (simp add: snoc.IH)
    moreover have "combine g (map h [0..<n]) (L r) = Inr d"
      using * h assms(2) by (simp add: combine_iff)
    ultimately show "\<exists>m. ?row = Inr m \<and> combine g m (L r) = Inr d" by blast
  qed
  then show ?case by (simp add: sbind_eq_Inr)
qed

lemma fold_on_bytes:
  assumes "8 * k = LENGTH('w::len)"
  shows "foldl (\<lambda>acc x. sbind acc (\<lambda>a. on_bytes k (f :: 'w elem_op) op a x)) (Inr (le_store k a)) xs =
    map_sum (\<lambda>e. e) (le_store k) (foldl (\<lambda>acc x. sbind acc (\<lambda>a. f a (le_load x) op)) (Inr a) xs)"
proof (induction xs rule: rev_induct)
  case (snoc x xs)
  then show ?case using assms
    by (auto simp: on_bytes_def sbind_def split: sum.splits)
qed simp

lemma do_reduce_iff:
  fixes f :: "'w::len elem_op"
  assumes k: "8 * k = LENGTH('w)" and len: "\<And>r. r < ranks \<Longrightarrow> length (inputs ! r) = n * k"
    and ranks: "0 < ranks" "ranks \<le> length inputs"
  shows "do_reduce k inputs op (n * k) ranks f = Inr out \<longleftrightarrow>
    length out = n * k \<and>
    (\<forall>i < n. rank_fold (on_bytes k f op) (map (\<lambda>r. element k i (inputs ! r)) [0..<ranks]) = Inr (element k i out))"
proof -
  let ?col = "\<lambda>i. foldl (\<lambda>acc r. sbind acc (\<lambda>a. f a (load_elems k n (inputs ! r) ! i) op))
    (Inr (load_elems k n (inputs ! 0) ! i)) [1..<ranks]"
  have k0: "0 < k" using k by (metis len_gt_0 mult_0_right neq0_conv)
  have upt: "[0..<ranks] = 0 # [1..<ranks]" using ranks(1) by (simp add: upt_rec)
  have spec: "rank_fold (on_bytes k f op) (map (\<lambda>r. element k i (inputs ! r)) [0..<ranks]) =
      map_sum (\<lambda>e. e) (le_store k) (?col i)" if "i < n" for i
  proof -
    have "length (element k i (inputs ! 0)) = k"
      by (rule length_element [OF len that]) (rule ranks)
    then have e: "element k i (inputs ! 0) = le_store k (le_load (element k i (inputs ! 0)) :: 'w word)"
      using k by simp
    have "rank_fold (on_bytes k f op) (map (\<lambda>r. element k i (inputs ! r)) [0..<ranks]) =
        foldl (\<lambda>acc x. sbind acc (\<lambda>a. on_bytes k f op a x)) (Inr (element k i (inputs ! 0)))
          (map (\<lambda>r. element k i (inputs ! r)) [1..<ranks])"
      by (simp add: rank_fold_def upt)
    also have "\<dots> = foldl (\<lambda>acc x. sbind acc (\<lambda>a. on_bytes k f op a x))
        (Inr (le_store k (le_load (element k i (inputs ! 0)) :: 'w word)))
        (map (\<lambda>r. element k i (inputs ! r)) [1..<ranks])"
      using e by simp
    also note fold_on_bytes [OF k]
    finally show ?thesis using that by (simp add: foldl_map)
  qed
  have "do_reduce k inputs op (n * k) ranks f = Inr out \<longleftrightarrow>
      (\<exists>d. length d = n \<and> (\<forall>i < n. ?col i = Inr (d ! i)) \<and> store_elems k d = out)"
    using k0 ranks by (auto simp: do_reduce_def sbind_eq_Inr combine_fold_iff [where n = n])
  also have "\<dots> \<longleftrightarrow> length out = n * k \<and>
      (\<forall>i < n. rank_fold (on_bytes k f op) (map (\<lambda>r. element k i (inputs ! r)) [0..<ranks]) = Inr (element k i out))"
  proof (intro iffI conjI allI impI)
    assume "\<exists>d. length d = n \<and> (\<forall>i < n. ?col i = Inr (d ! i)) \<and> store_elems k d = out"
    then obtain d where d: "length d = n" "\<And>i. i < n \<Longrightarrow> ?col i = Inr (d ! i)" "store_elems k d = out" by blast
    then show "length out = n * k" by auto
    show "rank_fold (on_bytes k f op) (map (\<lambda>r. element k i (inputs ! r)) [0..<ranks]) = Inr (element k i out)"
      if "i < n" for i using that d by (auto simp: spec)
  next
    assume *: "length out = n * k \<and>
      (\<forall>i < n. rank_fold (on_bytes k f op) (map (\<lambda>r. element k i (inputs ! r)) [0..<ranks]) = Inr (element k i out))"
    have "\<exists>w. ?col i = Inr w \<and> le_store k w = element k i out" if "i < n" for i
      using * that by (cases "?col i") (auto simp: spec)
    then obtain d where d: "\<And>i. i < n \<Longrightarrow> ?col i = Inr (d i) \<and> le_store k (d i) = element k i out" by metis
    have "store_elems k (map d [0..<n]) = out"
      by (rule bytes_eq_by_elements [of _ n k]) (use * d in simp_all)
    then show "\<exists>d. length d = n \<and> (\<forall>i < n. ?col i = Inr (d ! i)) \<and> store_elems k d = out"
      using d by (intro exI [of _ "map d [0..<n]"]) simp
  qed
  finally show ?thesis .
qed

abbreviation dt_size :: "Datatype \<Rightarrow> nat" where
  "dt_size dt \<equiv> unat (datatype_size_bytes dt)"

text \<open>\<open>out\<close> holds, element by element, the fold of the contributions of the ranks in rank order.\<close>

definition reduced ::
  "float_ops \<Rightarrow> Datatype \<Rightarrow> ReductionOp \<Rightarrow> bytes list \<Rightarrow> nat \<Rightarrow> nat \<Rightarrow> bytes \<Rightarrow> bool" where
  "reduced F dt op inputs ranks n out \<longleftrightarrow>
     length out = n * dt_size dt \<and>
     (\<forall>i < n. rank_fold (element_op F dt op) (map (\<lambda>r. element (dt_size dt) i (inputs ! r)) [0..<ranks]) =
       Inr (element (dt_size dt) i out))"

lemma reduce_into_iff:
  assumes "dt \<noteq> BYTE" "\<And>r. r < ranks \<Longrightarrow> length (inputs ! r) = n * dt_size dt"
    and "0 < ranks" "ranks \<le> length inputs"
  shows "reduce_into F dt inputs op (n * dt_size dt) ranks = Inr out \<longleftrightarrow> reduced F dt op inputs ranks n out"
  using assms by (cases dt) (simp_all add: reduced_def do_reduce_iff)

lemma checksize_iff:
  "checksize inputs per ranks = Inr u \<longleftrightarrow>
     ranks \<le> length inputs \<and> (\<forall>r < ranks. length (inputs ! r) = per)"
  by (auto simp: checksize_def err_simps list_ex_iff)

lemma datatype_size_pos [simp]: "datatype_size_bytes dt \<noteq> 0" "0 < dt_size dt"
  by (cases dt; simp)+

lemma execute_sizes:
  assumes "unat ec * dt_size dt * unat ranks < 2 ^ 64" "0 < ranks"
  shows "checked_mul ec (datatype_size_bytes dt) = Some (ec * datatype_size_bytes dt)"
    "unat (ec * datatype_size_bytes dt) = unat ec * dt_size dt"
    "checked_mul (ec * datatype_size_bytes dt) ranks = Some (ec * datatype_size_bytes dt * ranks)"
    "unat (ec * datatype_size_bytes dt * ranks) = unat ec * dt_size dt * unat ranks"
proof -
  have "1 \<le> unat ranks" using assms(2) by (metis One_nat_def Suc_leI unat_gt_0 word_neq_0_conv)
  then have "unat ec * dt_size dt \<le> unat ec * dt_size dt * unat ranks" by simp
  with assms(1) have lt: "unat ec * dt_size dt < 2 ^ 64" by linarith
  then show 1: "unat (ec * datatype_size_bytes dt) = unat ec * dt_size dt" by (simp add: unat_mult_u64)
  show "unat (ec * datatype_size_bytes dt * ranks) = unat ec * dt_size dt * unat ranks"
    using assms(1) 1 unat_mult_u64 [of "ec * datatype_size_bytes dt" ranks] by simp
  show "checked_mul ec (datatype_size_bytes dt) = Some (ec * datatype_size_bytes dt)"
    using lt by (simp add: checked_mul_eq)
  show "checked_mul (ec * datatype_size_bytes dt) ranks = Some (ec * datatype_size_bytes dt * ranks)"
    using assms(1) by (simp add: checked_mul_eq 1)
qed

text \<open>A call in which every rank contributes a buffer of the size the engine expects.\<close>

definition well_sized :: "Datatype \<Rightarrow> u64 \<Rightarrow> u64 \<Rightarrow> nat \<Rightarrow> bytes list \<Rightarrow> bool" where
  "well_sized dt ec ranks per inputs \<longleftrightarrow>
     0 < ranks \<and> unat ec * dt_size dt * unat ranks < 2 ^ 64 \<and> unat ranks \<le> length inputs \<and>
     (\<forall>r < unat ranks. length (inputs ! r) = per)"

lemma execute_all_reduce_iff:
  assumes "dt \<noteq> BYTE" "well_sized dt ec ranks (unat ec * dt_size dt) inputs"
  shows "execute F ALL_REDUCE op dt ec root ranks inputs = Inr outs \<longleftrightarrow>
    (\<exists>out. outs = replicate (unat ranks) out \<and> reduced F dt op inputs (unat ranks) (unat ec) out)"
proof -
  from assms(2) have *: "0 < ranks" "unat ec * dt_size dt * unat ranks < 2 ^ 64"
    "0 < unat ranks" "unat ranks \<le> length inputs" "\<And>r. r < unat ranks \<Longrightarrow> length (inputs ! r) = unat ec * dt_size dt"
    by (simp_all add: well_sized_def unat_gt_0 word_neq_0_conv)
  note s = execute_sizes [OF *(2,1)]
  show ?thesis
    using * reduce_into_iff [OF assms(1) *(5,3,4)]
    by (auto simp: execute_def Let_def s all_reduce_def sbind_eq_Inr checksize_iff)
qed

lemma gather_from_ok:
  assumes "ranks \<le> length inputs" "\<And>r. r < ranks \<Longrightarrow> length (inputs ! r) = per" "set rs \<subseteq> {0..<ranks}"
  shows "gather_from inputs per ranks rs = Inr (replicate (length rs) (concat (take ranks inputs)))"
proof -
  have "map (\<lambda>i. take per (inputs ! i)) [0..<ranks] = take ranks inputs"
    using assms(1,2) by (intro nth_equalityI) auto
  then show ?thesis using assms
    by (induction rs) (auto simp: list_ex_iff)
qed

lemma gather_from_long:
  assumes "ranks \<le> length inputs" "\<forall>i < ranks. per \<le> length (inputs ! i)"
    "set rs \<subseteq> {0..<ranks}" "r \<in> set rs" "length (inputs ! r) \<noteq> per"
  shows "gather_from inputs per ranks rs =
    Inl (Error ErrorCode.VALIDATION ''all_gather: rank input size mismatch'')"
proof -
  have "\<not> list_ex (\<lambda>i. i \<ge> length inputs \<or> length (inputs ! i) < per) [0..<ranks]"
    using assms(1,2) by (auto simp: list_ex_iff not_less not_le)
  then show ?thesis using assms(1,3,4,5)
    by (induction rs) auto
qed

lemma execute_all_gather_eq:
  assumes "0 < ranks" "unat ec * dt_size dt * unat ranks < 2 ^ 64" "unat ranks \<le> length inputs"
    and per: "per = unat ec * dt_size dt"
  shows "execute F ALL_GATHER op dt ec root ranks inputs =
    (if length (inputs ! 0) \<noteq> per then Inl (Error ErrorCode.VALIDATION ''all_gather: rank input size mismatch'')
     else if \<exists>r < unat ranks. length (inputs ! r) < per then Inl Undefined
     else if \<exists>r < unat ranks. per < length (inputs ! r)
     then Inl (Error ErrorCode.VALIDATION ''all_gather: rank input size mismatch'')
     else Inr (replicate (unat ranks) (concat (take (unat ranks) inputs))))"
proof -
  note s = execute_sizes [OF assms(2,1)]
  have pos: "0 < unat ranks" using assms(1) by (simp add: unat_gt_0 word_neq_0_conv)
  have *: "execute F ALL_GATHER op dt ec root ranks inputs = gather_from inputs per (unat ranks) [0..<unat ranks]"
    by (simp add: execute_def s all_gather_def per)
  have upt: "[0..<unat ranks] = 0 # [1..<unat ranks]" using pos by (simp add: upt_rec)
  consider "length (inputs ! 0) \<noteq> per" | "length (inputs ! 0) = per" "\<exists>r < unat ranks. length (inputs ! r) < per"
    | r where "length (inputs ! 0) = per" "\<forall>r < unat ranks. per \<le> length (inputs ! r)"
        "r < unat ranks" "per < length (inputs ! r)"
    | "\<forall>r < unat ranks. length (inputs ! r) = per" using pos by (metis linorder_neqE_nat not_le)
  then show ?thesis
  proof cases
    case 1
    moreover have "inputs \<noteq> []" using assms(3) pos by auto
    ultimately show ?thesis by (simp add: * upt)
  next
    case 2
    then have "list_ex (\<lambda>i. i \<ge> length inputs \<or> length (inputs ! i) < per) [0..<unat ranks]"
      by (auto simp: list_ex_iff)
    then have "gather_from inputs per (unat ranks) (0 # [1..<unat ranks]) = Inl Undefined"
      using 2(1) assms(3) pos by auto
    then show ?thesis using 2 by (simp add: * upt [symmetric] del: One_nat_def)
  next
    case 3
    then show ?thesis
      using gather_from_long [of "unat ranks" inputs per "[0..<unat ranks]" r] assms(3)
      by (auto simp: * dest: leD)
  next
    case 4
    then show ?thesis
      using gather_from_ok [of "unat ranks" inputs per "[0..<unat ranks]"] assms(3) pos by (simp add: *)
  qed
qed

lemma reduce_is_all_reduce:
  assumes "root < ranks"
  shows "execute F REDUCE op dt ec root ranks inputs =
    map_sum (\<lambda>e. e) (\<lambda>outs. (replicate (unat ranks) [])[unat root := hd outs])
      (execute F ALL_REDUCE op dt ec root ranks inputs)"
proof -
  have "\<not> unat ranks \<le> unat root" "unat ranks \<noteq> 0" "ranks \<noteq> 0"
    using assms by (auto simp: word_less_nat_alt)
  then show ?thesis
    by (simp add: execute_def Let_def reduce_def all_reduce_def sbind_def map_sum_def split: sum.split)
qed

section \<open>Blocks\<close>

lemma element_of_block:
  assumes "i < n" "k * n = per" "0 < k"
  shows "element k i (take per (drop (b * per) x)) = element k (b * n + i) x"
proof -
  have "(i + 1) * k \<le> n * k" using assms(1) by (intro mult_le_mono1) simp
  then have "k \<le> per - i * k" using assms(2) by (simp add: mult.commute)
  moreover have "i * k + b * per = (b * n + i) * k"
    by (simp add: add_mult_distrib2 ac_simps flip: assms(2))
  ultimately show ?thesis by (simp add: element_def drop_take min_def)
qed

lemma all_less_mult: "(\<forall>j < m * n. P j) \<longleftrightarrow> (\<forall>b < m. \<forall>i < n. P (b * n + i :: nat))"
proof (intro iffI allI impI)
  fix b i assume "\<forall>j < m * n. P j" "b < m" "i < n"
  moreover from this have "b * n + i < m * n"
    using mult_le_mono1 [of "Suc b" m n] by simp
  ultimately show "P (b * n + i)" by blast
next
  fix j assume *: "\<forall>b < m. \<forall>i < n. P (b * n + i)" and "j < m * n"
  then have "j div n < m" "j mod n < n"
    by (simp_all add: less_mult_imp_div_less) (metis gr0I mod_less_divisor mult_0_right not_less0)
  with * have "P (j div n * n + j mod n)" by blast
  then show "P j" by simp
qed

definition block_inputs :: "bytes list \<Rightarrow> nat \<Rightarrow> nat \<Rightarrow> nat \<Rightarrow> bytes list" where
  "block_inputs inputs per ranks b = map (\<lambda>r. take per (drop (b * per) (inputs ! r))) [0..<ranks]"

lemma scatter_blocks_iff:
  "scatter_blocks F inputs dt op per ranks bs = Inr outs \<longleftrightarrow>
     length outs = length bs \<and>
     (\<forall>j < length bs. reduce_into F dt (block_inputs inputs per ranks (bs ! j)) op per ranks = Inr (outs ! j))"
proof (induction bs arbitrary: outs)
  case (Cons b bs)
  then show ?case
    by (cases outs) (auto simp: sbind_eq_Inr block_inputs_def nth_Cons' gr0_conv_Suc less_Suc_eq_0_disj)
qed auto

lemma sizes_from_iff:
  "set rs \<subseteq> {0..<length inputs} \<Longrightarrow>
   sizes_from inputs tot rs = Inr u \<longleftrightarrow> (\<forall>r \<in> set rs. length (inputs ! r) = tot)"
  by (induction rs) auto

lemma block_fits:
  assumes "b < (m :: nat)" shows "b * per + per \<le> m * per"
  by (metis assms Suc_leI add.commute mult_Suc mult_le_mono1)

lemma reduced_blocks:
  assumes "per = n * dt_size dt" "\<And>r. r < ranks \<Longrightarrow> length (inputs ! r) = ranks * per"
  shows "(\<forall>b < ranks. reduced F dt op (block_inputs inputs per ranks b) ranks n (outs ! b)) \<and> length outs = ranks \<longleftrightarrow>
    length outs = ranks \<and> (\<forall>o' \<in> set outs. length o' = per) \<and> reduced F dt op inputs ranks (ranks * n) (concat outs)"
proof (cases "length outs = ranks \<and> (\<forall>o' \<in> set outs. length o' = per)")
  case True
  let ?k = "dt_size dt"
  have e: "element ?k i (outs ! b) = element ?k (b * n + i) (concat outs)" if "b < ranks" "i < n" for b i
  proof -
    have "outs ! b = take per (drop (b * per) (concat outs))"
      using element_concat [of outs per b] True that by (simp add: element_def)
    then show ?thesis using element_of_block [of i n ?k per b "concat outs"] that assms(1)
      by (simp add: mult.commute)
  qed
  have i: "map (\<lambda>r. element ?k i (block_inputs inputs per ranks b ! r)) [0..<ranks] =
      map (\<lambda>r. element ?k (b * n + i) (inputs ! r)) [0..<ranks]" if "i < n" for b i
    using that assms(1) by (auto simp: block_inputs_def element_of_block mult.commute)
  have len: "length (concat outs) = ranks * n * ?k"
    using True assms(1) by (simp add: length_concat sum_list_triv cong: map_cong)
  have "reduced F dt op (block_inputs inputs per ranks b) ranks n (outs ! b) \<longleftrightarrow>
      (\<forall>i < n. rank_fold (element_op F dt op) (map (\<lambda>r. element ?k (b * n + i) (inputs ! r)) [0..<ranks]) =
        Inr (element ?k (b * n + i) (concat outs)))" if "b < ranks" for b
  proof -
    have "length (outs ! b) = n * ?k" using True assms(1) that by simp
    then show ?thesis using that by (simp add: reduced_def e i)
  qed
  then show ?thesis using True len by (simp add: reduced_def all_less_mult)
next
  case False
  then show ?thesis by (auto simp: reduced_def assms(1) in_set_conv_nth)
qed

lemma execute_reduce_scatter_iff:
  assumes dt: "dt \<noteq> BYTE" and ws: "well_sized dt ec ranks (unat ranks * (unat ec * dt_size dt)) inputs"
  shows "execute F REDUCE_SCATTER op dt ec root ranks inputs = Inr outs \<longleftrightarrow>
    length outs = unat ranks \<and> (\<forall>o' \<in> set outs. length o' = unat ec * dt_size dt) \<and>
    reduced F dt op inputs (unat ranks) (unat ranks * unat ec) (concat outs)"
proof -
  let ?R = "unat ranks" and ?per = "unat ec * dt_size dt"
  from ws have *: "0 < ranks" "unat ec * dt_size dt * unat ranks < 2 ^ 64"
    "0 < ?R" "?R \<le> length inputs" "\<And>r. r < ?R \<Longrightarrow> length (inputs ! r) = ?R * ?per"
    by (simp_all add: well_sized_def unat_gt_0 word_neq_0_conv)
  note s = execute_sizes [OF *(2,1)]
  have "sizes_from inputs (?per * ?R) [0..<?R] = Inr ()"
    using *(4,5) by (subst sizes_from_iff) (auto simp: mult.commute)
  then have "execute F REDUCE_SCATTER op dt ec root ranks inputs =
      scatter_blocks F inputs dt op ?per ?R [0..<?R]"
    by (simp add: execute_def Let_def s reduce_scatter_def)
  moreover have "reduce_into F dt (block_inputs inputs ?per ?R b) op ?per ?R = Inr out \<longleftrightarrow>
      reduced F dt op (block_inputs inputs ?per ?R b) ?R (unat ec) out" if "b < ?R" for b out
  proof (rule reduce_into_iff [OF dt _ *(3)])
    show "length (block_inputs inputs ?per ?R b ! r) = ?per" if "r < ?R" for r
      using block_fits [OF \<open>b < ?R\<close>, of ?per] that *(5) by (simp add: block_inputs_def)
  qed (simp add: block_inputs_def)
  ultimately show ?thesis
    using reduced_blocks [of ?per "unat ec" dt ?R inputs F op outs] *(5)
    by (auto simp: scatter_blocks_iff)
qed

section \<open>Order-free operations\<close>

locale order_free =
  fixes g :: "'a \<Rightarrow> 'a \<Rightarrow> 'a"
  assumes comm: "g a b = g b a" and assoc: "g (g a b) c = g a (g b c)"
begin

lemma foldl_shift: "foldl g (g x a) xs = g (foldl g x xs) a"
proof (induction xs arbitrary: x)
  case (Cons y xs)
  have "g (g x a) y = g (g x y) a" by (metis assoc comm)
  then show ?case using Cons.IH [of "g x y"] by simp
qed simp

lemma foldl_middle: "foldl g x (us @ z # vs) = g (foldl g x (us @ vs)) z"
  by (induction us arbitrary: x) (simp_all add: foldl_shift)

lemma fold_perm: "mset (x # xs) = mset (y # ys) \<Longrightarrow> foldl g x xs = foldl g y ys"
proof (induction ys arbitrary: x xs y)
  case Nil
  then show ?case by simp
next
  case (Cons z zs)
  have r: "foldl g y (z # zs) = g (foldl g y zs) z" by (simp add: foldl_shift)
  have "z \<in> set (x # xs)" using mset_eq_setD [OF Cons.prems] by auto
  then consider us vs where "xs = us @ z # vs" | "z = x" by (auto dest: split_list)
  then show ?case
  proof cases
    case 1
    then have "mset (x # us @ vs) = mset (y # zs)" using Cons.prems by simp
    from Cons.IH [OF this] show ?thesis by (simp only: r 1 foldl_middle)
  next
    case 2
    have "length xs = Suc (length zs)" using mset_eq_length [OF Cons.prems] by simp
    then obtain w ws where xs: "xs = w # ws" by (cases xs) auto
    then have "mset (w # ws) = mset (y # zs)" using Cons.prems 2 by simp
    from Cons.IH [OF this] show ?thesis using comm [of x w] by (simp add: r xs foldl_shift 2 del: foldl_Cons) (simp add: foldl_shift)
  qed
qed

lemma fold_perm_all: "\<forall>x xs y ys. mset (x # xs) = mset (y # ys) \<longrightarrow> foldl g x xs = foldl g y ys"
  using fold_perm by blast

end

interpretation word_sum: order_free "(+) :: 'w::len word \<Rightarrow> 'w word \<Rightarrow> 'w word"
  by standard (simp_all add: ac_simps)

interpretation word_product: order_free "(*) :: 'w::len word \<Rightarrow> 'w word \<Rightarrow> 'w word"
  by standard (simp_all add: ac_simps)

interpretation word_min: order_free "\<lambda>a b :: 'w::len word. if a < b then a else b"
  by standard auto

interpretation word_max: order_free "\<lambda>a b :: 'w::len word. if a > b then a else b"
  by standard auto

lemma unsigned_total:
  assumes "op \<noteq> ReductionOp.NONE"
  shows "\<exists>g :: 'w::len word \<Rightarrow> 'w word \<Rightarrow> 'w word. (\<forall>a b. op_unsigned a b op = Inr (g a b)) \<and>
    (\<forall>x xs y ys. mset (x # xs) = mset (y # ys) \<longrightarrow> foldl g x xs = foldl g y ys)"
proof (cases op)
  case SUM
  then show ?thesis by (intro exI [of _ "(+)"] conjI word_sum.fold_perm_all) simp
next
  case PRODUCT
  then show ?thesis by (intro exI [of _ "(*)"] conjI word_product.fold_perm_all) simp
next
  case MIN
  then show ?thesis by (intro exI [of _ "\<lambda>a b. if a < b then a else b"] conjI word_min.fold_perm_all) simp
next
  case MAX
  then show ?thesis by (intro exI [of _ "\<lambda>a b. if a > b then a else b"] conjI word_max.fold_perm_all) simp
qed (use assms in simp)

lemma foldl_total: "foldl (\<lambda>acc x. sbind acc (\<lambda>a. Inr (g a x))) (Inr a) xs = (Inr (foldl g a xs) :: 'e + 'a)"
  by (induction xs arbitrary: a) simp_all

lemma rank_fold_on_bytes:
  fixes f :: "'w::len elem_op"
  assumes "8 * k = LENGTH('w)" "length x = k"
  shows "rank_fold (on_bytes k f op) (x # xs) =
    map_sum (\<lambda>e. e) (le_store k) (foldl (\<lambda>acc y. sbind acc (\<lambda>a. f a y op)) (Inr (le_load x)) (map le_load xs))"
  using fold_on_bytes [OF assms(1), of f op "le_load x" xs] assms by (simp add: rank_fold_def foldl_map)

lemma unsigned_fold_perm:
  assumes "op \<noteq> ReductionOp.NONE" "mset xs = mset ys" "xs \<noteq> []" "\<forall>x \<in> set xs. length x = 4"
  shows "\<exists>v. length v = 4 \<and> rank_fold (on_bytes 4 reduce_u32 op) xs = Inr v \<and> rank_fold (on_bytes 4 reduce_u32 op) ys = Inr v"
proof -
  obtain g :: "u32 \<Rightarrow> u32 \<Rightarrow> u32" where g: "\<And>a b. reduce_u32 a b op = Inr (g a b)"
    "\<And>x xs y ys. mset (x # xs) = mset (y # ys) \<Longrightarrow> foldl g x xs = foldl g y ys"
    using unsigned_total [OF assms(1), where 'w = 32] by (auto simp: reduce_u32_def)
  obtain x xs' y ys' where eq: "xs = x # xs'" "ys = y # ys'"
    using assms(2,3) by (metis list.exhaust mset_zero_iff)
  have len: "length x = 4" "length y = 4" using assms(4) mset_eq_setD [OF assms(2)] by (auto simp: eq)
  have "mset (map le_load (x # xs') :: u32 list) = mset (map le_load (y # ys'))"
    using assms(2) unfolding eq mset_map by simp
  then have "foldl g (le_load x) (map le_load xs') = foldl g (le_load y) (map le_load ys')"
    by (intro g(2)) simp
  then show ?thesis using len by (simp add: eq rank_fold_on_bytes g foldl_total)
qed

section \<open>Signed sums\<close>

definition fits :: "nat \<Rightarrow> int \<Rightarrow> bool" where
  "fits w v \<longleftrightarrow> - (2 ^ (w - 1)) \<le> v \<and> v < 2 ^ (w - 1)"

lemma signed_result_iff: "signed_result v = Inr (w :: 'w::len word) \<longleftrightarrow> fits LENGTH('w) v \<and> sint w = v"
proof -
  have "fits LENGTH('w) v \<Longrightarrow> sint (word_of_int v :: 'w word) = v"
    by (simp add: fits_def signed_of_int signed_take_bit_int_eq_self)
  then show ?thesis by (auto simp: signed_result_def fits_def)
qed

lemma sint_eq_imp: "sint w = sint a \<Longrightarrow> a = (w :: 'w::len word)"
  by (rule signed_word_eqI [OF sym])

lemma signed_sum_iff:
  "foldl (\<lambda>acc x. sbind acc (\<lambda>a. op_signed a x ReductionOp.SUM)) (Inr a) xs = Inr (w :: 'w::len word) \<longleftrightarrow>
   (\<forall>m < length xs. fits LENGTH('w) (sint a + sum_list (map sint (take (Suc m) xs)))) \<and>
   sint w = sint a + sum_list (map sint xs)"
proof (induction xs arbitrary: w rule: rev_induct)
  case Nil
  then show ?case by (auto dest: sint_eq_imp)
next
  case (snoc x xs)
  let ?P = "\<forall>m < length xs. fits LENGTH('w) (sint a + sum_list (map sint (take (Suc m) xs)))"
  have in_range: "fits LENGTH('w) (sint v)" for v :: "'w word"
    using sint_greater_eq [of v] sint_less [of v] by (simp add: fits_def)
  have "(\<exists>v :: 'w word. (?P \<and> sint v = sint a + sum_list (map sint xs)) \<and>
      fits LENGTH('w) (sint v + sint x) \<and> sint w = sint v + sint x) \<longleftrightarrow>
      ?P \<and> fits LENGTH('w) (sint a + sum_list (map sint xs) + sint x) \<and> sint w = sint a + sum_list (map sint xs) + sint x"
  proof -
    have "\<exists>v :: 'w word. sint v = sint a + sum_list (map sint xs)" if ?P
    proof (cases xs)
      case (Cons y ys)
      then have "fits LENGTH('w) (sint a + sum_list (map sint xs))"
        using that [rule_format, of "length xs - 1"] by simp
      then show ?thesis by (metis signed_result_iff signed_result_def fits_def)
    qed auto
    then show ?thesis by metis
  qed
  moreover have "(\<forall>m < length (xs @ [x]). fits LENGTH('w) (sint a + sum_list (map sint (take (Suc m) (xs @ [x]))))) \<longleftrightarrow>
      ?P \<and> fits LENGTH('w) (sint a + sum_list (map sint xs) + sint x)"
    by (auto simp: less_Suc_eq add.assoc)
  moreover have "foldl (\<lambda>acc x. sbind acc (\<lambda>a. op_signed a x ReductionOp.SUM)) (Inr a) (xs @ [x]) = Inr w \<longleftrightarrow>
      (\<exists>v :: 'w word. (?P \<and> sint v = sint a + sum_list (map sint xs)) \<and>
        fits LENGTH('w) (sint v + sint x) \<and> sint w = sint v + sint x)"
    unfolding snoc.IH [symmetric] by (simp add: sbind_eq_Inr signed_result_iff)
  ultimately show ?case by (simp add: add.assoc)
qed

lemma less_two: "(r :: nat) < 2 \<longleftrightarrow> r = 0 \<or> r = 1"
  by auto

lemma well_sizedI:
  assumes "0 < ranks" "unat ec * dt_size dt * unat ranks < 2 ^ 64" "unat ranks \<le> length inputs"
    and "list_all (\<lambda>x. length x = per) (take (unat ranks) inputs)"
  shows "well_sized dt ec ranks per inputs"
  using assms by (auto simp: well_sized_def list_all_length)

lemma elements_in_range:
  assumes "well_sized dt ec ranks (unat ec * dt_size dt) inputs" "i < unat ec"
  shows "\<forall>x \<in> set (map (\<lambda>x. element (dt_size dt) i x) (take (unat ranks) inputs)). length x = dt_size dt"
proof -
  have "length x = unat ec * dt_size dt" if "x \<in> set (take (unat ranks) inputs)" for x
    using that assms(1) by (auto simp: in_set_conv_nth well_sized_def)
  then show ?thesis using assms(2) length_element [of _ "unat ec" "dt_size dt" i] by auto
qed

lemma map_nth_take: "n \<le> length xs \<Longrightarrow> map (\<lambda>r. f (xs ! r)) [0..<n] = map f (take n xs)"
  by (rule nth_equalityI) auto

lemma reduced_unsigned_ex:
  assumes ws: "well_sized UINT32 ec ranks (unat ec * 4) inputs" and op: "op \<noteq> ReductionOp.NONE"
    and perm: "mset (take (unat ranks) inputs') = mset (take (unat ranks) inputs)" "unat ranks \<le> length inputs'"
  shows "\<exists>out. reduced F UINT32 op inputs (unat ranks) (unat ec) out \<and> reduced F UINT32 op inputs' (unat ranks) (unat ec) out"
proof -
  let ?col = "\<lambda>ins i. map (\<lambda>x. element 4 i x) (take (unat ranks) ins)"
  have ranks: "unat ranks \<le> length inputs" "0 < unat ranks"
    using ws by (simp_all add: well_sized_def unat_gt_0 word_neq_0_conv)
  have "\<exists>v. length v = 4 \<and> rank_fold (on_bytes 4 reduce_u32 op) (?col inputs i) = Inr v \<and>
      rank_fold (on_bytes 4 reduce_u32 op) (?col inputs' i) = Inr v" if "i < unat ec" for i
  proof (rule unsigned_fold_perm [OF op])
    show "mset (?col inputs i) = mset (?col inputs' i)" by (simp only: mset_map perm(1))
    show "?col inputs i \<noteq> []" using ranks by auto
    show "\<forall>x \<in> set (?col inputs i). length x = 4"
      using elements_in_range [of UINT32 ec ranks inputs i] ws that by simp
  qed
  then obtain h where h: "\<And>i. i < unat ec \<Longrightarrow> length (h i) = 4 \<and>
      rank_fold (on_bytes 4 reduce_u32 op) (?col inputs i) = Inr (h i) \<and>
      rank_fold (on_bytes 4 reduce_u32 op) (?col inputs' i) = Inr (h i)" by metis
  let ?out = "concat (map h [0..<unat ec])"
  have "length ?out = unat ec * 4"
  proof -
    have "map length (map h [0..<unat ec]) = map (\<lambda>_. 4) [0..<unat ec]" using h by auto
    then show ?thesis by (simp only: length_concat) (simp add: sum_list_triv)
  qed
  moreover have "element 4 i ?out = h i" if "i < unat ec" for i
    using that h by (subst element_concat) auto
  ultimately have "reduced F UINT32 op inputs (unat ranks) (unat ec) ?out \<and>
      reduced F UINT32 op inputs' (unat ranks) (unat ec) ?out"
    using h ranks(1) perm(2) by (simp add: reduced_def map_nth_take)
  then show ?thesis by blast
qed

text \<open>The value of one signed element, and whether an integer is one.\<close>

definition element_int :: "Datatype \<Rightarrow> bytes \<Rightarrow> int" where
  "element_int dt bs = (if dt = INT32 then sint (le_load bs :: 32 word) else sint (le_load bs :: 64 word))"

lemma rank_fold_signed_sum:
  fixes out :: bytes
  assumes "8 * k = LENGTH('w::len)" "\<forall>x \<in> set xs. length x = k" "length out = k" "xs \<noteq> []"
  shows "rank_fold (on_bytes k (op_signed :: 'w elem_op) ReductionOp.SUM) xs = Inr out \<longleftrightarrow>
    (\<forall>m \<le> length xs. fits LENGTH('w) (sum_list (map (\<lambda>b. sint (le_load b :: 'w word)) (take m xs)))) \<and>
    sint (le_load out :: 'w word) = sum_list (map (\<lambda>b. sint (le_load b :: 'w word)) xs)"
proof -
  obtain x xs' where xs: "xs = x # xs'" using assms(4) by (cases xs) auto
  have x: "length x = k" using assms(2) xs by simp
  have inj: "map_sum (\<lambda>e. e) (le_store k) m = Inr out \<longleftrightarrow> m = Inr (le_load out :: 'w word)" for m :: "fault + 'w word"
    using le_load_store [OF assms(1)] le_store_load [OF assms(1,3)] by (cases m) (simp_all, metis)
  let ?v = "\<lambda>b. sint (le_load b :: 'w word)"
  have one: "fits LENGTH('w) (sint w)" "fits LENGTH('w) 0" for w :: "'w word"
    using sint_greater_eq [of w] sint_less [of w] by (simp_all add: fits_def)
  have split: "(\<forall>m \<le> length xs. P m) \<longleftrightarrow> P 0 \<and> P 1 \<and> (\<forall>m < length xs'. P (Suc (Suc m)))" for P
    using less_Suc_eq_0_disj by (auto simp: xs le_less_Suc_eq less_Suc_eq_le [symmetric] All_less_Suc2)
  show ?thesis
    unfolding split using x one
    by (simp add: xs rank_fold_on_bytes [OF assms(1)] inj signed_sum_iff take_map comp_def del: op_signed.simps)
qed

text \<open>Floating-point operations for the examples over the integers, which never call them.\<close>

definition zero_floats :: float_ops where
  "zero_floats = \<lparr>fp32 = \<lparr>fp_add = (\<lambda>a b. 0), fp_mul = (\<lambda>a b. 0), fp_less = (\<lambda>a b. False)\<rparr>,
     fp64 = \<lparr>fp_add = (\<lambda>a b. 0), fp_mul = (\<lambda>a b. 0), fp_less = (\<lambda>a b. False)\<rparr>\<rparr>"

section \<open>Properties\<close>

text \<open>C6: the engine's documented reduction order. When every rank contributes \<open>element_count\<close>
  elements, an ALL_REDUCE over a reducible datatype succeeds exactly when every element's fold over the
  ranks, in rank order from rank 0, is defined; then every rank receives the same buffer, and each of
  its elements is that fold.\<close>

theorem all_reduce_is_rank_order_fold:
  assumes "dt \<noteq> BYTE" "well_sized dt ec ranks (unat ec * dt_size dt) inputs"
  shows "execute F ALL_REDUCE op dt ec root ranks inputs = Inr outs \<longleftrightarrow>
    (\<exists>out. outs = replicate (unat ranks) out \<and> length out = unat ec * dt_size dt \<and>
      (\<forall>i < unat ec. rank_fold (element_op F dt op)
          (map (\<lambda>r. element (dt_size dt) i (inputs ! r)) [0..<unat ranks]) =
        Inr (element (dt_size dt) i out)))"
  using execute_all_reduce_iff [OF assms, of F op root outs] by (simp add: reduced_def)

theorem all_reduce_is_rank_order_fold_witness:
  "(execute zero_floats ALL_REDUCE ReductionOp.MAX INT32 1 0 2 [[5, 0, 0, 0], [255, 255, 255, 255]] =
     Inr [[5, 0, 0, 0], [5, 0, 0, 0]]) = True"
proof -
  have w: "well_sized INT32 1 2 (unat (1 :: u64) * dt_size INT32) [[5, 0, 0, 0], [255, 255, 255, 255]]"
    by (rule well_sizedI) simp_all
  have "\<forall>i < unat (1 :: u64). rank_fold (element_op zero_floats INT32 ReductionOp.MAX)
      (map (\<lambda>r. element (dt_size INT32) i ([[5, 0, 0, 0], [255, 255, 255, 255]] ! r)) [0..<unat (2 :: u64)]) =
      Inr (element (dt_size INT32) i [5, 0, 0, 0])" by code_simp
  moreover have "length [5 :: u8, 0, 0, 0] = unat (1 :: u64) * dt_size INT32" by simp
  moreover have "[[5 :: u8, 0, 0, 0], [5, 0, 0, 0]] = replicate (unat (2 :: u64)) [5, 0, 0, 0]" by code_simp
  ultimately show ?thesis
    using all_reduce_is_rank_order_fold [OF _ w, of zero_floats ReductionOp.MAX 0 "[[5, 0, 0, 0], [5, 0, 0, 0]]"] by blast
qed

text \<open>C18: a REDUCE_SCATTER hands out the ALL_REDUCE of the whole payload: it succeeds exactly when the
  ALL_REDUCE over \<open>ranks\<close> times as many elements does, and the blocks of the ranks, put together in
  rank order, are the buffer that ALL_REDUCE gives to every rank.\<close>

theorem reduce_scatter_agrees_with_all_reduce:
  assumes "dt \<noteq> BYTE" "unat ranks * (unat ranks * (unat ec * dt_size dt)) < 2 ^ 64"
    and "0 < ranks" "unat ranks \<le> length inputs"
    and "\<forall>r < unat ranks. length (inputs ! r) = unat ranks * (unat ec * dt_size dt)"
  shows "execute F REDUCE_SCATTER op dt ec root ranks inputs = Inr outs \<longleftrightarrow>
    length outs = unat ranks \<and> (\<forall>o' \<in> set outs. length o' = unat ec * dt_size dt) \<and>
    execute F ALL_REDUCE op dt (ranks * ec) root ranks inputs = Inr (replicate (unat ranks) (concat outs))"
proof -
  have pos: "0 < unat ranks" using assms(3) by (simp add: unat_gt_0 word_neq_0_conv)
  have le: "unat ranks * (unat ec * dt_size dt) \<le> unat ranks * (unat ranks * (unat ec * dt_size dt))" 
    using pos by simp
  have "1 \<le> dt_size dt" using datatype_size_pos(2) [of dt] by linarith
  then have "unat ranks * unat ec * 1 \<le> unat ranks * unat ec * dt_size dt" by (rule mult_le_mono2)
  then have "unat ranks * unat ec \<le> unat ranks * (unat ec * dt_size dt)"
    by (simp only: mult_1_right mult.assoc)
  with le assms(2) have "unat ranks * unat ec < 2 ^ 64" by linarith
  then have n: "unat (ranks * ec) = unat ranks * unat ec" by (simp add: unat_mult_u64)
  have "well_sized dt ec ranks (unat ranks * (unat ec * dt_size dt)) inputs"
    unfolding well_sized_def using assms(2-5) le order.strict_trans1 [OF le assms(2)]
    by (simp only: mult.commute [of _ "unat ranks"])
  note rs = execute_reduce_scatter_iff [OF assms(1) this, of F op root outs]
  have "well_sized dt (ranks * ec) ranks (unat (ranks * ec) * dt_size dt) inputs"
    unfolding well_sized_def n using assms(2-5) by (simp add: ac_simps)
  note ar = execute_all_reduce_iff [OF assms(1) this, of F op root]
  have "replicate (unat ranks) a = replicate (unat ranks) b \<longleftrightarrow> a = b" for a b :: bytes
    using pos by (metis in_set_replicate less_irrefl)
  then show ?thesis unfolding rs ar by (auto simp: n)
qed

theorem reduce_scatter_agrees_with_all_reduce_witness:
  "(execute zero_floats REDUCE_SCATTER ReductionOp.SUM UINT32 1 0 2 [[1, 0, 0, 0, 2, 0, 0, 0], [3, 0, 0, 0, 4, 0, 0, 0]] =
     Inr [[4, 0, 0, 0], [6, 0, 0, 0]]) =
   (execute zero_floats ALL_REDUCE ReductionOp.SUM UINT32 (2 * 1) 0 2 [[1, 0, 0, 0, 2, 0, 0, 0], [3, 0, 0, 0, 4, 0, 0, 0]] =
     Inr (replicate (unat (2 :: u64)) (concat [[4, 0, 0, 0], [6, 0, 0, 0]])))"
  by (subst reduce_scatter_agrees_with_all_reduce) (simp_all add: less_two)

text \<open>A REDUCE is the ALL_REDUCE kept by the root: for a root inside the rank range the two succeed
  and fail together, and the root's buffer is the one every rank of the ALL_REDUCE gets, the other
  ranks' outputs staying empty.\<close>

theorem reduce_is_all_reduce_at_root:
  assumes "root < ranks"
  shows "execute F REDUCE op dt ec root ranks inputs =
    map_sum (\<lambda>e. e) (\<lambda>outs. (replicate (unat ranks) [])[unat root := hd outs])
      (execute F ALL_REDUCE op dt ec root ranks inputs)"
  using assms by (rule reduce_is_all_reduce)

theorem reduce_is_all_reduce_at_root_witness:
  "execute zero_floats REDUCE ReductionOp.SUM UINT32 1 1 2 [[1, 0, 0, 0], [3, 0, 0, 0]] =
    map_sum (\<lambda>e. e) (\<lambda>outs. (replicate (unat (2 :: u64)) [])[unat (1 :: u64) := hd outs])
      (execute zero_floats ALL_REDUCE ReductionOp.SUM UINT32 1 1 2 [[1, 0, 0, 0], [3, 0, 0, 0]])"
  by (rule reduce_is_all_reduce_at_root) simp

text \<open>ALL_GATHER returns to every rank the concatenation of the contributions, in rank order,
  exactly when all have the size of one contribution. A wrong size of rank 0 is reported as an error; a
  later contribution that is too short is read past its end, since the copies precede its check.\<close>

theorem all_gather_outcomes:
  assumes "0 < ranks" "unat ec * dt_size dt * unat ranks < 2 ^ 64" "unat ranks \<le> length inputs"
    and "per = unat ec * dt_size dt"
  shows "execute F ALL_GATHER op dt ec root ranks inputs =
    (if length (inputs ! 0) \<noteq> per then Inl (Error ErrorCode.VALIDATION ''all_gather: rank input size mismatch'')
     else if \<exists>r < unat ranks. length (inputs ! r) < per then Inl Undefined
     else if \<exists>r < unat ranks. per < length (inputs ! r)
     then Inl (Error ErrorCode.VALIDATION ''all_gather: rank input size mismatch'')
     else Inr (replicate (unat ranks) (concat (take (unat ranks) inputs))))"
  using assms by (rule execute_all_gather_eq)

theorem all_gather_outcomes_witness:
  "execute zero_floats ALL_GATHER ReductionOp.NONE UINT32 1 0 2 [[1, 0, 0, 0], [3, 0]] = Inl Undefined"
proof -
  have "\<exists>r < unat (2 :: u64). length ([[1 :: u8, 0, 0, 0], [3, 0]] ! r) < 4"
    by (rule exI [of _ 1]) simp
  then show ?thesis by (subst all_gather_outcomes [of 2 1 UINT32 _ 4]) simp_all
qed

text \<open>C31: unsigned reductions do not depend on which rank contributed what: any permutation of the
  contributions of an ALL_REDUCE over UINT32 gives the same result, and it always succeeds.\<close>

theorem unsigned_all_reduce_order_free:
  assumes ws: "well_sized UINT32 ec ranks (unat ec * 4) inputs" and "op \<noteq> ReductionOp.NONE"
    and perm: "mset (take (unat ranks) inputs') = mset (take (unat ranks) inputs)" "unat ranks \<le> length inputs'"
  shows "\<exists>outs. execute F ALL_REDUCE op UINT32 ec root ranks inputs = Inr outs \<and>
    execute F ALL_REDUCE op UINT32 ec root ranks inputs' = Inr outs"
proof -
  have "length x = unat ec * 4" if "x \<in> set (take (unat ranks) inputs)" for x
    using that ws by (auto simp: in_set_conv_nth well_sized_def)
  then have "length x = unat ec * 4" if "x \<in> set (take (unat ranks) inputs')" for x
    using that mset_eq_setD [OF perm(1)] by simp
  then have "length (inputs' ! r) = unat ec * 4" if "r < unat ranks" for r
    using that perm(2) by (metis in_set_conv_nth length_take min.absorb2 nth_take)
  then have ws': "well_sized UINT32 ec ranks (unat ec * 4) inputs'"
    using ws perm(2) by (simp add: well_sized_def)
  show ?thesis
    using reduced_unsigned_ex [OF assms] ws ws' by (simp add: execute_all_reduce_iff) blast
qed

theorem unsigned_all_reduce_order_free_witness:
  "\<exists>outs. execute zero_floats ALL_REDUCE ReductionOp.SUM UINT32 1 0 2 [[1, 0, 0, 0], [255, 255, 255, 255]] = Inr outs \<and>
    execute zero_floats ALL_REDUCE ReductionOp.SUM UINT32 1 0 2 [[255, 255, 255, 255], [1, 0, 0, 0]] = Inr outs"
proof (rule unsigned_all_reduce_order_free)
  show "well_sized UINT32 1 2 (unat (1 :: u64) * 4) [[1, 0, 0, 0], [255, 255, 255, 255]]"
    by (rule well_sizedI) simp_all
qed simp_all

text \<open>A signed SUM never wraps. An ALL_REDUCE SUM over INT32 or INT64 is defined exactly when no
  partial sum, taken in rank order, leaves the range of the type, and then each element of the result
  is the exact integer sum of the contributions.\<close>

theorem signed_sum_is_exact:
  assumes "dt = INT32 \<or> dt = INT64" "well_sized dt ec ranks (unat ec * dt_size dt) inputs"
  shows "execute F ALL_REDUCE ReductionOp.SUM dt ec root ranks inputs = Inr outs \<longleftrightarrow>
    (\<exists>out. outs = replicate (unat ranks) out \<and> length out = unat ec * dt_size dt \<and>
      (\<forall>i < unat ec.
        let vs = map (\<lambda>x. element_int dt (element (dt_size dt) i x)) (take (unat ranks) inputs) in
        list_all (\<lambda>m. fits (8 * dt_size dt) (sum_list (take m vs))) [0..<Suc (unat ranks)] \<and>
        element_int dt (element (dt_size dt) i out) = sum_list vs))"
proof -
  have pos: "0 < unat ranks" "unat ranks \<le> length inputs"
    using assms(2) by (simp_all add: well_sized_def unat_gt_0 word_neq_0_conv)
  have dt: "dt \<noteq> BYTE" using assms(1) by auto
  let ?col = "\<lambda>i. map (\<lambda>x. element (dt_size dt) i x) (take (unat ranks) inputs)"
  have "rank_fold (element_op F dt ReductionOp.SUM) (?col i) = Inr (element (dt_size dt) i out) \<longleftrightarrow>
      (let vs = map (\<lambda>x. element_int dt (element (dt_size dt) i x)) (take (unat ranks) inputs) in
        list_all (\<lambda>m. fits (8 * dt_size dt) (sum_list (take m vs))) [0..<Suc (unat ranks)] \<and>
        element_int dt (element (dt_size dt) i out) = sum_list vs)"
    if i: "i < unat ec" and len: "length out = unat ec * dt_size dt" for i and out :: bytes
  proof -
    have l: "\<forall>x \<in> set (?col i). length x = dt_size dt" using elements_in_range [OF assms(2) i] .
    have o': "length (element (dt_size dt) i out) = dt_size dt" using length_element [OF len i] .
    have ne: "?col i \<noteq> []" using pos by auto
    have all: "list_all P [0..<Suc (unat ranks)] \<longleftrightarrow> (\<forall>m \<le> length (?col i). P m)" for P
      using pos by (auto simp: list_all_iff)
    from assms(1) show ?thesis
    proof
      assume "dt = INT32"
      then show ?thesis
        using rank_fold_signed_sum [where 'w = 32 and k = 4, OF _ _ _ ne, of "element (dt_size dt) i out"] l o'
        unfolding Let_def all by (simp add: reduce_i32_def element_int_def comp_def take_map)
    next
      assume "dt = INT64"
      then show ?thesis
        using rank_fold_signed_sum [where 'w = 64 and k = 8, OF _ _ _ ne, of "element (dt_size dt) i out"] l o'
        unfolding Let_def all by (simp add: reduce_i64_def element_int_def comp_def take_map)
    qed
  qed
  then show ?thesis
    using execute_all_reduce_iff [OF dt assms(2), of F ReductionOp.SUM root outs] pos(2)
    by (auto simp: reduced_def map_nth_take)
qed

theorem signed_sum_is_exact_witness:
  "(execute zero_floats ALL_REDUCE ReductionOp.SUM INT32 1 0 2 [[0, 0, 0, 128], [255, 255, 255, 255]] = Inr [[], []]) = False"
proof -
  have "well_sized INT32 1 2 (unat (1 :: u64) * dt_size INT32) [[0, 0, 0, 128], [255, 255, 255, 255]]"
    by (rule well_sizedI) simp_all
  moreover have "\<not> fits 32 (element_int INT32 (element 4 0 [0, 0, 0, 128]) + element_int INT32 (element 4 0 [255, 255, 255, 255]))"
    by code_simp
  ultimately show ?thesis
    by (subst signed_sum_is_exact) (simp_all add: Let_def upt_rec)
qed

end
