(* ===== verification/CF_Double.thy ===== *)
theory CF_Double
  imports Complex_Main CF_Prelude
begin

text \<open>
  The \<open>double\<close> arithmetic of the planner and of the measurements. Every \<open>double\<close> there is computed from
  64-bit unsigned integers and a few constants by a handful of operations, so it is finite and neither
  underflows nor overflows: it is modelled by the rational it denotes, and each operation rounds its
  exact result to 53 bits, ties to even.
\<close>

type_synonym double = rat

definition half_even :: "rat \<Rightarrow> int" where
  "half_even x =
     (let f = \<lfloor>x\<rfloor>; r = x - of_int f in
      if r < 1 / 2 then f else if r > 1 / 2 then f + 1 else if even f then f else f + 1)"

fun bits :: "nat \<Rightarrow> nat" where
  "bits n = (if n = 0 then 0 else Suc (bits (n div 2)))"

definition pow2 :: "int \<Rightarrow> rat" where
  "pow2 k = (if 0 \<le> k then 2 ^ nat k else 1 / 2 ^ nat (- k))"

text \<open>The exponent \<open>k\<close> with \<open>2 ^ 52 \<le> x / 2 ^ k < 2 ^ 53\<close>.\<close>

definition scale :: "rat \<Rightarrow> int" where
  "scale x =
     (let (n, d) = quotient_of x; k = int (bits (nat n)) - int (bits (nat d)) - 53 in
      if x / pow2 k < 2 ^ 53 then k else k + 1)"

definition rnd :: "rat \<Rightarrow> double" where
  "rnd x = (if x = 0 then 0 else let k = scale \<bar>x\<bar> in sgn x * of_int (half_even (\<bar>x\<bar> / pow2 k)) * pow2 k)"

definition to_double :: "u64 \<Rightarrow> double" where
  "to_double n = rnd (of_nat (unat n))"

text \<open>The literal \<open>1e-12\<close>.\<close>

definition epsilon :: double where
  "epsilon = rnd (1 / 10 ^ 12)"

end
