(* ===== verification/CF_Planner.thy ===== *)
theory CF_Planner
  imports CF_Double CF_Descriptor CF_Group CF_Topology
begin

text \<open>
  The deterministic planner: \<open>backend/capabilities.hpp\<close>, \<open>collective/plan.hpp\<close>,
  \<open>planner/planner.hpp\<close> and \<open>src/planner.cpp\<close>. Pointers of \<open>PlannerInput\<close> are options. \<open>ceil_log2\<close> need not return: its model is a partial function and a call that does
  not return makes the planner's result \<open>Inl Nontermination\<close>.
\<close>

section \<open>Backend capabilities\<close>

record BackendCapabilities =
  bc_id :: BackendId
  bc_generation :: BackendGeneration
  bc_name :: string
  supported_collective_kinds :: "CollectiveKind list"
  supported_datatypes :: "Datatype list"
  supported_reductions :: "ReductionOp list"
  supports_device_buffers :: bool
  supports_host_buffers :: bool
  supports_in_place :: bool
  supports_nonblocking_progress :: bool
  supports_stream_binding :: bool
  supports_graph_capture :: bool
  supports_async_error_query :: bool
  supports_abort :: bool
  supports_multi_process :: bool
  supports_multi_node :: bool
  supported_transport_classes :: "TransportClass list"
  maximum_rank_count :: "u64 option"
  bc_provenance :: Source
  bc_is_reference :: bool

definition supports_kind :: "BackendCapabilities \<Rightarrow> CollectiveKind \<Rightarrow> bool" where
  "supports_kind c k = List.member (supported_collective_kinds c) k"

definition supports_datatype :: "BackendCapabilities \<Rightarrow> Datatype \<Rightarrow> bool" where
  "supports_datatype c d = List.member (supported_datatypes c) d"

definition supports_reduction :: "BackendCapabilities \<Rightarrow> ReductionOp \<Rightarrow> bool" where
  "supports_reduction c r = List.member (supported_reductions c) r"

definition supports_transport :: "BackendCapabilities \<Rightarrow> TransportClass \<Rightarrow> bool" where
  "supports_transport c t = List.member (supported_transport_classes c) t"

definition reference_backend_capabilities :: "BackendId \<Rightarrow> BackendGeneration \<Rightarrow> BackendCapabilities" where
  "reference_backend_capabilities i g =
     \<lparr>bc_id = i, bc_generation = g, bc_name = ''deterministic-reference'',
      supported_collective_kinds = [CollectiveKind.BARRIER, BROADCAST, REDUCE, ALL_REDUCE, ALL_GATHER, REDUCE_SCATTER],
      supported_datatypes = [INT32, UINT32, INT64, FLOAT32, FLOAT64, BYTE],
      supported_reductions = [ReductionOp.SUM, ReductionOp.PRODUCT, ReductionOp.MIN, ReductionOp.MAX, ReductionOp.NONE],
      supports_device_buffers = False, supports_host_buffers = True, supports_in_place = True,
      supports_nonblocking_progress = True, supports_stream_binding = False, supports_graph_capture = False,
      supports_async_error_query = False, supports_abort = True, supports_multi_process = False,
      supports_multi_node = False, supported_transport_classes = [HOST_MEMORY],
      maximum_rank_count = Some 1048576, bc_provenance = null_source, bc_is_reference = True\<rparr>"

section \<open>Plans\<close>

record DecisionFactor =
  df_name :: string
  df_value :: double
  df_unit :: string
  df_hard :: bool
  df_reason :: string

record CollectivePlan =
  pl_algorithm :: Algorithm
  pl_backend :: BackendId
  pl_transport :: TransportClass
  pl_expected_byte_movement :: u64
  pl_expected_steps :: u64
  pl_expected_critical_path_ns :: "u64 option"
  pl_rank_order :: "u64 list"
  pl_hierarchy_depth :: u64
  pl_overlap_eligible :: bool
  pl_overlap_reason :: string
  pl_factors :: "DecisionFactor list"
  pl_explanation :: "string list"
  pl_hard_constraints :: "string list"
  pl_provenance :: ProvenanceKind
  pl_policy_generation :: PolicyGeneration
  pl_topology_generation :: TopologyGeneration
  pl_health_generation :: HealthGeneration
  pl_collective_generation :: CollectiveGeneration
  pl_backend_generation :: BackendGeneration
  pl_source :: Source

section \<open>The cost model\<close>

partial_function (option) ceil_log2_loop :: "u64 \<Rightarrow> u64 \<Rightarrow> u64 \<Rightarrow> u64 option" where
  "ceil_log2_loop n x s = (if x < n then ceil_log2_loop n (push_bit 1 x) (s + 1) else Some s)"

declare ceil_log2_loop.simps [code]

definition ceil_log2 :: "u64 \<Rightarrow> u64 option" where
  "ceil_log2 n = ceil_log2_loop n 1 0"

record PathModel =
  pm_steps :: u64
  pm_movement :: u64

definition is_reduce_family :: "CollectiveKind \<Rightarrow> bool" where
  "is_reduce_family k = (k = REDUCE \<or> k = ALL_REDUCE \<or> k = REDUCE_SCATTER)"

definition sat_mul :: "u64 \<Rightarrow> u64 \<Rightarrow> u64" where
  "sat_mul a b = (case checked_mul a b of Some r \<Rightarrow> r | None \<Rightarrow> UINT64_MAX)"

fun path_of :: "CollectiveKind \<Rightarrow> u64 \<Rightarrow> u64 \<Rightarrow> u64 \<Rightarrow> Algorithm \<Rightarrow> PathModel" where
  "path_of kind n p logn DIRECT = \<lparr>pm_steps = 1, pm_movement = sat_mul p (if n > 0 then n - 1 else 0)\<rparr>"
| "path_of kind n p logn RING = (let s = if n > 0 then n - 1 else 0 in \<lparr>pm_steps = s, pm_movement = sat_mul p s\<rparr>)"
| "path_of kind n p logn TREE =
     (let s = if kind = BROADCAST \<or> kind = REDUCE then logn else sat_mul 2 logn in
      \<lparr>pm_steps = s, pm_movement = sat_mul p s\<rparr>)"
| "path_of kind n p logn RECURSIVE_DOUBLING = \<lparr>pm_steps = logn, pm_movement = sat_mul (sat_mul p logn) 2\<rparr>"
| "path_of kind n p logn REDUCE_BROADCAST =
     (let s = sat_mul 2 (if n > 0 then n - 1 else 0) in \<lparr>pm_steps = s, pm_movement = sat_mul p s\<rparr>)"
| "path_of kind n p logn HIERARCHICAL = (let s = sat_mul 2 logn in \<lparr>pm_steps = s, pm_movement = sat_mul p s\<rparr>)"
| "path_of kind n p logn BACKEND_DEFAULT = \<lparr>pm_steps = 1, pm_movement = p\<rparr>"
| "path_of kind n p logn Algorithm.UNKNOWN = \<lparr>pm_steps = 0, pm_movement = 0\<rparr>"

definition model_path :: "CollectiveKind \<Rightarrow> Algorithm \<Rightarrow> u64 \<Rightarrow> u64 \<Rightarrow> fault + PathModel" where
  "model_path kind algo n p = sbind (or_throw (ceil_log2 n) Nontermination) (\<lambda>logn. Inr (path_of kind n p logn algo))"

fun algorithm_feasible :: "CollectiveKind \<Rightarrow> Algorithm \<Rightarrow> bool" where
  "algorithm_feasible kind DIRECT = (kind = BROADCAST \<or> kind = REDUCE)"
| "algorithm_feasible kind RING =
     (kind = ALL_REDUCE \<or> kind = REDUCE_SCATTER \<or> kind = ALL_GATHER \<or> kind = REDUCE \<or> kind = BROADCAST)"
| "algorithm_feasible kind TREE =
     (kind = CollectiveKind.BARRIER \<or> kind = BROADCAST \<or> kind = REDUCE \<or> kind = ALL_REDUCE \<or>
      kind = ALL_GATHER \<or> kind = REDUCE_SCATTER)"
| "algorithm_feasible kind RECURSIVE_DOUBLING = (kind = ALL_REDUCE \<or> kind = ALL_GATHER)"
| "algorithm_feasible kind REDUCE_BROADCAST = (kind = ALL_REDUCE \<or> kind = REDUCE)"
| "algorithm_feasible kind HIERARCHICAL = (kind = ALL_REDUCE \<or> kind = ALL_GATHER \<or> kind = REDUCE_SCATTER)"
| "algorithm_feasible kind BACKEND_DEFAULT = True"
| "algorithm_feasible kind Algorithm.UNKNOWN = False"

section \<open>Candidates\<close>

record PlannerInput =
  pi_descriptor :: "CollectiveDescriptor option"
  pi_group :: "CollectiveGroup option"
  pi_topology :: "Topology option"
  pi_backend :: "BackendCapabilities option"
  pi_path_health :: "HealthState option"
  pi_measured_bandwidth :: "u64 option"
  pi_measured_latency_ns :: "u64 option"
  pi_deterministic_preference :: bool
  pi_prefer_device_buffers :: bool

record Candidate =
  ca_algorithm :: Algorithm
  ca_feasible :: bool
  ca_reject_reason :: string
  ca_steps :: u64
  ca_byte_movement :: u64

definition group_size :: "CollectiveGroup \<Rightarrow> u64" where
  "group_size g = of_nat (cg_rank_count g)"

definition planned_bytes :: "CollectiveDescriptor \<Rightarrow> u64 \<Rightarrow> fault + u64" where
  "planned_bytes d n =
     (if cd_kind d = BROADCAST \<or> cd_kind d = REDUCE \<or> cd_kind d = ALL_REDUCE
      then element_byte_count d else aggregate_byte_count n d)"

definition reject :: "PlannerInput \<Rightarrow> CollectiveDescriptor \<Rightarrow> BackendCapabilities \<Rightarrow> u64 \<Rightarrow> Algorithm \<Rightarrow> string option" where
  "reject inp d bk n a =
     (if \<not> algorithm_feasible (cd_kind d) a then Some ''algorithm not applicable to collective kind''
      else if \<not> supports_kind bk (cd_kind d) then Some ''backend does not support collective kind''
      else if \<not> supports_datatype bk (cd_datatype d) then Some ''backend does not support datatype''
      else if is_reduce_family (cd_kind d) \<and> \<not> supports_reduction bk (cd_reduction d)
      then Some ''backend does not support reduction''
      else if \<not> supports_transport bk HOST_MEMORY then Some ''no compatible host transport''
      else if \<not> (case maximum_rank_count bk of None \<Rightarrow> True | Some m \<Rightarrow> n \<le> m)
      then Some ''rank count exceeds backend maximum''
      else if \<not> (cd_input_placement d = HOST \<and> supports_host_buffers bk)
      then Some ''backend does not support requested buffer placement''
      else if a = HIERARCHICAL \<and> (case pi_topology inp of None \<Rightarrow> False | Some t \<Rightarrow> node_count t < 2)
      then Some ''topology contains no inter-node subgroup boundary''
      else None)"

definition candidate ::
  "PlannerInput \<Rightarrow> CollectiveDescriptor \<Rightarrow> BackendCapabilities \<Rightarrow> u64 \<Rightarrow> u64 \<Rightarrow> Algorithm \<Rightarrow> fault + Candidate" where
  "candidate inp d bk n p a =
     (case reject inp d bk n a of
        Some r \<Rightarrow> Inr \<lparr>ca_algorithm = a, ca_feasible = False, ca_reject_reason = r, ca_steps = 0, ca_byte_movement = 0\<rparr>
      | None \<Rightarrow> sbind (model_path (cd_kind d) a n p) (\<lambda>pm.
          Inr \<lparr>ca_algorithm = a, ca_feasible = True, ca_reject_reason = [],
               ca_steps = pm_steps pm, ca_byte_movement = pm_movement pm\<rparr>))"

fun collect :: "('a \<Rightarrow> 'e + 'b) \<Rightarrow> 'a list \<Rightarrow> 'e + 'b list" where
  "collect f [] = Inr []"
| "collect f (x # xs) = sbind (f x) (\<lambda>y. sbind (collect f xs) (\<lambda>ys. Inr (y # ys)))"

definition algorithms :: "Algorithm list" where
  "algorithms = [DIRECT, RING, TREE, RECURSIVE_DOUBLING, REDUCE_BROADCAST, HIERARCHICAL, BACKEND_DEFAULT, Algorithm.UNKNOWN]"

definition candidates :: "PlannerInput \<Rightarrow> fault + Candidate list" where
  "candidates inp =
     (case (pi_descriptor inp, pi_group inp, pi_backend inp) of
        (Some d, Some g, Some bk) \<Rightarrow>
          (let n = group_size g in
           sbind (planned_bytes d n) (\<lambda>p. collect (candidate inp d bk n p) algorithms))
      | _ \<Rightarrow> Inr [])"

section \<open>Selection\<close>

definition est_time :: "PlannerInput \<Rightarrow> Candidate \<Rightarrow> double option" where
  "est_time inp c =
     (let with_bw = (case pi_measured_bandwidth inp of
            Some bw \<Rightarrow> if bw > 0 then Some (rnd (0 + rnd (rnd (to_double (ca_byte_movement c) / to_double bw) * 10 ^ 9))) else None
          | None \<Rightarrow> None)
      in case pi_measured_latency_ns inp of
           Some l \<Rightarrow> Some (rnd ((case with_bw of Some t \<Rightarrow> t | None \<Rightarrow> 0) + rnd (to_double (ca_steps c) * to_double l)))
         | None \<Rightarrow> with_bw)"

definition structural_better :: "Candidate \<Rightarrow> Candidate \<Rightarrow> bool" where
  "structural_better c b =
     (if ca_steps c \<noteq> ca_steps b then ca_steps c < ca_steps b
      else if ca_byte_movement c \<noteq> ca_byte_movement b then ca_byte_movement c < ca_byte_movement b
      else algorithm_to_u8 (ca_algorithm c) < algorithm_to_u8 (ca_algorithm b))"

definition better :: "PlannerInput \<Rightarrow> Candidate \<Rightarrow> Candidate \<Rightarrow> bool" where
  "better inp c b =
     (case (est_time inp c, est_time inp b) of
        (Some ta, Some tb) \<Rightarrow>
          if ta < rnd (tb - epsilon) then True
          else if \<bar>rnd (ta - tb)\<bar> < epsilon then structural_better c b
          else False
      | _ \<Rightarrow> structural_better c b)"

fun best_real :: "PlannerInput \<Rightarrow> Candidate option \<Rightarrow> Candidate list \<Rightarrow> Candidate option" where
  "best_real inp best [] = best"
| "best_real inp best (c # cs) =
     (if \<not> ca_feasible c \<or> ca_algorithm c = BACKEND_DEFAULT then best_real inp best cs
      else case best of
          None \<Rightarrow> best_real inp (Some c) cs
        | Some b \<Rightarrow> best_real inp (if better inp c b then Some c else Some b) cs)"

fun best_fallback :: "Candidate option \<Rightarrow> Candidate list \<Rightarrow> Candidate option" where
  "best_fallback best [] = best"
| "best_fallback best (c # cs) =
     (if \<not> ca_feasible c then best_fallback best cs
      else case best of
          None \<Rightarrow> best_fallback (Some c) cs
        | Some b \<Rightarrow> best_fallback
            (if ca_steps c < ca_steps b \<or> ca_steps c = ca_steps b \<and> ca_byte_movement c < ca_byte_movement b
             then Some c else Some b) cs)"

definition select_best :: "PlannerInput \<Rightarrow> Candidate list \<Rightarrow> Candidate option" where
  "select_best inp cands =
     (case best_real inp None cands of Some b \<Rightarrow> Some b | None \<Rightarrow> best_fallback None cands)"

section \<open>The explanation\<close>

definition build_explanation ::
  "CollectiveDescriptor \<Rightarrow> PathModel \<Rightarrow> u64 \<Rightarrow> u64 \<Rightarrow> PlannerInput \<Rightarrow> Algorithm \<Rightarrow> string" where
  "build_explanation d chosen n p inp selected =
     (let s = algorithm_to_string selected @ '' selected for '' @ collective_kind_to_string (cd_kind d) @ '' with '' @
                to_string n @ '' ranks and '' @ to_string p @ '' payload bytes'';
          s = (if pm_steps chosen \<le> 1 then s @ ''; direct/one-shot path has minimal critical path'' else s);
          bdp = (case (pi_measured_bandwidth inp, pi_measured_latency_ns inp) of
                   (Some bw, Some l) \<Rightarrow> if l > 0 then rnd (rnd (to_double bw * to_double l) / 10 ^ 9) else 0
                 | _ \<Rightarrow> 0)
      in if bdp > 0
         then if to_double p < bdp
              then s @ ''; message is small relative to bandwidth-delay product, so latency-favoring choice dominates''
              else s @ ''; message is large relative to bandwidth-delay product, so bandwidth-favoring choice dominates''
         else s @ ''; no measured bandwidth/latency, so the planner ranks on structural steps and byte movement'')"

section \<open>The plan\<close>

definition factor :: "string \<Rightarrow> double \<Rightarrow> string \<Rightarrow> bool \<Rightarrow> string \<Rightarrow> DecisionFactor" where
  "factor nm v u h r = \<lparr>df_name = nm, df_value = v, df_unit = u, df_hard = h, df_reason = r\<rparr>"

definition plan_factors ::
  "PlannerInput \<Rightarrow> CollectiveDescriptor \<Rightarrow> BackendCapabilities \<Rightarrow> u64 \<Rightarrow> u64 \<Rightarrow> PathModel \<Rightarrow> DecisionFactor list" where
  "plan_factors inp d bk n p pm =
     [factor ''collective_kind'' (of_nat (unat (collective_kind_to_u8 (cd_kind d)))) ''enum'' True
        (collective_kind_to_string (cd_kind d)),
      factor ''rank_count'' (to_double n) ''ranks'' True ''participant count at group generation'',
      factor ''payload_bytes'' (to_double p) ''bytes'' True ''per-rank payload'',
      factor ''expected_steps'' (to_double (pm_steps pm)) ''steps'' False
        ''critical path length in communication rounds'',
      factor ''expected_byte_movement'' (to_double (pm_movement pm)) ''bytes'' False
        ''total bytes that cross at least one link'',
      (case pi_measured_bandwidth inp of
         Some bw \<Rightarrow> factor ''measured_bandwidth_bytes_per_sec'' (to_double bw) ''bytes/s'' False ''measured''
       | None \<Rightarrow> factor ''measured_bandwidth_bytes_per_sec'' 0 ''unknown'' False
           ''not measured; link bandwidth UNKNOWN''),
      (case pi_measured_latency_ns inp of
         Some l \<Rightarrow> factor ''measured_latency_ns'' (to_double l) ''ns'' False ''measured''
       | None \<Rightarrow> factor ''measured_latency_ns'' 0 ''unknown'' False ''not measured; latency UNKNOWN'')] @
     (case pi_topology inp of
        Some t \<Rightarrow>
          [factor ''topology_diameter_nodes'' (to_double (of_nat (node_count t))) ''nodes'' False
             ''distinct nodes in topology'',
           factor ''intra_node_device_pairs'' (to_double (intra_node_device_pairs t)) ''pairs'' False
             ''intra-node locality'']
      | None \<Rightarrow> []) @
     [factor ''device_buffer_support'' (if supports_device_buffers bk then 1 else 0) ''bool'' False
        (if supports_device_buffers bk then ''backend supports device buffers'' else ''backend is host-buffer only'')]"

definition overlap :: "BackendCapabilities \<Rightarrow> CollectiveDescriptor \<Rightarrow> bool \<times> string" where
  "overlap bk d =
     (let o1 = (True, ''independent stream/queue semantics; no in-place hazard identified'');
          o2 = (if \<not> supports_nonblocking_progress bk then (False, ''backend has no nonblocking progress'') else o1)
      in if \<not> supports_host_buffers bk \<and> cd_input_placement d = DEVICE
         then (False, ''device buffer backend requires binding'') else o2)"

definition make_plan ::
  "PlannerInput \<Rightarrow> CollectiveDescriptor \<Rightarrow> BackendCapabilities \<Rightarrow> u64 \<Rightarrow> u64 \<Rightarrow> Candidate list \<Rightarrow> Algorithm \<Rightarrow> PathModel \<Rightarrow> Source \<Rightarrow> CollectivePlan" where
  "make_plan inp d bk n p cands a pm source =
     \<lparr>pl_algorithm = a, pl_backend = bc_id bk, pl_transport = HOST_MEMORY,
      pl_expected_byte_movement = pm_movement pm, pl_expected_steps = pm_steps pm,
      pl_expected_critical_path_ns = None,
      pl_rank_order = map of_nat [0..<unat n],
      pl_hierarchy_depth = (case pi_topology inp of Some t \<Rightarrow> if node_count t \<ge> 2 then 2 else 0 | None \<Rightarrow> 0),
      pl_overlap_eligible = fst (overlap bk d), pl_overlap_reason = snd (overlap bk d),
      pl_factors = plan_factors inp d bk n p pm,
      pl_explanation = [build_explanation d pm n p inp a],
      pl_hard_constraints = map ca_reject_reason (filter (\<lambda>c. \<not> ca_feasible c) cands),
      pl_provenance = ProvenanceKind.DERIVED,
      pl_policy_generation = cd_policy_generation d,
      pl_topology_generation = (case pi_topology inp of Some t \<Rightarrow> tp_generation t | None \<Rightarrow> null_gen),
      pl_health_generation = (case pi_path_health inp of Some _ \<Rightarrow> Generation 1 | None \<Rightarrow> null_gen),
      pl_collective_generation = cd_collective_generation d,
      pl_backend_generation = bc_generation bk,
      pl_source = source\<rparr>"

text \<open>\<open>counter\<close> and \<open>now\<close> are the state of \<open>make_source\<close>; the new counter is returned with the plan.\<close>

definition plan :: "u64 \<Rightarrow> u64 \<Rightarrow> PlannerInput \<Rightarrow> fault + CollectivePlan \<times> u64" where
  "plan counter now inp =
     (case (pi_descriptor inp, pi_group inp, pi_backend inp) of
        (Some d, Some g, Some bk) \<Rightarrow>
          (let n = group_size g in
           sbind (planned_bytes d n) (\<lambda>p.
           sbind (candidates inp) (\<lambda>cands.
           sbind (or_throw (select_best inp cands)
                    (Error UNSUPPORTED ''no feasible algorithm for the requested collective'')) (\<lambda>best.
           sbind (model_path (cd_kind d) (ca_algorithm best) n p) (\<lambda>pm.
           let (source, counter') = make_source counter now ''deterministic planner selection'' ProvenanceKind.DERIVED
           in Inr (make_plan inp d bk n p cands (ca_algorithm best) pm source, counter'))))))
      | _ \<Rightarrow> Inl (Error ErrorCode.VALIDATION ''planner requires descriptor, group, and backend''))"

section \<open>The cost model\<close>

lemma sat_mul_eq: "unat (sat_mul a b) = min (unat a * unat b) (2 ^ 64 - 1)"
  by (auto simp: sat_mul_def checked_mul_eq unat_mult_u64 min_def)

definition clog2 :: "nat \<Rightarrow> nat" where
  "clog2 n = (LEAST k. n \<le> 2 ^ k)"

lemma clog2_le_iff: "clog2 n \<le> k \<longleftrightarrow> n \<le> 2 ^ k"
proof
  assume "clog2 n \<le> k"
  moreover have "n \<le> 2 ^ n" using less_exp [of n] by simp
  then have "n \<le> 2 ^ clog2 n" unfolding clog2_def by (rule LeastI)
  ultimately show "n \<le> 2 ^ k" by (meson one_le_numeral order_trans power_increasing)
qed (simp add: clog2_def Least_le)

lemma clog2_eqI: "n \<le> 2 ^ k \<Longrightarrow> 2 ^ j < n \<Longrightarrow> Suc j = k \<Longrightarrow> clog2 n = k"
  using clog2_le_iff [of n k] clog2_le_iff [of n j] by linarith

lemma unat_shift [simp]: "k < 64 \<Longrightarrow> unat ((2 :: u64) ^ k) = 2 ^ k"
proof -
  assume "k < 64"
  then have "(2 :: nat) ^ k < 2 ^ 64" by (intro power_strict_increasing) auto
  from unat_of_nat_u64 [OF this] show ?thesis by simp
qed

lemma ceil_log2_loop_from:
  assumes "unat n \<le> 2 ^ 63" "j \<le> clog2 (unat n)"
  shows "ceil_log2_loop n (push_bit j 1) (of_nat j) = Some (of_nat (clog2 (unat n)))"
  using assms(2)
proof (induction "clog2 (unat n) - j" arbitrary: j)
  case 0
  then have j: "j = clog2 (unat n)" by simp
  have "j \<le> 63" using assms(1) by (simp add: j clog2_le_iff)
  moreover have "unat n \<le> 2 ^ j" using j clog2_le_iff by blast
  ultimately have "\<not> push_bit j 1 < n" by (simp add: word_less_nat_alt)
  then show ?case by (subst ceil_log2_loop.simps) (simp add: j)
next
  case (Suc d)
  then have "j < clog2 (unat n)" "clog2 (unat n) \<le> 63" using assms(1) by (simp_all add: clog2_le_iff)
  then have "2 ^ j < unat n" "j < 64" using clog2_le_iff [of "unat n" j] by linarith+
  then have "push_bit j 1 < n" by (simp add: word_less_nat_alt)
  then have "ceil_log2_loop n (push_bit j 1) (of_nat j) = ceil_log2_loop n (push_bit (Suc j) 1) (of_nat (Suc j))"
    by (subst ceil_log2_loop.simps) (simp add: ac_simps)
  also have "\<dots> = Some (of_nat (clog2 (unat n)))" by (rule Suc.hyps) (use Suc in simp_all)
  finally show ?case .
qed

lemma ceil_log2_eq: "unat n \<le> 2 ^ 63 \<Longrightarrow> ceil_log2 n = Some (of_nat (clog2 (unat n)))"
  using ceil_log2_loop_from [of n 0] by (simp add: ceil_log2_def)

lemma ceil_log2_loop_result: "ceil_log2_loop n x s = Some r \<Longrightarrow> \<exists>k. n \<le> push_bit k x"
proof -
  have step: "\<exists>k. n \<le> push_bit k x"
    if IH: "\<And>x s b y. f x s b = Some y \<Longrightarrow> \<exists>k. x \<le> push_bit k s"
      and r: "(if x < n then f n (push_bit 1 x) (s + 1) else Some s) = Some r"
    for f :: "u64 \<Rightarrow> u64 \<Rightarrow> u64 \<Rightarrow> u64 option" and n x s r
  proof (cases "x < n")
    case True
    with r have "f n (push_bit 1 x) (s + 1) = Some r" by simp
    from IH [OF this] obtain k where "n \<le> push_bit k (push_bit 1 x)" ..
    then have "n \<le> push_bit (k + 1) x" by (simp only: push_bit_push_bit)
    then show ?thesis ..
  next
    case False
    then show ?thesis by (intro exI [of _ 0]) simp
  qed
  assume r: "ceil_log2_loop n x s = Some r"
  show ?thesis
  proof (rule ceil_log2_loop.raw_induct [of "\<lambda>n x s r. \<exists>k. n \<le> push_bit k x" "((n, x), s)" r, unfolded prod.case])
    show "\<exists>k. n \<le> push_bit k x"
      if "\<And>x s b y. f x s b = Some y \<Longrightarrow> \<exists>k. x \<le> push_bit k s"
        "(if x < n then f n (push_bit 1 x) (s + 1) else Some s) = Some r"
      for f :: "u64 \<Rightarrow> u64 \<Rightarrow> u64 \<Rightarrow> u64 option" and n x s r
      using that by (rule step)
  qed (rule r)
qed

lemma ceil_log2_loops: "2 ^ 63 < unat n \<Longrightarrow> ceil_log2 n = None"
proof (rule ccontr)
  assume n: "2 ^ 63 < unat n" and "ceil_log2 n \<noteq> None"
  then obtain k where k: "n \<le> push_bit k 1" by (auto simp: ceil_log2_def dest: ceil_log2_loop_result)
  show False
  proof (cases "k < 64")
    case True
    then have "(2 :: nat) ^ k \<le> 2 ^ 63" by (intro power_increasing) auto
    then show False using k n True by (simp add: word_le_nat_alt)
  next
    case False
    then have "push_bit k (1 :: u64) = 0" by (intro bit_word_eqI) (simp add: bit_exp_iff)
    with k have "n \<le> 0" by (simp only:)
    then show False using n by simp
  qed
qed

section \<open>Candidates\<close>

text \<open>The requirements that do not depend on the algorithm.\<close>

definition backend_accepts :: "BackendCapabilities \<Rightarrow> CollectiveDescriptor \<Rightarrow> u64 \<Rightarrow> bool" where
  "backend_accepts bk d n \<longleftrightarrow>
     supports_kind bk (cd_kind d) \<and> supports_datatype bk (cd_datatype d) \<and>
     (is_reduce_family (cd_kind d) \<longrightarrow> supports_reduction bk (cd_reduction d)) \<and>
     supports_transport bk HOST_MEMORY \<and>
     (\<forall>m. maximum_rank_count bk = Some m \<longrightarrow> n \<le> m) \<and>
     cd_input_placement d = HOST \<and> supports_host_buffers bk"

definition multi_node_or_unknown :: "PlannerInput \<Rightarrow> bool" where
  "multi_node_or_unknown inp \<longleftrightarrow> (\<forall>t. pi_topology inp = Some t \<longrightarrow> 2 \<le> node_count t)"

lemma reject_None:
  "reject inp d bk n a = None \<longleftrightarrow>
     algorithm_feasible (cd_kind d) a \<and> backend_accepts bk d n \<and> (a = HIERARCHICAL \<longrightarrow> multi_node_or_unknown inp)"
  by (auto simp: reject_def backend_accepts_def multi_node_or_unknown_def split: option.splits)

definition cost :: "CollectiveDescriptor \<Rightarrow> u64 \<Rightarrow> u64 \<Rightarrow> Algorithm \<Rightarrow> PathModel" where
  "cost d n p a = path_of (cd_kind d) n p (of_nat (clog2 (unat n))) a"

lemma model_path_eq:
  "unat n \<le> 2 ^ 63 \<Longrightarrow> model_path (cd_kind d) a n p = Inr (cost d n p a)"
  by (simp add: model_path_def ceil_log2_eq cost_def)

definition entry :: "PlannerInput \<Rightarrow> CollectiveDescriptor \<Rightarrow> BackendCapabilities \<Rightarrow> u64 \<Rightarrow> u64 \<Rightarrow> Algorithm \<Rightarrow> Candidate" where
  "entry inp d bk n p a =
     (case reject inp d bk n a of
        Some r \<Rightarrow> \<lparr>ca_algorithm = a, ca_feasible = False, ca_reject_reason = r, ca_steps = 0, ca_byte_movement = 0\<rparr>
      | None \<Rightarrow> \<lparr>ca_algorithm = a, ca_feasible = True, ca_reject_reason = [],
                 ca_steps = pm_steps (cost d n p a), ca_byte_movement = pm_movement (cost d n p a)\<rparr>)"

lemma candidate_eq: "unat n \<le> 2 ^ 63 \<Longrightarrow> candidate inp d bk n p a = Inr (entry inp d bk n p a)"
  by (simp add: candidate_def entry_def model_path_eq split: option.split)

lemma collect_map: "(\<And>x. x \<in> set xs \<Longrightarrow> f x = Inr (g x)) \<Longrightarrow> collect f xs = Inr (map g xs)"
  by (induction xs) simp_all

lemma candidates_eq:
  assumes "pi_descriptor inp = Some d" "pi_group inp = Some g" "pi_backend inp = Some bk"
    and "planned_bytes d (group_size g) = Inr p" "unat (group_size g) \<le> 2 ^ 63"
  shows "candidates inp = Inr (map (entry inp d bk (group_size g) p) algorithms)"
  using assms by (simp add: candidates_def Let_def collect_map [OF candidate_eq])

lemma entry_simps [simp]:
  "ca_algorithm (entry inp d bk n p a) = a"
  "ca_feasible (entry inp d bk n p a) \<longleftrightarrow> reject inp d bk n a = None"
  by (simp_all add: entry_def split: option.split)

lemma entry_cost:
  "reject inp d bk n a = None \<Longrightarrow>
   ca_steps (entry inp d bk n p a) = pm_steps (cost d n p a) \<and>
   ca_byte_movement (entry inp d bk n p a) = pm_movement (cost d n p a)"
  by (simp add: entry_def)

section \<open>Selection\<close>

definition real :: "Candidate \<Rightarrow> bool" where
  "real c \<longleftrightarrow> ca_feasible c \<and> ca_algorithm c \<noteq> BACKEND_DEFAULT"

lemma best_real_origin:
  "best_real inp best cs = Some c \<Longrightarrow> best = Some c \<or> (c \<in> set cs \<and> real c)"
  by (induction inp best cs rule: best_real.induct) (auto simp: real_def split: if_splits option.splits)

lemma best_real_keeps_some: "best_real inp (Some b) cs \<noteq> None"
  by (induction cs arbitrary: b) auto

lemma best_real_None: "best_real inp None cs = None \<longleftrightarrow> (\<forall>c \<in> set cs. \<not> real c)"
  by (induction cs) (auto simp: real_def best_real_keeps_some)

lemma select_best_real:
  assumes "\<exists>c \<in> set cs. real c"
  obtains b where "select_best inp cs = Some b" "b \<in> set cs" "real b"
proof -
  obtain b where b: "best_real inp None cs = Some b" using assms best_real_None by blast
  then show ?thesis using best_real_origin [OF b] that by (simp add: select_best_def)
qed

lemma best_fallback_none: "(\<forall>c \<in> set cs. \<not> ca_feasible c) \<Longrightarrow> best_fallback b cs = b"
  by (induction cs) auto

text \<open>Without a usable measurement, candidates are compared by structure only.\<close>

definition unmeasured :: "PlannerInput \<Rightarrow> bool" where
  "unmeasured inp \<longleftrightarrow> pi_measured_latency_ns inp = None \<and>
     (pi_measured_bandwidth inp = None \<or> pi_measured_bandwidth inp = Some 0)"

lemma better_unmeasured: "unmeasured inp \<Longrightarrow> better inp c b = structural_better c b"
  by (auto simp: unmeasured_def better_def est_time_def)

lemma structural_better_trans: "structural_better a b \<Longrightarrow> structural_better b c \<Longrightarrow> structural_better a c"
  by (auto simp: structural_better_def split: if_splits)

lemma structural_better_asym: "structural_better a b \<Longrightarrow> \<not> structural_better b a"
  by (auto simp: structural_better_def split: if_splits)

lemma best_real_minimum:
  assumes "unmeasured inp" "\<forall>x \<in> set cs. real x \<longrightarrow> x = c \<or> structural_better c x"
  shows "(best = Some c \<or> (case best of None \<Rightarrow> True | Some b \<Rightarrow> structural_better c b) \<and> c \<in> set cs \<and> real c) \<Longrightarrow>
    best_real inp best cs = Some c"
  using assms(2)
proof (induction cs arbitrary: best)
  case (Cons x cs)
  have nbetter: "\<not> structural_better x c" if "x = c \<or> structural_better c x"
    using that structural_better_asym by (auto simp: structural_better_def)
  show ?case
  proof (cases "real x")
    case True
    then have x: "x = c \<or> structural_better c x" using Cons.prems(2) by simp
    show ?thesis
    proof (cases best)
      case None
      then show ?thesis using True x Cons by (auto simp: real_def)
    next
      case (Some b)
      then show ?thesis
        using True x Cons nbetter by (auto simp: real_def better_unmeasured [OF assms(1)])
    qed
  next
    case False
    then show ?thesis using Cons by (auto simp: real_def)
  qed
qed auto

section \<open>The outcome of planning\<close>

lemma tree_feasible [simp]: "algorithm_feasible k TREE"
  by (cases k) simp_all

lemma in_algorithms [simp]: "a \<in> set algorithms"
  by (cases a) (simp_all add: algorithms_def)

lemma plan_eq:
  assumes "pi_descriptor inp = Some d" "pi_group inp = Some g" "pi_backend inp = Some bk"
    and "planned_bytes d (group_size g) = Inr p" "unat (group_size g) \<le> 2 ^ 63"
  shows "plan counter now inp =
    (case select_best inp (map (entry inp d bk (group_size g) p) algorithms) of
       None \<Rightarrow> Inl (Error UNSUPPORTED ''no feasible algorithm for the requested collective'')
     | Some b \<Rightarrow> Inr (make_plan inp d bk (group_size g) p (map (entry inp d bk (group_size g) p) algorithms)
         (ca_algorithm b) (cost d (group_size g) p (ca_algorithm b))
         (fst (make_source counter now ''deterministic planner selection'' ProvenanceKind.DERIVED)), counter + 1))"
  using assms
  by (simp add: plan_def Let_def candidates_eq model_path_eq make_source_def split: option.split)

lemma real_entry:
  "real (entry inp d bk n p a) \<longleftrightarrow> reject inp d bk n a = None \<and> a \<noteq> BACKEND_DEFAULT"
  by (simp add: real_def)

lemma select_accepted:
  assumes "backend_accepts bk d n"
  obtains a where "select_best inp (map (entry inp d bk n p) algorithms) = Some (entry inp d bk n p a)"
    "reject inp d bk n a = None" "a \<noteq> BACKEND_DEFAULT"
proof -
  have "real (entry inp d bk n p TREE)" using assms by (simp add: real_entry reject_None del: algorithm_feasible.simps)
  then have "\<exists>c \<in> set (map (entry inp d bk n p) algorithms). real c" by auto
  then show ?thesis
  proof (rule select_best_real [where inp = inp])
    fix b assume "select_best inp (map (entry inp d bk n p) algorithms) = Some b"
      "b \<in> set (map (entry inp d bk n p) algorithms)" "real b"
    then show ?thesis using that by (auto simp: real_entry)
  qed
qed

lemma select_refused:
  assumes "\<not> backend_accepts bk d n"
  shows "select_best inp (map (entry inp d bk n p) algorithms) = None"
proof -
  have "\<forall>c \<in> set (map (entry inp d bk n p) algorithms). \<not> ca_feasible c"
    using assms by (auto simp: reject_None)
  then show ?thesis
    using best_real_None [of inp "map (entry inp d bk n p) algorithms"]
    by (auto simp add: select_best_def best_fallback_none real_def split: option.split)
qed

lemma select_minimum:
  assumes "unmeasured inp" "reject inp d bk n a = None" "a \<noteq> BACKEND_DEFAULT"
    and "\<And>a'. reject inp d bk n a' = None \<Longrightarrow> a' \<noteq> BACKEND_DEFAULT \<Longrightarrow> a' \<noteq> a \<Longrightarrow>
      structural_better (entry inp d bk n p a) (entry inp d bk n p a')"
  shows "select_best inp (map (entry inp d bk n p) algorithms) = Some (entry inp d bk n p a)"
proof -
  let ?cs = "map (entry inp d bk n p) algorithms"
  have "best_real inp None ?cs = Some (entry inp d bk n p a)"
  proof (rule best_real_minimum [OF assms(1)])
    show "\<forall>x \<in> set ?cs. real x \<longrightarrow> x = entry inp d bk n p a \<or> structural_better (entry inp d bk n p a) x"
    proof (intro ballI impI)
      fix x assume "x \<in> set ?cs" "real x"
      then obtain a' where "x = entry inp d bk n p a'" "reject inp d bk n a' = None" "a' \<noteq> BACKEND_DEFAULT"
        by (auto simp: real_entry)
      then show "x = entry inp d bk n p a \<or> structural_better (entry inp d bk n p a) x"
        using assms(4) [of a'] by (cases "a' = a") auto
    qed
    show "None = Some (entry inp d bk n p a) \<or>
      (case None of None \<Rightarrow> True | Some b \<Rightarrow> structural_better (entry inp d bk n p a) b) \<and>
      entry inp d bk n p a \<in> set ?cs \<and> real (entry inp d bk n p a)"
      using assms(2,3) by (auto simp: real_entry)
  qed
  then show ?thesis by (simp add: select_best_def)
qed

section \<open>Costs as numbers\<close>

definition steps_nat :: "CollectiveKind \<Rightarrow> nat \<Rightarrow> Algorithm \<Rightarrow> nat" where
  "steps_nat kind n a = (case a of
     DIRECT \<Rightarrow> 1 | RING \<Rightarrow> n - 1
   | TREE \<Rightarrow> if kind = BROADCAST \<or> kind = REDUCE then clog2 n else 2 * clog2 n
   | RECURSIVE_DOUBLING \<Rightarrow> clog2 n
   | REDUCE_BROADCAST \<Rightarrow> min (2 * (n - 1)) (2 ^ 64 - 1)
   | HIERARCHICAL \<Rightarrow> 2 * clog2 n | BACKEND_DEFAULT \<Rightarrow> 1 | Algorithm.UNKNOWN \<Rightarrow> 0)"

lemma clog2_bound: "n \<le> 2 ^ 63 \<Longrightarrow> clog2 n \<le> 63"
  by (simp add: clog2_le_iff)

lemma unat_pred: "unat (if n > 0 then n - 1 else 0 :: u64) = unat n - 1"
  by (cases "n = 0") (simp_all add: unat_minus_one word_neq_0_conv)

lemma steps_eq:
  assumes "unat n \<le> 2 ^ 63"
  shows "unat (pm_steps (cost d n p a)) = steps_nat (cd_kind d) (unat n) a"
proof -
  have k: "clog2 (unat n) \<le> 63" using assms by (rule clog2_bound)
  then have "unat (of_nat (clog2 (unat n)) :: u64) = clog2 (unat n)"
    by (intro unat_of_nat_u64) simp
  with k show ?thesis
    by (cases a) (auto simp: cost_def steps_nat_def sat_mul_eq unat_pred Let_def simp del: One_nat_def)
qed

lemma structural_better_iff:
  "structural_better c b \<longleftrightarrow>
     unat (ca_steps c) < unat (ca_steps b) \<or>
     unat (ca_steps c) = unat (ca_steps b) \<and>
       (ca_byte_movement c < ca_byte_movement b \<or>
        ca_byte_movement c = ca_byte_movement b \<and>
          algorithm_to_u8 (ca_algorithm c) < algorithm_to_u8 (ca_algorithm b))"
  by (auto simp: structural_better_def word_less_nat_alt simp flip: word_unat_eq_iff)

lemma entry_better:
  assumes "unat n \<le> 2 ^ 63" "reject inp d bk n a = None" "reject inp d bk n b = None"
    and "steps_nat (cd_kind d) (unat n) a < steps_nat (cd_kind d) (unat n) b \<or>
      steps_nat (cd_kind d) (unat n) a = steps_nat (cd_kind d) (unat n) b \<and>
      pm_movement (cost d n p a) \<le> pm_movement (cost d n p b) \<and> algorithm_to_u8 a < algorithm_to_u8 b"
  shows "structural_better (entry inp d bk n p a) (entry inp d bk n p b)"
  using assms by (auto simp: structural_better_iff entry_cost steps_eq)

section \<open>The choice without measurements\<close>

fun expected_algorithm :: "CollectiveKind \<Rightarrow> nat \<Rightarrow> Algorithm" where
  "expected_algorithm CollectiveKind.BARRIER n = TREE"
| "expected_algorithm BROADCAST n = (if n \<le> 1 then RING else DIRECT)"
| "expected_algorithm REDUCE n = (if n \<le> 1 then RING else DIRECT)"
| "expected_algorithm ALL_REDUCE n = (if n \<le> 3 then RING else RECURSIVE_DOUBLING)"
| "expected_algorithm ALL_GATHER n = (if n \<le> 3 then RING else RECURSIVE_DOUBLING)"
| "expected_algorithm REDUCE_SCATTER n = (if n \<le> 7 \<or> n = 9 then RING else TREE)"

lemma clog2_small:
  "clog2 0 = 0" "clog2 1 = 0" "clog2 2 = 1" "clog2 3 = 2" "clog2 4 = 2" "clog2 5 = 3"
  "clog2 6 = 3" "clog2 7 = 3" "clog2 8 = 3" "clog2 9 = 4"
proof -
  show "clog2 0 = 0" "clog2 1 = 0" using clog2_le_iff [of 0 0] clog2_le_iff [of 1 0] by simp_all
qed (rule clog2_eqI [where j = 0] clog2_eqI [where j = 1] clog2_eqI [where j = 2] clog2_eqI [where j = 3]; simp)+

lemma clog2_less: "4 \<le> n \<Longrightarrow> clog2 n < n - 1"
proof -
  assume "4 \<le> n"
  then have "n \<le> 2 ^ (n - 2)"
  proof (induction n rule: nat_induct_at_least)
    case (Suc n)
    then have "2 * 2 ^ (n - 2) = (2 :: nat) ^ (n - 1)" by (simp flip: power_Suc)
    with Suc show ?case by simp
  qed simp
  then show ?thesis using \<open>4 \<le> n\<close> clog2_le_iff [of n "n - 2"] by simp
qed

lemma clog2_half: "10 \<le> n \<Longrightarrow> 2 * clog2 n < n - 1"
proof -
  assume n: "10 \<le> n"
  have pow: "2 * j + 3 \<le> 2 ^ j" if "4 \<le> j" for j :: nat
    using that by (induction j rule: nat_induct_at_least) simp_all
  have "n \<le> 2 * ((n - 2) div 2) + 3" by simp
  also have "\<dots> \<le> 2 ^ ((n - 2) div 2)" using n by (intro pow) simp
  finally have "clog2 n \<le> (n - 2) div 2" by (simp add: clog2_le_iff)
  then show ?thesis using n by simp
qed

lemma movement_eq:
  assumes "unat n \<le> 2 ^ 63" "a = RING \<or> a = TREE \<or> a = REDUCE_BROADCAST \<or> a = HIERARCHICAL"
  shows "unat (pm_movement (cost d n p a)) = min (unat p * steps_nat (cd_kind d) (unat n) a) (2 ^ 64 - 1)"
proof -
  have "pm_movement (cost d n p a) = sat_mul p (pm_steps (cost d n p a))"
    using assms(2) by (auto simp: cost_def Let_def)
  then show ?thesis by (simp add: sat_mul_eq steps_eq [OF assms(1)])
qed

lemma movement_direct:
  "unat (pm_movement (cost d n p DIRECT)) = min (unat p * (unat n - 1)) (2 ^ 64 - 1)"
  unfolding cost_def path_of.simps PathModel.simps sat_mul_eq unat_pred ..

lemma movement_doubling:
  assumes "unat n \<le> 2 ^ 63"
  shows "min (unat p * clog2 (unat n)) (2 ^ 64 - 1) \<le> unat (pm_movement (cost d n p RECURSIVE_DOUBLING))"
proof -
  have "unat (of_nat (clog2 (unat n)) :: u64) = clog2 (unat n)"
    using clog2_bound [OF assms] by (intro unat_of_nat_u64) simp
  then show ?thesis by (simp add: cost_def sat_mul_eq)
qed

lemma tie_movement:
  assumes "unat n \<le> 2 ^ 63" "a = RING \<or> a = TREE \<or> a = DIRECT \<and> unat n = 2"
    and "b = RING \<or> b = TREE \<or> b = REDUCE_BROADCAST \<or> b = HIERARCHICAL \<or> b = RECURSIVE_DOUBLING"
    and "steps_nat (cd_kind d) (unat n) a = steps_nat (cd_kind d) (unat n) b"
  shows "pm_movement (cost d n p a) \<le> pm_movement (cost d n p b)"
proof -
  let ?m = "min (unat p * steps_nat (cd_kind d) (unat n) b) (2 ^ 64 - 1)"
  have "unat (pm_movement (cost d n p a)) = ?m"
  proof (cases "a = DIRECT")
    case True
    then have "steps_nat (cd_kind d) (unat n) b = 1" "unat n = 2" using assms(2,4) by (auto simp: steps_nat_def)
    then show ?thesis using True by (simp add: movement_direct)
  next
    case False
    then have "a = RING \<or> a = TREE \<or> a = REDUCE_BROADCAST \<or> a = HIERARCHICAL" using assms(2) by blast
    from movement_eq [OF assms(1) this] show ?thesis by (simp only: assms(4))
  qed
  moreover have "?m \<le> unat (pm_movement (cost d n p b))"
  proof (cases "b = RECURSIVE_DOUBLING")
    case True
    then show ?thesis using movement_doubling [OF assms(1)] by (simp add: steps_nat_def)
  next
    case False
    then have "b = RING \<or> b = TREE \<or> b = REDUCE_BROADCAST \<or> b = HIERARCHICAL" using assms(3) by blast
    from movement_eq [OF assms(1) this] show ?thesis by (simp only: order.refl)
  qed
  ultimately show ?thesis by (simp add: word_le_nat_alt)
qed

lemma expected_feasible:
  "algorithm_feasible k (expected_algorithm k n)" "expected_algorithm k n \<noteq> BACKEND_DEFAULT"
  "expected_algorithm k n \<noteq> HIERARCHICAL"
  by (cases k; simp)+

text \<open>The expected algorithm has no more steps than any other, and wins every tie.\<close>

definition beats :: "CollectiveKind \<Rightarrow> nat \<Rightarrow> Algorithm \<Rightarrow> Algorithm \<Rightarrow> bool" where
  "beats k n a b \<longleftrightarrow> steps_nat k n a < steps_nat k n b \<or>
     steps_nat k n a = steps_nat k n b \<and> algorithm_to_u8 a < algorithm_to_u8 b \<and>
     (a = RING \<or> a = TREE \<or> a = DIRECT \<and> n = 2) \<and>
     (b = RING \<or> b = TREE \<or> b = REDUCE_BROADCAST \<or> b = HIERARCHICAL \<or> b = RECURSIVE_DOUBLING)"

lemma small_cases: "(n :: nat) \<le> 3 \<longleftrightarrow> n = 0 \<or> n = 1 \<or> n = 2 \<or> n = 3"
  "(n :: nat) \<le> 7 \<or> n = 9 \<longleftrightarrow> n = 0 \<or> n = 1 \<or> n = 2 \<or> n = 3 \<or> n = 4 \<or> n = 5 \<or> n = 6 \<or> n = 7 \<or> n = 9"
  by auto

lemma clog2_pos: "2 \<le> n \<Longrightarrow> 1 \<le> clog2 n"
  using clog2_le_iff [of n 0] by simp

lemmas clog2_numerals = clog2_small [unfolded One_nat_def] clog2_small

lemma beats_rooted:
  assumes "k = BROADCAST \<or> k = REDUCE" "algorithm_feasible k b" "b \<noteq> BACKEND_DEFAULT" "b \<noteq> expected_algorithm k n"
  shows "beats k n (expected_algorithm k n) b"
proof -
  consider "n = 0 \<or> n = 1" | "n = 2" | "3 \<le> n" by linarith
  then show ?thesis
  proof cases
    case 1
    then show ?thesis using assms by (cases b) (auto simp: beats_def steps_nat_def clog2_numerals)
  next
    case 2
    then show ?thesis using assms by (cases b) (auto simp: beats_def steps_nat_def clog2_numerals)
  next
    case 3
    then have "2 \<le> clog2 n" using clog2_le_iff [of n 1] by simp
    then show ?thesis using 3 assms by (cases b) (auto simp: beats_def steps_nat_def)
  qed
qed

lemma beats_symmetric:
  assumes "k = ALL_REDUCE \<or> k = ALL_GATHER" "algorithm_feasible k b" "b \<noteq> BACKEND_DEFAULT"
    "b \<noteq> expected_algorithm k n" "n \<le> 2 ^ 63"
  shows "beats k n (expected_algorithm k n) b"
proof (cases "n \<le> 3")
  case True
  then show ?thesis using assms unfolding small_cases
    by (cases b) (auto simp: beats_def steps_nat_def clog2_numerals)
next
  case False
  then have "clog2 n < n - 1" "1 \<le> clog2 n" "clog2 n \<le> 63"
    using clog2_less [of n] clog2_pos [of n] clog2_bound [OF assms(5)] by simp_all
  then show ?thesis using False assms by (cases b) (auto simp: beats_def steps_nat_def)
qed

lemma beats_scatter:
  assumes "algorithm_feasible REDUCE_SCATTER b" "b \<noteq> BACKEND_DEFAULT" "b \<noteq> expected_algorithm REDUCE_SCATTER n"
  shows "beats REDUCE_SCATTER n (expected_algorithm REDUCE_SCATTER n) b"
proof (cases "n \<le> 7 \<or> n = 9")
  case True
  then show ?thesis using assms unfolding small_cases
    by (cases b) (auto simp: beats_def steps_nat_def clog2_numerals)
next
  case False
  then have "2 * clog2 n < n - 1"
    using clog2_half [of n] clog2_small(9) by (cases "n = 8") auto
  then show ?thesis using False assms by (cases b) (auto simp: beats_def steps_nat_def)
qed

lemma expected_beats:
  assumes "algorithm_feasible k b" "b \<noteq> BACKEND_DEFAULT" "b \<noteq> expected_algorithm k n" "n \<le> 2 ^ 63"
  shows "beats k n (expected_algorithm k n) b"
proof (cases k)
  case BARRIER
  then show ?thesis using assms by (cases b) simp_all
qed (use assms beats_rooted beats_symmetric beats_scatter in blast)+

lemma select_unmeasured:
  assumes "unmeasured inp" "backend_accepts bk d n" "unat n \<le> 2 ^ 63"
  shows "select_best inp (map (entry inp d bk n p) algorithms) =
    Some (entry inp d bk n p (expected_algorithm (cd_kind d) (unat n)))"
proof (rule select_minimum [OF assms(1)])
  let ?a = "expected_algorithm (cd_kind d) (unat n)"
  show ok: "reject inp d bk n ?a = None" using assms(2) expected_feasible by (simp add: reject_None)
  show "?a \<noteq> BACKEND_DEFAULT" by (rule expected_feasible)
  fix b assume b: "reject inp d bk n b = None" "b \<noteq> BACKEND_DEFAULT" "b \<noteq> ?a"
  then have "beats (cd_kind d) (unat n) ?a b" using assms(3) by (intro expected_beats) (simp_all add: reject_None)
  then show "structural_better (entry inp d bk n p ?a) (entry inp d bk n p b)"
    using tie_movement [OF assms(3)] ok b(1) by (intro entry_better [OF assms(3)]) (auto simp: beats_def)
qed

definition fits_topology :: "PlannerInput \<Rightarrow> Algorithm \<Rightarrow> bool" where
  "fits_topology inp a \<longleftrightarrow> a \<noteq> HIERARCHICAL \<or> multi_node_or_unknown inp"

definition placeholder :: "Algorithm \<Rightarrow> bool" where
  "placeholder a \<longleftrightarrow> a = BACKEND_DEFAULT \<or> a = Algorithm.UNKNOWN"

text \<open>A concrete input: an ALL_REDUCE over the sample group on the reference backend.\<close>

definition sample_descriptor :: CollectiveDescriptor where
  "sample_descriptor = default_descriptor\<lparr>cd_kind := ALL_REDUCE, cd_reduction := ReductionOp.SUM,
     cd_datatype := INT32, cd_element_count := 4\<rparr>"

definition sample_input :: PlannerInput where
  "sample_input = \<lparr>pi_descriptor = Some sample_descriptor, pi_group = Some (group_of sample_builder),
     pi_topology = None, pi_backend = Some (reference_backend_capabilities (StrongId 1) (Generation 1)),
     pi_path_health = None, pi_measured_bandwidth = None, pi_measured_latency_ns = None,
     pi_deterministic_preference = True, pi_prefer_device_buffers = False\<rparr>"

lemma sample_input_ok:
  "pi_descriptor sample_input = Some sample_descriptor"
  "pi_group sample_input = Some (group_of sample_builder)"
  "pi_backend sample_input = Some (reference_backend_capabilities (StrongId 1) (Generation 1))"
  "planned_bytes sample_descriptor (group_size (group_of sample_builder)) = Inr 16"
  "unat (group_size (group_of sample_builder)) \<le> 2 ^ 63"
  "unmeasured sample_input"
  "backend_accepts (reference_backend_capabilities (StrongId 1) (Generation 1)) sample_descriptor
     (group_size (group_of sample_builder))"
  by (simp_all add: sample_input_def sample_descriptor_def default_descriptor_def planned_bytes_def
      element_byte_count_def checked_mul_def unmeasured_def backend_accepts_def reference_backend_capabilities_def
      supports_kind_def supports_datatype_def supports_reduction_def supports_transport_def is_reduce_family_def
      group_size_def cg_rank_count_def group_of_def sample_builder_def)

section \<open>Properties\<close>

text \<open>C39: \<open>ceil_log2\<close> returns the least exponent whose power of two reaches \<open>n\<close>, for every \<open>n\<close> up to
  \<open>2 ^ 63\<close>; for a larger \<open>n\<close> the loop variable shifts to zero and the loop never ends.\<close>

theorem ceil_log2_terminates_iff:
  "ceil_log2 n = (if unat n \<le> 2 ^ 63 then Some (of_nat (LEAST k. unat n \<le> 2 ^ k)) else None)"
  using ceil_log2_eq ceil_log2_loops by (simp add: clog2_def not_le)



text \<open>C29: without measurements the choice depends on the kind and the number of ranks only: a barrier
  uses the tree; a broadcast or reduction goes direct (ring for a single rank); ALL_REDUCE and
  ALL_GATHER use the ring up to three ranks and recursive doubling above; REDUCE_SCATTER uses the ring
  for up to seven ranks and for nine, the tree otherwise.\<close>

theorem unmeasured_choice:
  assumes "pi_descriptor inp = Some d" "pi_group inp = Some g" "pi_backend inp = Some bk"
    and "planned_bytes d (group_size g) = Inr p" "unat (group_size g) \<le> 2 ^ 63"
    and "unmeasured inp" "backend_accepts bk d (group_size g)"
  shows "\<exists>pl. plan counter now inp = Inr (pl, counter + 1) \<and>
    pl_algorithm pl = expected_algorithm (cd_kind d) (unat (group_size g))"
  by (simp add: plan_eq [OF assms(1-5)] select_unmeasured [OF assms(6,7,5)] make_plan_def)

theorem unmeasured_choice_witness:
  "\<exists>pl. plan 0 0 sample_input = Inr (pl, 1) \<and>
    pl_algorithm pl = expected_algorithm ALL_REDUCE (unat (group_size (group_of sample_builder)))"
  using unmeasured_choice [OF sample_input_ok, of 0 0] by (simp add: sample_descriptor_def)

end
