(* ===== verification/CF_Measured.thy ===== *)
theory CF_Measured
  imports CF_Planner
begin

text \<open>
  The choice of the planner (\<open>src/planner.cpp\<close>) when bandwidth or latency have been measured. The times it compares
  are doubles, so the proof rests on what rounding keeps: \<open>rnd x\<close> is the double nearest to \<open>x\<close>.
\<close>

section \<open>Rounding\<close>

lemma pow2_powi: "pow2 k = 2 powi k"
  by (simp add: pow2_def power_int_def inverse_eq_divide power_one_over)

lemma pow2_pos [simp]: "0 < pow2 k" "pow2 k \<noteq> 0"
  by (simp_all add: pow2_powi)

lemma abs_pow2 [simp]: "\<bar>pow2 k\<bar> = pow2 k"
  by (simp add: less_imp_le)

lemma pow2_add: "pow2 (j + k) = pow2 j * pow2 k"
  by (simp add: pow2_powi power_int_add)

lemma pow2_nat: "pow2 (int n) = 2 ^ n"
  by (simp add: pow2_def)

lemma pow2_split: "j \<le> k \<Longrightarrow> pow2 k = 2 ^ nat (k - j) * pow2 j"
  using pow2_add [of "k - j" j] by (simp add: pow2_def)

lemma bits_step: "0 < n \<Longrightarrow> bits n = Suc (bits (n div 2))"
  by simp

declare bits.simps [simp del]

lemma bits_zero [simp]: "bits 0 = 0"
  by (simp add: bits.simps)

lemma bits_bounds: "0 < n \<Longrightarrow> 2 ^ (bits n - 1) \<le> n \<and> n < 2 ^ bits n \<and> 0 < bits n"
proof (induction n rule: bits.induct)
  case (1 n)
  show ?case
  proof (cases "n div 2 = 0")
    case True
    then have "n = 1" using 1 by auto
    then show ?thesis by (simp add: bits_step)
  next
    case False
    with 1 have IH: "2 ^ (bits (n div 2) - 1) \<le> n div 2" "n div 2 < 2 ^ bits (n div 2)" "0 < bits (n div 2)" by simp_all
    obtain m where m: "bits (n div 2) = Suc m" using IH(3) gr0_conv_Suc by blast
    have "bits n = Suc (Suc m)" using 1(2) m by (simp add: bits_step)
    moreover have "2 ^ m \<le> n div 2" "n div 2 < 2 * 2 ^ m" using IH(1,2) by (simp_all add: m)
    then have "2 * 2 ^ m \<le> n" "n < 2 * (2 * 2 ^ m)" by linarith+
    ultimately show ?thesis by simp
  qed
qed

lemma scale_bounds:
  assumes "0 < x" shows "2 ^ 52 \<le> x / pow2 (scale x)" "x / pow2 (scale x) < 2 ^ 53"
proof -
  obtain n d where q: "quotient_of x = (n, d)" by fastforce
  then have x: "x = of_int n / of_int d" "0 < d" using quotient_of_div quotient_of_denom_pos by blast+
  then have "0 < n" using assms by (simp add: zero_less_divide_iff)
  define a b where "a = bits (nat n)" and "b = bits (nat d)"
  have n: "2 ^ (a - 1) \<le> nat n" "nat n < 2 ^ a" "0 < a" and d: "2 ^ (b - 1) \<le> nat d" "nat d < 2 ^ b" "0 < b"
    using bits_bounds [of "nat n"] bits_bounds [of "nat d"] \<open>0 < n\<close> x(2) by (simp_all add: a_def b_def)
  have real_bounds: "2 ^ (a - 1) \<le> (of_int n :: rat)" "(of_int n :: rat) < 2 ^ a" "2 ^ (b - 1) \<le> (of_int d :: rat)" "(of_int d :: rat) < 2 ^ b"
    using n(1,2) d(1,2) \<open>0 < n\<close> x(2) by (simp_all add: nat_less_iff le_nat_iff)
  let ?k = "int a - int b - 53"
  have A: "(2 :: rat) ^ a = 2 * 2 ^ (a - 1)" and B: "(2 :: rat) ^ b = 2 * 2 ^ (b - 1)"
    using n(3) d(3) by (simp_all add: power_eq_if)
  have k: "pow2 ?k * (2 ^ b * 2 ^ 53) = 2 ^ a"
  proof -
    have "pow2 (?k + int b + int 53) = pow2 ?k * 2 ^ b * 2 ^ 53" unfolding pow2_add pow2_nat ..
    moreover have "?k + int b + int 53 = int a" by simp
    ultimately show ?thesis by (simp only: pow2_nat mult.assoc)
  qed
  have lower: "2 ^ 52 * pow2 ?k < x" 
  proof -
    have "2 ^ 52 * pow2 ?k * of_int d < 2 ^ 52 * pow2 ?k * 2 ^ b" using real_bounds(4) by simp
    also have "\<dots> = 2 ^ a / 2" using k by (simp add: field_simps)
    also have "\<dots> \<le> of_int n" using real_bounds(1) A by simp
    finally show ?thesis using x(2) by (subst x(1)) (simp add: pos_less_divide_eq)
  qed
  have upper: "x < 2 ^ 54 * pow2 ?k"
  proof -
    have "of_int n < (2 :: rat) ^ a" by (rule real_bounds)
    also have "\<dots> = 2 ^ 54 * pow2 ?k * 2 ^ (b - 1)" using k B by (simp add: field_simps)
    also have "\<dots> \<le> 2 ^ 54 * pow2 ?k * of_int d" using real_bounds(3) by simp
    finally show ?thesis using x(2) by (subst x(1)) (simp add: pos_divide_less_eq)
  qed
  have s: "scale x = (if x / pow2 ?k < 2 ^ 53 then ?k else ?k + 1)"
    by (simp add: scale_def q Let_def a_def b_def)
  have "pow2 1 = 2" by (simp add: pow2_def)
  then have "pow2 (?k + 1) = 2 * pow2 ?k" by (simp only: pow2_add mult.commute)
  then show "2 ^ 52 \<le> x / pow2 (scale x)" "x / pow2 (scale x) < 2 ^ 53"
    using lower upper by (auto simp: s field_simps)
qed

lemma half_even_nearest: "\<bar>of_int (half_even y) - y\<bar> \<le> \<bar>of_int m - y\<bar>"
proof -
  define f where "f = \<lfloor>y\<rfloor>"
  have f: "of_int f \<le> y" "y < of_int f + 1" unfolding f_def by linarith+
  have "m \<le> f \<or> f + 1 \<le> m" by linarith
  then have m: "of_int m \<le> (of_int f :: rat) \<or> of_int f + 1 \<le> (of_int m :: rat)"
    by (metis of_int_1 of_int_add of_int_le_iff)
  have "half_even y = (if y - of_int f < 1 / 2 then f else if y - of_int f > 1 / 2 then f + 1 else if even f then f else f + 1)"
    by (simp add: half_even_def f_def)
  then show ?thesis using f m by (auto split: if_splits)
qed

lemma half_even_bounds: "2 ^ 52 \<le> y \<Longrightarrow> y < 2 ^ 53 \<Longrightarrow> 2 ^ 52 \<le> half_even y \<and> half_even y \<le> 2 ^ 53"
proof -
  assume y: "2 ^ 52 \<le> y" "y < 2 ^ 53"
  then have "2 ^ 52 \<le> \<lfloor>y\<rfloor>" "\<lfloor>y\<rfloor> < 2 ^ 53" by (simp_all add: le_floor_iff floor_less_iff)
  then show ?thesis by (auto simp: half_even_def Let_def)
qed


lemma rnd_form:
  "\<exists>j m. rnd x = of_int m * pow2 j \<and> \<bar>m\<bar> \<le> 2 ^ 53"
proof (cases "x = 0")
  case True
  then show ?thesis by (intro exI [of _ 0]) (simp add: rnd_def)
next
  case False
  define k where "k = scale \<bar>x\<bar>"
  define h where "h = half_even (\<bar>x\<bar> / pow2 k)"
  have "2 ^ 52 \<le> h \<and> h \<le> 2 ^ 53" unfolding h_def k_def using scale_bounds [of "\<bar>x\<bar>"] False by (intro half_even_bounds) simp_all
  then show ?thesis
    using False by (rule_tac exI [of _ k], rule_tac exI [of _ "(if 0 < x then h else - h)"]) (auto simp add: rnd_def Let_def sgn_if h_def k_def)
qed

text \<open>No double is nearer to \<open>x\<close> than \<open>rnd x\<close>.\<close>

lemma rnd_nearest: "\<bar>rnd x - x\<bar> \<le> \<bar>rnd w - x\<bar>"
proof (cases "x = 0")
  case True
  then show ?thesis by (simp add: rnd_def)
next
  case False
  define k where "k = scale \<bar>x\<bar>"
  define y where "y = \<bar>x\<bar> / pow2 k"
  have y: "2 ^ 52 \<le> y" "\<bar>x\<bar> = y * pow2 k" using scale_bounds [of "\<bar>x\<bar>"] False by (simp_all add: y_def k_def)
  have x: "x = sgn x * (y * pow2 k)" using y(2) by (metis mult.commute abs_mult_sgn)
  have s: "\<bar>sgn x\<bar> = 1" using False by (simp add: abs_sgn_eq)
  have r: "rnd x = sgn x * (of_int (half_even y) * pow2 k)" using False by (simp add: rnd_def Let_def y_def k_def)
  have "rnd x - x = sgn x * ((of_int (half_even y) - y) * pow2 k)"
    by (subst (2) x) (simp add: r algebra_simps)
  then have err: "\<bar>rnd x - x\<bar> = \<bar>of_int (half_even y) - y\<bar> * pow2 k" using s by (simp add: abs_mult)
  obtain j m where w: "rnd w = of_int m * pow2 j" "\<bar>m\<bar> \<le> 2 ^ 53" using rnd_form by blast
  show ?thesis
  proof (cases "k \<le> j")
    case True
    then have "rnd w = of_int (m * 2 ^ nat (j - k)) * pow2 k" by (simp add: w(1) pow2_split)
    then obtain i where i: "rnd w = of_int i * pow2 k" by blast
    have "sgn x * of_int i = of_int (if 0 < x then i else - i)" using \<open>x \<noteq> 0\<close> by (simp add: sgn_if)
    then obtain i' where i': "sgn x * of_int i = of_int i'" by blast
    have "sgn x * (rnd w - x) = (of_int i' - y) * pow2 k"
      using s by (subst x) (simp add: i i' [symmetric] algebra_simps abs_mult_self_eq sgn_if split: if_splits)
    then have "\<bar>rnd w - x\<bar> = \<bar>of_int i' - y\<bar> * pow2 k" using s by (metis abs_mult abs_of_pos mult_1 pow2_pos(1))
    then show ?thesis using half_even_nearest [of y i'] by (simp add: err)
  next
    case False
    have "\<bar>rnd w\<bar> = of_int \<bar>m\<bar> * pow2 j" by (simp add: w(1) abs_mult)
    also have "\<dots> \<le> 2 ^ 53 * pow2 j" using w(2) by (metis mult_right_mono of_int_le_iff of_int_numeral of_int_power less_imp_le pow2_pos(1))
    also have "\<dots> \<le> 2 ^ 52 * pow2 k"
    proof -
      have "2 * pow2 j \<le> pow2 k"
        using False pow2_split [of "j + 1" k] by (simp add: pow2_add) (simp add: pow2_def)
      then show ?thesis by simp
    qed
    finally have "\<bar>x\<bar> - 2 ^ 52 * pow2 k \<le> \<bar>rnd w - x\<bar>" by linarith
    moreover have "\<bar>of_int (half_even y) - y\<bar> \<le> y - 2 ^ 52" using half_even_nearest [of y "2 ^ 52"] y(1) by simp
    then have "\<bar>rnd x - x\<bar> \<le> (y - 2 ^ 52) * pow2 k" by (simp add: err)
    ultimately show ?thesis using y(2) by (simp add: algebra_simps)
  qed
qed


lemma rnd_minus: "- rnd x = rnd (- x)"
  by (simp add: rnd_def Let_def)

lemma rnd_pos: "0 < x \<Longrightarrow> 0 < rnd x"
  using half_even_bounds [OF scale_bounds [of x]] by (simp add: rnd_def Let_def)

lemma epsilon_pos: "0 < epsilon"
  unfolding epsilon_def by (rule rnd_pos) simp

section \<open>Comparing estimated times\<close>

lemma rnd_minus_epsilon: "rnd w - 2 * epsilon \<le> rnd (rnd w - epsilon)" "rnd (rnd w - epsilon) \<le> rnd w"
  using rnd_nearest [of "rnd w - epsilon" w] epsilon_pos by linarith+

lemma rnd_small: "\<bar>rnd x\<bar> < epsilon \<Longrightarrow> \<bar>x\<bar> < epsilon"
  using rnd_nearest [of x "1 / 10 ^ 12"] rnd_nearest [of x "- (1 / 10 ^ 12)"] epsilon_pos rnd_minus [of "1 / 10 ^ 12"]
  unfolding epsilon_def by linarith

lemma est_time_double: "est_time inp c = Some t \<Longrightarrow> \<exists>w. t = rnd w"
  by (auto simp: est_time_def Let_def split: option.splits if_splits)

lemma better_times:
  assumes "est_time inp c = Some t" "est_time inp b = Some u"
  shows "better inp c b \<Longrightarrow> t \<le> u + epsilon" "\<not> better inp c b \<Longrightarrow> u \<le> t + 2 * epsilon"
proof -
  obtain w where u: "u = rnd w" using est_time_double [OF assms(2)] by blast
  note r = rnd_minus_epsilon [of w, folded u] and s = rnd_small [of "t - u"]
  show "better inp c b \<Longrightarrow> t \<le> u + epsilon" "\<not> better inp c b \<Longrightarrow> u \<le> t + 2 * epsilon"
    using r s epsilon_pos by (auto simp: better_def assms split: if_splits)
qed

lemma est_time_measured: "\<not> unmeasured inp \<Longrightarrow> \<exists>t. est_time inp c = Some t"
  by (auto simp: est_time_def unmeasured_def Let_def word_neq_0_conv split: option.splits)

abbreviation time :: "PlannerInput \<Rightarrow> Candidate \<Rightarrow> double" where
  "time inp c \<equiv> the (est_time inp c)"

lemma best_real_fastest:
  assumes "\<not> unmeasured inp" "best_real inp (Some b) cs = Some r"
  shows "time inp r \<le> time inp b + of_nat (length cs) * epsilon \<and>
    (\<forall>x \<in> set cs. real x \<longrightarrow> time inp r \<le> time inp x + of_nat (length cs + 1) * epsilon)"
  using assms(2)
proof (induction cs arbitrary: b)
  case (Cons c cs)
  note e = epsilon_pos
  show ?case
  proof (cases "real c")
    case False
    then have "best_real inp (Some b) cs = Some r" using Cons.prems by (auto simp: real_def)
    from Cons.IH [OF this] False e show ?thesis by (fastforce simp: algebra_simps)
  next
    case True
    then have r: "best_real inp (Some (if better inp c b then c else b)) cs = Some r"
      using Cons.prems by (auto simp: real_def split: if_splits)
    obtain t u where t: "est_time inp c = Some t" "est_time inp b = Some u" using est_time_measured [OF assms(1)] by metis
    note bt = better_times [OF t] and IH = Cons.IH [OF r]
    show ?thesis
      using bt IH e t by (cases "better inp c b") (fastforce simp: algebra_simps)+
  qed
qed simp


lemma best_real_fastest_all:
  assumes "\<not> unmeasured inp" "best_real inp None cs = Some r" "x \<in> set cs" "real x"
  shows "time inp r \<le> time inp x + of_nat (length cs + 1) * epsilon"
  using assms(2,3)
proof (induction cs)
  case (Cons c cs)
  note e = epsilon_pos
  show ?case
  proof (cases "real c")
    case False
    then have "time inp r \<le> time inp x + of_nat (length cs + 1) * epsilon"
      using Cons assms(4) by (auto simp: real_def)
    then show ?thesis using e by (simp add: algebra_simps)
  next
    case True
    then have "best_real inp (Some c) cs = Some r" using Cons.prems by (auto simp: real_def)
    from best_real_fastest [OF assms(1) this] Cons.prems(2) assms(4) e show ?thesis by (fastforce simp: algebra_simps)
  qed
qed simp

text \<open>A concrete input, with 1 GB/s and 10 ns.\<close>

definition measured_input :: PlannerInput where
  "measured_input = sample_input\<lparr>pi_measured_bandwidth := Some 1000000000, pi_measured_latency_ns := Some 10\<rparr>"

definition sample_entry :: "Algorithm \<Rightarrow> Candidate" where
  "sample_entry = entry measured_input sample_descriptor (reference_backend_capabilities (StrongId 1) (Generation 1))
     (group_size (group_of sample_builder)) 16"

section \<open>Property\<close>

text \<open>C8: with a measured latency or a measured bandwidth other than zero, no applicable algorithm is estimated to
  be faster than the chosen one by more than nine times the tolerance of 1e-12 ns within which the planner
  takes two times for equal: the estimates of at most eight candidates are compared one after the other, each
  with that tolerance, so the error adds up but does not grow.\<close>

theorem measured_choice:
  assumes "pi_descriptor inp = Some d" "pi_group inp = Some g" "pi_backend inp = Some bk"
    and "planned_bytes d (group_size g) = Inr p" "unat (group_size g) \<le> 2 ^ 63"
    and "\<not> unmeasured inp" "backend_accepts bk d (group_size g)"
    and "algorithm_feasible (cd_kind d) a" "\<not> placeholder a" "fits_topology inp a"
  shows "\<exists>pl t u. plan counter now inp = Inr (pl, counter + 1) \<and>
    est_time inp (entry inp d bk (group_size g) p (pl_algorithm pl)) = Some t \<and>
    est_time inp (entry inp d bk (group_size g) p a) = Some u \<and> t \<le> u + 9 * epsilon"
proof -
  let ?e = "entry inp d bk (group_size g) p"
  obtain b where b: "select_best inp (map ?e algorithms) = Some (?e b)" "b \<noteq> BACKEND_DEFAULT" "reject inp d bk (group_size g) b = None"
    by (rule select_accepted [OF assms(7)])
  have a: "real (?e a)" using assms(7-10) by (auto simp: real_entry reject_None placeholder_def fits_topology_def)
  then have "best_real inp None (map ?e algorithms) \<noteq> None" unfolding best_real_None by auto
  then have "best_real inp None (map ?e algorithms) = Some (?e b)" using b(1) by (auto simp: select_best_def split: option.splits)
  moreover have "?e a \<in> set (map ?e algorithms)" "length (map ?e algorithms) + 1 = 9" by simp (simp add: algorithms_def)
  ultimately have "time inp (?e b) \<le> time inp (?e a) + 9 * epsilon"
    using best_real_fastest_all [OF assms(6) _ _ a] by (metis of_nat_numeral)
  moreover obtain t u where "est_time inp (?e b) = Some t" "est_time inp (?e a) = Some u"
    using est_time_measured [OF assms(6)] by metis
  ultimately show ?thesis using b(1) by (auto simp: plan_eq [OF assms(1-5)] make_plan_def)
qed

theorem measured_choice_witness:
  "\<exists>pl t u. plan 0 0 measured_input = Inr (pl, 1) \<and>
    est_time measured_input (sample_entry (pl_algorithm pl)) = Some t \<and>
    est_time measured_input (sample_entry TREE) = Some u \<and> t \<le> u + 9 * epsilon"
proof -
  have m: "pi_descriptor measured_input = Some sample_descriptor" "pi_group measured_input = Some (group_of sample_builder)"
    "pi_backend measured_input = Some (reference_backend_capabilities (StrongId 1) (Generation 1))" "\<not> unmeasured measured_input"
    by (simp_all add: measured_input_def sample_input_ok unmeasured_def)
  show ?thesis unfolding sample_entry_def
    using measured_choice [OF m(1-3) sample_input_ok(4,5) m(4) sample_input_ok(7), of TREE 0 0]
    by (simp add: placeholder_def fits_topology_def del: algorithm_feasible.simps)
qed

end
