(* ===== verification/CF_Health.thy ===== *)
theory CF_Health
  imports CF_Double CF_Enums
begin

text \<open>
  The records of \<open>measurement.hpp\<close>, \<open>failure.hpp\<close> and \<open>health.hpp\<close>, and the health progression.
\<close>

section \<open>Measurements\<close>

record CollectiveMeasurement =
  cm_id :: MeasurementId
  cm_collective :: CollectiveId
  cm_collective_generation :: CollectiveGeneration
  cm_group_generation :: GroupGeneration
  cm_algorithm :: Algorithm
  cm_backend :: BackendId
  cm_rank_count :: u64
  cm_payload_bytes :: u64
  cm_logical_collective_bytes :: u64
  cm_estimated_network_bytes :: "u64 option"
  cm_wall_time_us :: u64
  cm_per_rank_duration_us :: "u64 option"
  cm_payload_throughput :: "double option"
  cm_logical_throughput :: "double option"
  cm_estimated_link_throughput :: "double option"
  cm_latency_us :: "u64 option"
  cm_overlap_duration_us :: "u64 option"
  cm_queue_wait_duration_us :: "u64 option"
  cm_execution_duration_us :: "u64 option"
  cm_success :: bool
  cm_topology_generation :: TopologyGeneration
  cm_provenance :: MeasurementProvenance
  cm_freshness :: MeasurementFreshness
  cm_confidence :: "double option"
  cm_timestamp_utc_ns :: u64
  cm_interval_ns :: u64
  cm_measurement_generation :: MeasurementGeneration
  cm_source :: Source
  cm_narrative :: string

definition new_measurement :: CollectiveMeasurement where
  "new_measurement =
     \<lparr>cm_id = null_id, cm_collective = null_id, cm_collective_generation = null_gen,
      cm_group_generation = null_gen, cm_algorithm = Algorithm.UNKNOWN, cm_backend = null_id,
      cm_rank_count = 0, cm_payload_bytes = 0, cm_logical_collective_bytes = 0,
      cm_estimated_network_bytes = None, cm_wall_time_us = 0, cm_per_rank_duration_us = None,
      cm_payload_throughput = None, cm_logical_throughput = None, cm_estimated_link_throughput = None,
      cm_latency_us = None, cm_overlap_duration_us = None, cm_queue_wait_duration_us = None,
      cm_execution_duration_us = None, cm_success = False, cm_topology_generation = null_gen,
      cm_provenance = MeasurementProvenance.UNKNOWN, cm_freshness = MeasurementFreshness.UNKNOWN,
      cm_confidence = None, cm_timestamp_utc_ns = 0, cm_interval_ns = 0,
      cm_measurement_generation = null_gen, cm_source = null_source, cm_narrative = []\<rparr>"

section \<open>Failures\<close>

record CollectiveFailure =
  cf_class :: FailureClass
  cf_participant :: "ParticipantId option"
  cf_rank :: "RankId option"
  cf_collective :: CollectiveId
  cf_collective_generation :: CollectiveGeneration
  cf_attempt :: AttemptId
  cf_attempt_generation :: AttemptGeneration
  cf_side_effects_may_have_occurred :: bool
  cf_retry_permitted :: bool
  cf_reconfiguration_required :: bool
  cf_prior_results_invalid :: bool
  cf_source :: Source
  cf_observed_utc_ns :: u64
  cf_narrative :: string

definition new_failure :: CollectiveFailure where
  "new_failure =
     \<lparr>cf_class = FailureClass.UNKNOWN, cf_participant = None, cf_rank = None, cf_collective = null_id,
      cf_collective_generation = null_gen, cf_attempt = null_id, cf_attempt_generation = null_gen,
      cf_side_effects_may_have_occurred = False, cf_retry_permitted = False,
      cf_reconfiguration_required = False, cf_prior_results_invalid = False, cf_source = null_source,
      cf_observed_utc_ns = 0, cf_narrative = []\<rparr>"

section \<open>Health\<close>

record HealthRecord =
  hr_state :: HealthState
  hr_generation :: HealthGeneration
  hr_source :: Source
  hr_observed_utc_ns :: u64
  hr_narrative :: string

definition new_health :: HealthRecord where
  "new_health =
     \<lparr>hr_state = HealthState.UNKNOWN, hr_generation = null_gen, hr_source = null_source,
      hr_observed_utc_ns = 0, hr_narrative = []\<rparr>"

definition health_is_zero :: "HealthRecord \<Rightarrow> bool" where
  "health_is_zero h = (hr_state h = HealthState.UNKNOWN)"

definition advance_health :: "HealthState \<Rightarrow> FailureClass \<Rightarrow> HealthState" where
  "advance_health current ev =
     (if ev = PARTICIPANT_FAILURE \<or> ev = WORKER_DEATH \<or> ev = TRANSPORT_FAILURE \<or> ev = DEVICE_FAILURE
      then (if current = UNHEALTHY then UNHEALTHY else DEGRADED)
      else if current = HealthState.UNKNOWN then DEGRADED else current)"

end
