(* ===== verification/CF_Runtime.thy ===== *)
theory CF_Runtime
  imports CF_Planner CF_Engine CF_Health CF_Lifecycle CF_Accounting CF_Authority
    "HOL-Library.Product_Lexorder"
begin

text \<open>
  \<open>runtime.hpp\<close> and \<open>src/runtime.cpp\<close>: the session object. Every public operation but
  \<open>execute_collective\<close> holds the mutex from its first to its last access of the state, so it is one
  function from the state to its result (or what it threw) and the new state: what an operation has
  written before it throws stays written, as in the code. \<open>execute_collective\<close> takes the mutex to look
  up its inputs, to move to RUNNING and to commit; its sections are definitions of their own, composed
  by \<open>execute_collective\<close>. Clock readings, the id counter of \<open>make_source\<close> and the
  floating-point operations of the engine are arguments.
\<close>

section \<open>State\<close>

text \<open>A registered \<open>CollectiveBackend\<close> is what its four constant queries return.\<close>

record Backend =
  be_id :: BackendId
  be_capabilities :: BackendCapabilities
  be_name :: string
  be_is_reference :: bool

definition reference_backend :: "BackendId \<Rightarrow> BackendGeneration \<Rightarrow> Backend" where
  "reference_backend i g =
     (let caps = reference_backend_capabilities i g in
      \<lparr>be_id = i, be_capabilities = caps, be_name = bc_name caps, be_is_reference = True\<rparr>)"

record Execution =
  ex_descriptor :: CollectiveDescriptor
  ex_plan :: CollectivePlan
  ex_lifecycle :: CollectiveState
  ex_attempt :: AttemptId
  ex_attempt_generation :: AttemptGeneration
  ex_dispatch :: DispatchId
  ex_reservation :: ReservationId
  ex_rank_completions :: "(RankId, bool) omap"
  ex_failure :: "CollectiveFailure option"
  ex_measurement :: "MeasurementId option"
  ex_outputs :: "bytes list"
  ex_collective_id :: CollectiveId

type_synonym group_key = "CollectiveGroupId \<times> GroupGeneration"

record Runtime =
  rt_next_id :: u64
  rt_backends :: "(BackendId, Backend) omap"
  rt_topology :: "Topology option"
  rt_groups :: "(group_key, CollectiveGroup) omap"
  rt_executions :: "(ExecutionId, Execution) omap"
  rt_measurements :: "(MeasurementId, CollectiveMeasurement) omap"
  rt_health :: HealthRecord
  rt_accounting :: Accounting
  rt_authority :: AuthorityGroundTruth
  rt_source_counter :: u64

definition new_plan :: CollectivePlan where
  "new_plan =
     \<lparr>pl_algorithm = Algorithm.UNKNOWN, pl_backend = null_id, pl_transport = TransportClass.UNKNOWN,
      pl_expected_byte_movement = 0, pl_expected_steps = 0, pl_expected_critical_path_ns = None,
      pl_rank_order = [], pl_hierarchy_depth = 0, pl_overlap_eligible = False, pl_overlap_reason = [],
      pl_factors = [], pl_explanation = [], pl_hard_constraints = [],
      pl_provenance = ProvenanceKind.UNKNOWN, pl_policy_generation = null_gen,
      pl_topology_generation = null_gen, pl_health_generation = null_gen,
      pl_collective_generation = null_gen, pl_backend_generation = null_gen, pl_source = null_source\<rparr>"

definition new_runtime :: Runtime where
  "new_runtime =
     \<lparr>rt_next_id = 1, rt_backends = [], rt_topology = None, rt_groups = [], rt_executions = [],
      rt_measurements = [], rt_health = new_health, rt_accounting = new_accounting,
      rt_authority = \<lparr>gt_epoch = Generation 1, live_boot = null_id, gt_group_generation = null_gen,
        gt_collective_generation = null_gen, gt_attempt_generation = null_gen,
        gt_dispatch_generation = null_gen\<rparr>,
      rt_source_counter = 0\<rparr>"

section \<open>Operations that keep what they wrote when they throw\<close>

type_synonym 'a op = "Runtime \<Rightarrow> (fault + 'a) \<times> Runtime"

definition ret :: "'a \<Rightarrow> 'a op" where
  "ret x rt = (Inr x, rt)"

definition throw :: "fault \<Rightarrow> 'a op" where
  "throw f rt = (Inl f, rt)"

definition andthen :: "'a op \<Rightarrow> ('a \<Rightarrow> 'b op) \<Rightarrow> 'b op" where
  "andthen m k rt = (case m rt of (Inl f, rt') \<Rightarrow> (Inl f, rt') | (Inr x, rt') \<Rightarrow> k x rt')"

definition lift_sum :: "fault + 'a \<Rightarrow> 'a op" where
  "lift_sum v rt = (v, rt)"

definition modify :: "(Runtime \<Rightarrow> Runtime) \<Rightarrow> unit op" where
  "modify f rt = (Inr (), f rt)"

definition reads :: "(Runtime \<Rightarrow> 'a) \<Rightarrow> 'a op" where
  "reads f rt = (Inr (f rt), rt)"

text \<open>\<open>next_id_++\<close>\<close>

definition fresh_id :: "u64 op" where
  "fresh_id rt = (Inr (rt_next_id rt), rt\<lparr>rt_next_id := rt_next_id rt + 1\<rparr>)"

definition account :: "(Accounting \<Rightarrow> fault + Accounting) \<Rightarrow> unit op" where
  "account f rt = (case f (rt_accounting rt) of Inl e \<Rightarrow> (Inl e, rt) | Inr a \<Rightarrow> (Inr (), rt\<lparr>rt_accounting := a\<rparr>))"

definition require :: "ExecutionId \<Rightarrow> Execution op" where
  "require e rt = (or_throw (om_find (rt_executions rt) e) (Error NOT_FOUND ''unknown execution''), rt)"

text \<open>Writing through the reference \<open>require\<close> returned.\<close>

definition store :: "ExecutionId \<Rightarrow> Execution \<Rightarrow> Runtime \<Rightarrow> Runtime" where
  "store e ex rt = rt\<lparr>rt_executions := om_put e ex (rt_executions rt)\<rparr>"

definition update :: "ExecutionId \<Rightarrow> (Execution \<Rightarrow> Execution) \<Rightarrow> unit op" where
  "update e f = andthen (require e) (\<lambda>ex. modify (store e (f ex)))"

definition move :: "ExecutionId \<Rightarrow> CollectiveState \<Rightarrow> unit op" where
  "move e to = andthen (require e) (\<lambda>ex.
     andthen (lift_sum (transition_to (ex_lifecycle ex) to)) (\<lambda>s.
     modify (store e (ex\<lparr>ex_lifecycle := s\<rparr>))))"

text \<open>\<open>try { transition_to(to); } catch (const Error&) {}\<close>\<close>

definition try_move :: "ExecutionId \<Rightarrow> CollectiveState \<Rightarrow> unit op" where
  "try_move e to = update e (\<lambda>ex. ex\<lparr>ex_lifecycle := try_transition (ex_lifecycle ex) to\<rparr>)"

section \<open>Backends, topology, groups\<close>

definition register_backend :: "Backend option \<Rightarrow> unit op" where
  "register_backend b =
     (case b of
        None \<Rightarrow> throw (Error INVALID_ARGUMENT ''register_backend: null backend'')
      | Some b \<Rightarrow> modify (\<lambda>rt. rt\<lparr>rt_backends := om_put (be_id b) b (rt_backends rt)\<rparr>))"

definition find_backend :: "BackendId \<Rightarrow> Runtime \<Rightarrow> Backend option" where
  "find_backend i rt = om_find (rt_backends rt) i"

definition backend_ids :: "Runtime \<Rightarrow> BackendId list" where
  "backend_ids rt = om_keys (rt_backends rt)"

definition adopt_topology :: "Topology \<Rightarrow> unit op" where
  "adopt_topology t = modify (\<lambda>rt. rt\<lparr>rt_topology := Some t\<rparr>)"

definition runtime_topology :: "Runtime \<Rightarrow> Topology option" where
  "runtime_topology rt = rt_topology rt"

definition topology_generation :: "Runtime \<Rightarrow> TopologyGeneration" where
  "topology_generation rt = (case rt_topology rt of Some t \<Rightarrow> tp_generation t | None \<Rightarrow> null_gen)"

definition group_key_of :: "CollectiveGroup \<Rightarrow> group_key" where
  "group_key_of g = (cg_id g, cg_generation g)"

definition register_group :: "CollectiveGroup \<Rightarrow> CollectiveGroup op" where
  "register_group g rt =
     (if om_find (rt_groups rt) (group_key_of g) \<noteq> None
      then (Inl (Error ALREADY_EXISTS ''group generation already registered''), rt)
      else (Inr g, rt\<lparr>rt_groups := om_put (group_key_of g) g (rt_groups rt)\<rparr>))"

definition find_group :: "CollectiveGroupId \<Rightarrow> GroupGeneration \<Rightarrow> Runtime \<Rightarrow> CollectiveGroup option" where
  "find_group i gen rt = om_find (rt_groups rt) (i, gen)"

definition find_group_by_boot :: "CollectiveGroupId \<Rightarrow> WorkerBootId \<Rightarrow> Runtime \<Rightarrow> CollectiveGroup option" where
  "find_group_by_boot i boot rt =
     (case find (\<lambda>(key, g). fst key = i \<and> is_live_authority g boot) (rt_groups rt) of
        None \<Rightarrow> None | Some (key, g) \<Rightarrow> Some g)"

section \<open>Executions up to dispatch\<close>

definition descriptor_key :: "CollectiveDescriptor \<Rightarrow> group_key" where
  "descriptor_key d = (cd_group_id d, cd_group_generation d)"

definition new_execution :: "CollectiveDescriptor \<Rightarrow> u64 \<Rightarrow> Execution" where
  "new_execution d attempt =
     \<lparr>ex_descriptor = d, ex_plan = new_plan, ex_lifecycle = CREATED, ex_attempt = StrongId attempt,
      ex_attempt_generation = Generation 1, ex_dispatch = null_id, ex_reservation = null_id,
      ex_rank_completions = [], ex_failure = None, ex_measurement = None, ex_outputs = [],
      ex_collective_id = cd_collective_id d\<rparr>"

definition create_collective :: "CollectiveDescriptor \<Rightarrow> ExecutionId op" where
  "create_collective d =
     (if id_is_null (cd_group_id d) \<or> gen_is_null (cd_group_generation d)
      then throw (Error ErrorCode.VALIDATION ''collective requires a group id and group generation'')
      else andthen (reads (\<lambda>rt. om_find (rt_groups rt) (descriptor_key d))) (\<lambda>g.
        if g = None
        then throw (Error ErrorCode.VALIDATION ''collective references an unknown group generation'')
        else andthen (lift_sum (validate_descriptor d)) (\<lambda>_.
          andthen fresh_id (\<lambda>eid.
          andthen fresh_id (\<lambda>attempt.
          andthen (modify (store (StrongId eid) (new_execution d attempt))) (\<lambda>_.
          ret (StrongId eid)))))))"

definition plan_collective :: "u64 \<Rightarrow> ExecutionId \<Rightarrow> PlannerInput \<Rightarrow> CollectivePlan op" where
  "plan_collective now e inp =
     andthen (move e PLANNED) (\<lambda>_.
     andthen (require e) (\<lambda>ex.
     andthen (reads rt_source_counter) (\<lambda>counter.
     andthen (lift_sum (plan counter now (inp\<lparr>pi_descriptor := Some (ex_descriptor ex)\<rparr>))) (\<lambda>(pl, counter').
     andthen (modify (\<lambda>rt. rt\<lparr>rt_source_counter := counter'\<rparr>)) (\<lambda>_.
     andthen (update e (\<lambda>ex. ex\<lparr>ex_plan := pl\<rparr>)) (\<lambda>_.
     ret pl))))))"

definition reserve_collective :: "ExecutionId \<Rightarrow> ReservationId op" where
  "reserve_collective e =
     andthen (move e RESERVED) (\<lambda>_.
     andthen (require e) (\<lambda>ex.
     andthen (lift_sum (element_byte_count (ex_descriptor ex))) (\<lambda>n.
     andthen fresh_id (\<lambda>i.
     andthen (update e (\<lambda>ex. ex\<lparr>ex_reservation := StrongId i\<rparr>)) (\<lambda>_.
     andthen (account (reserve (StrongId i) n)) (\<lambda>_.
     andthen (account (\<lambda>a. Inr (collective_started a))) (\<lambda>_.
     ret (StrongId i))))))))"

definition dispatch_collective :: "ExecutionId \<Rightarrow> DispatchId op" where
  "dispatch_collective e =
     andthen (move e DISPATCHED) (\<lambda>_.
     andthen fresh_id (\<lambda>i.
     andthen (update e (\<lambda>ex. ex\<lparr>ex_dispatch := StrongId i\<rparr>)) (\<lambda>_.
     ret (StrongId i))))"

section \<open>Quorum\<close>

definition quorum :: "CollectiveGroup \<Rightarrow> (RankId, bool) omap \<Rightarrow> bool" where
  "quorum g done =
     (length (filter (\<lambda>p. om_find done (pt_rank p) \<noteq> None) (cg_participants g)) = cg_rank_count g)"

definition apply_quorum :: "ExecutionId \<Rightarrow> unit op" where
  "apply_quorum e =
     andthen (require e) (\<lambda>ex.
     andthen (reads (\<lambda>rt. om_find (rt_groups rt) (descriptor_key (ex_descriptor ex)))) (\<lambda>grp.
     case grp of
       None \<Rightarrow> try_move e CollectiveState.FAILED
     | Some g \<Rightarrow>
         if quorum g (ex_rank_completions ex) \<and> ex_lifecycle ex = COMPLETING
         then try_move e SUCCEEDED else ret ()))"

section \<open>Execution on the reference engine\<close>

record environment =
  ev_start_us :: u64
  ev_end_us :: u64
  ev_failure_ns :: u64
  ev_wall_ns :: u64
  ev_source_ns :: u64
  ev_floats :: float_ops

definition per_rank_bytes :: "CollectiveDescriptor \<Rightarrow> u64 \<Rightarrow> fault + u64" where
  "per_rank_bytes d rank_count =
     (if cd_kind d = ALL_GATHER \<or> cd_kind d = REDUCE_SCATTER
      then aggregate_byte_count rank_count d else element_byte_count d)"

text \<open>The checks of the \<open>try\<close> block before the move to RUNNING.\<close>

definition check_inputs :: "CollectiveDescriptor \<Rightarrow> CollectiveGroup option \<Rightarrow> bytes list \<Rightarrow> fault + unit" where
  "check_inputs d grp inputs =
     (let rank_count = (case grp of Some g \<Rightarrow> cg_rank_count g | None \<Rightarrow> 0) in
      sbind (throw_if (grp = None) (Error ErrorCode.VALIDATION ''execute: group not found'')) (\<lambda>_.
      sbind (throw_if (length inputs < rank_count)
               (Error ErrorCode.VALIDATION ''execute: missing rank inputs'')) (\<lambda>_.
      sbind (per_rank_bytes d (of_nat rank_count)) (\<lambda>expected.
      throw_if (list_ex (\<lambda>r. length (inputs ! r) \<noteq> unat expected) [0..<rank_count])
        (Error ErrorCode.VALIDATION ''execute: rank input size mismatch'')))))"

definition run_engine :: "float_ops \<Rightarrow> CollectiveDescriptor \<Rightarrow> u64 \<Rightarrow> bytes list \<Rightarrow> fault + bytes list" where
  "run_engine F d rank_count inputs =
     execute F (cd_kind d) (cd_reduction d) (cd_datatype d) (cd_element_count d)
       (if id_is_null (cd_root d) then 0 else raw (cd_root d)) rank_count inputs"

text \<open>The \<open>try\<close> block: what it threw is the \<open>Inl\<close> of its value, which the operation catches.\<close>

definition attempt :: "environment \<Rightarrow> ExecutionId \<Rightarrow> CollectiveDescriptor \<Rightarrow> CollectiveGroup option \<Rightarrow> bytes list
    \<Rightarrow> Runtime \<Rightarrow> (fault + bytes list) \<times> Runtime" where
  "attempt ev e d grp inputs =
     andthen (lift_sum (check_inputs d grp inputs)) (\<lambda>_.
     andthen (move e RUNNING) (\<lambda>_.
     lift_sum (run_engine (ev_floats ev) d (case grp of Some g \<Rightarrow> group_size g | None \<Rightarrow> 0) inputs)))"

definition failure_of :: "environment \<Rightarrow> CollectiveDescriptor \<Rightarrow> string \<Rightarrow> CollectiveFailure" where
  "failure_of ev d what = new_failure
     \<lparr>cf_class := FailureClass.UNKNOWN, cf_collective := cd_collective_id d,
      cf_collective_generation := cd_collective_generation d, cf_attempt := null_id,
      cf_observed_utc_ns := ev_failure_ns ev, cf_narrative := what,
      cf_side_effects_may_have_occurred := True\<rparr>"

definition commit_failure :: "environment \<Rightarrow> ExecutionId \<Rightarrow> CollectiveDescriptor \<Rightarrow> string \<Rightarrow> MeasurementId op" where
  "commit_failure ev e d what =
     andthen (try_move e CollectiveState.FAILED) (\<lambda>_.
     andthen (update e (\<lambda>ex. ex\<lparr>ex_failure := Some (failure_of ev d what)\<rparr>)) (\<lambda>_.
     andthen (lift_sum (element_byte_count d)) (\<lambda>n.
     andthen (account (\<lambda>a. Inr (failed_bytes n a))) (\<lambda>_.
     ret null_id))))"

definition complete_all :: "nat \<Rightarrow> (RankId, bool) omap \<Rightarrow> (RankId, bool) omap" where
  "complete_all n m = foldl (\<lambda>m r. om_put (StrongId (of_nat r)) True m) m [0..<n]"

definition throughput :: "u64 \<Rightarrow> u64 \<Rightarrow> double" where
  "throughput n wall_time_us = rnd (to_double n / rnd (to_double wall_time_us / 10 ^ 6))"

definition measure :: "environment \<Rightarrow> Runtime \<Rightarrow> Execution \<Rightarrow> u64 \<Rightarrow> u64 \<Rightarrow> u64 \<Rightarrow> CollectiveMeasurement" where
  "measure ev rt ex i n payload =
     (let wall = ev_end_us ev - ev_start_us ev;
          logical = (case checked_mul payload n of Some b \<Rightarrow> b | None \<Rightarrow> 0)
      in new_measurement
        \<lparr>cm_id := StrongId i, cm_collective := ex_collective_id ex,
         cm_collective_generation := cd_collective_generation (ex_descriptor ex),
         cm_group_generation := cd_group_generation (ex_descriptor ex),
         cm_algorithm := pl_algorithm (ex_plan ex), cm_backend := pl_backend (ex_plan ex),
         cm_rank_count := n, cm_payload_bytes := payload, cm_wall_time_us := wall,
         cm_execution_duration_us := Some wall, cm_success := True,
         cm_topology_generation := topology_generation rt,
         cm_provenance := MeasurementProvenance.MEASURED, cm_freshness := MeasurementFreshness.CURRENT,
         cm_timestamp_utc_ns := ev_wall_ns ev, cm_measurement_generation := Generation 1,
         cm_source := fst (make_source (rt_source_counter rt) (ev_source_ns ev)
           ''reference in-process execution'' ProvenanceKind.MEASURED),
         cm_logical_collective_bytes := logical,
         cm_payload_throughput := (if wall > 0 then Some (throughput payload wall) else None),
         cm_logical_throughput := (if wall > 0 \<and> logical > 0 then Some (throughput logical wall) else None)\<rparr>)"

definition commit_success :: "environment \<Rightarrow> ExecutionId \<Rightarrow> u64 \<Rightarrow> bytes list \<Rightarrow> MeasurementId op" where
  "commit_success ev e n outs =
     andthen (update e (\<lambda>ex. ex\<lparr>ex_rank_completions := complete_all (unat n) (ex_rank_completions ex)\<rparr>)) (\<lambda>_.
     andthen (update e (\<lambda>ex. ex\<lparr>ex_outputs := outs\<rparr>)) (\<lambda>_.
     andthen (try_move e COMPLETING) (\<lambda>_.
     andthen (apply_quorum e) (\<lambda>_.
     andthen fresh_id (\<lambda>i.
     andthen (require e) (\<lambda>ex.
     andthen (lift_sum (element_byte_count (ex_descriptor ex))) (\<lambda>payload.
     andthen (reads (\<lambda>rt. measure ev rt ex i n payload)) (\<lambda>m.
     andthen (modify (\<lambda>rt. rt\<lparr>rt_source_counter := rt_source_counter rt + 1,
                              rt_measurements := om_put (StrongId i) m (rt_measurements rt)\<rparr>)) (\<lambda>_.
     andthen (update e (\<lambda>ex. ex\<lparr>ex_measurement := Some (StrongId i)\<rparr>)) (\<lambda>_.
     andthen (account collective_completed) (\<lambda>_.
     andthen (account (\<lambda>a. Inr (completed_bytes (case checked_mul payload n of Some b \<Rightarrow> b | None \<Rightarrow> 0) a))) (\<lambda>_.
     ret (StrongId i)))))))))))))"

text \<open>After the \<open>try\<close> block: an exception is committed as a failure, a result as a success.\<close>

definition commit :: "environment \<Rightarrow> ExecutionId \<Rightarrow> CollectiveDescriptor \<Rightarrow> u64 \<Rightarrow> fault + bytes list \<Rightarrow> MeasurementId op" where
  "commit ev e d n outcome =
     (case outcome of
        Inl (Error c what) \<Rightarrow> andthen (require e) (\<lambda>_. commit_failure ev e d what)
      | Inl f \<Rightarrow> throw f
      | Inr outs \<Rightarrow> commit_success ev e n outs)"

definition execute_collective :: "environment \<Rightarrow> ExecutionId \<Rightarrow> bytes list \<Rightarrow> MeasurementId op" where
  "execute_collective ev e inputs rt =
     (case om_find (rt_executions rt) e of
        None \<Rightarrow> (Inr null_id, rt)
      | Some ex \<Rightarrow>
          (let d = ex_descriptor ex;
               grp = om_find (rt_groups rt) (descriptor_key d);
               n = (case grp of Some g \<Rightarrow> group_size g | None \<Rightarrow> 0);
               (outcome, rt') = attempt ev e d grp inputs rt
           in commit ev e d n outcome rt'))"

section \<open>Completion, failure and cancellation\<close>

definition complete_rank :: "ExecutionId \<Rightarrow> RankId \<Rightarrow> unit op" where
  "complete_rank e r =
     andthen (require e) (\<lambda>ex.
     if om_find (ex_rank_completions ex) r \<noteq> None
     then throw (Error ErrorCode.CONFLICT ''duplicate rank completion'')
     else
       andthen (update e (\<lambda>ex. ex\<lparr>ex_rank_completions := om_put r True (ex_rank_completions ex)\<rparr>)) (\<lambda>_.
       andthen (account rank_contribution_complete) (\<lambda>_.
       andthen (if ex_lifecycle ex = RUNNING then try_move e COMPLETING else ret ()) (\<lambda>_.
       apply_quorum e))))"

definition fail_collective :: "ExecutionId \<Rightarrow> CollectiveFailure \<Rightarrow> unit op" where
  "fail_collective e f =
     andthen (require e) (\<lambda>ex.
     if ex_lifecycle ex = CollectiveState.FAILED then ret ()
     else if \<not> allowed (ex_lifecycle ex) CollectiveState.FAILED
     then throw (Error LIFECYCLE ''cannot fail collective in current state'')
     else
       andthen (move e CollectiveState.FAILED) (\<lambda>_.
       andthen (update e (\<lambda>ex. ex\<lparr>ex_failure := Some f\<rparr>)) (\<lambda>_.
       andthen (lift_sum (element_byte_count (ex_descriptor ex))) (\<lambda>n.
       account (\<lambda>a. Inr (failed_bytes n a))))))"

definition abort_collective :: "ExecutionId \<Rightarrow> unit op" where
  "abort_collective e = andthen (move e ABORTED) (\<lambda>_. account collective_aborted)"

definition cancel_collective :: "ExecutionId \<Rightarrow> unit op" where
  "cancel_collective e = move e CANCELLED"

definition mark_stale_collective :: "ExecutionId \<Rightarrow> unit op" where
  "mark_stale_collective e = move e CollectiveState.STALE"

section \<open>Queries, measurements, health, authority\<close>

definition execution_state :: "ExecutionId \<Rightarrow> CollectiveState op" where
  "execution_state e = andthen (require e) (\<lambda>ex. ret (ex_lifecycle ex))"

definition execution_plan :: "ExecutionId \<Rightarrow> CollectivePlan op" where
  "execution_plan e = andthen (require e) (\<lambda>ex. ret (ex_plan ex))"

definition execution_descriptor :: "ExecutionId \<Rightarrow> Runtime \<Rightarrow> CollectiveDescriptor option" where
  "execution_descriptor e rt = map_option ex_descriptor (om_find (rt_executions rt) e)"

definition outputs :: "ExecutionId \<Rightarrow> bytes list op" where
  "outputs e = andthen (require e) (\<lambda>ex. ret (ex_outputs ex))"

definition ingest_measurement :: "CollectiveMeasurement \<Rightarrow> unit op" where
  "ingest_measurement m = modify (\<lambda>rt. rt\<lparr>rt_measurements := om_put (cm_id m) m (rt_measurements rt)\<rparr>)"

definition measurement_count :: "Runtime \<Rightarrow> nat" where
  "measurement_count rt = length (rt_measurements rt)"

definition measurement_ids :: "Runtime \<Rightarrow> MeasurementId list" where
  "measurement_ids rt = om_keys (rt_measurements rt)"

definition measurement :: "MeasurementId \<Rightarrow> Runtime \<Rightarrow> CollectiveMeasurement option" where
  "measurement i rt = om_find (rt_measurements rt) i"

definition update_health :: "HealthRecord \<Rightarrow> unit op" where
  "update_health h =
     andthen (reads rt_health) (\<lambda>cur.
     if \<not> health_is_zero cur \<and> generation_is_older (hr_generation h) (hr_generation cur)
     then andthen (account (\<lambda>a. Inr (stale_message_rejected a))) (\<lambda>_.
       throw (Error ErrorCode.STALE_AUTHORITY ''old health report rejected''))
     else modify (\<lambda>rt. rt\<lparr>rt_health := h\<rparr>))"

definition path_health :: "Runtime \<Rightarrow> HealthState" where
  "path_health rt = hr_state (rt_health rt)"

definition health_generation :: "Runtime \<Rightarrow> HealthGeneration" where
  "health_generation rt = hr_generation (rt_health rt)"

definition advance_epoch :: "unit op" where
  "advance_epoch = modify (\<lambda>rt. rt\<lparr>rt_authority := (rt_authority rt)\<lparr>gt_epoch := gen_next (gt_epoch (rt_authority rt))\<rparr>\<rparr>)"

definition set_live_boot :: "WorkerBootId \<Rightarrow> unit op" where
  "set_live_boot b = modify (\<lambda>rt. rt\<lparr>rt_authority := (rt_authority rt)\<lparr>live_boot := b\<rparr>\<rparr>)"


section \<open>Reasoning about operations\<close>

lemma om_find_put_any [simp]: "om_find (om_put k v m) j = (if j = k then Some v else om_find m j)"
  by (induction k v m rule: om_put.induct) auto

named_theorems op_simps "the result and the state of an operation"

lemma andthen_eq [op_simps]:
  "andthen m k rt = (case m rt of (Inl f, rt') \<Rightarrow> (Inl f, rt') | (Inr x, rt') \<Rightarrow> k x rt')"
  by (simp add: andthen_def)

lemmas [op_simps] = ret_def throw_def lift_sum_def modify_def reads_def fresh_id_def account_def require_def

text \<open>How an execution and a runtime may evolve.\<close>

definition ex_evolves :: "Execution \<Rightarrow> Execution \<Rightarrow> bool" where
  "ex_evolves ex ex' \<longleftrightarrow>
     ex_descriptor ex' = ex_descriptor ex \<and> ex_attempt ex' = ex_attempt ex \<and>
     ex_collective_id ex' = ex_collective_id ex \<and>
     allowed\<^sup>*\<^sup>* (ex_lifecycle ex) (ex_lifecycle ex') \<and>
     (\<forall>r. om_find (ex_rank_completions ex) r \<noteq> None \<longrightarrow> om_find (ex_rank_completions ex') r \<noteq> None)"

definition evolves :: "Runtime \<Rightarrow> Runtime \<Rightarrow> bool" where
  "evolves rt rt' \<longleftrightarrow>
     (\<forall>k g. om_find (rt_groups rt) k = Some g \<longrightarrow> om_find (rt_groups rt') k = Some g) \<and>
     (\<forall>e ex. om_find (rt_executions rt) e = Some ex \<longrightarrow>
       (\<exists>ex'. om_find (rt_executions rt') e = Some ex' \<and> ex_evolves ex ex')) \<and>
     (\<forall>r n. om_find (reservations (rt_accounting rt)) r = Some n \<longrightarrow>
       om_find (reservations (rt_accounting rt')) r = Some n) \<and>
     gt_epoch (rt_authority rt) \<le> gt_epoch (rt_authority rt')"

lemma ex_evolves_refl [simp]: "ex_evolves ex ex"
  by (simp add: ex_evolves_def)

lemma ex_evolves_trans: "ex_evolves a b \<Longrightarrow> ex_evolves b c \<Longrightarrow> ex_evolves a c"
  by (auto simp: ex_evolves_def)

lemma evolves_refl [simp]: "evolves rt rt"
  by (auto simp: evolves_def)

lemma evolves_trans: "evolves a b \<Longrightarrow> evolves b c \<Longrightarrow> evolves a c"
  unfolding evolves_def by (meson ex_evolves_trans order_trans)

text \<open>
  The invariant: execution and reservation ids come from the counter, every execution's group is registered, an
  execution that is SUCCEEDED has a completion of every rank of its group, and the counter of active
  rank contributions is zero.
\<close>

definition ex_ok :: "Runtime \<Rightarrow> ExecutionId \<Rightarrow> Execution \<Rightarrow> bool" where
  "ex_ok rt e ex \<longleftrightarrow>
     0 < raw e \<and> raw e < rt_next_id rt \<and>
     (\<exists>g. om_find (rt_groups rt) (descriptor_key (ex_descriptor ex)) = Some g \<and>
       (ex_lifecycle ex = SUCCEEDED \<longrightarrow> quorum g (ex_rank_completions ex)))"

definition runtime_ok :: "Runtime \<Rightarrow> bool" where
  "runtime_ok rt \<longleftrightarrow>
     0 < rt_next_id rt \<and> active_rank_contributions (rt_accounting rt) = 0 \<and>
     (\<forall>r. om_find (reservations (rt_accounting rt)) r \<noteq> None \<longrightarrow> raw r < rt_next_id rt) \<and>
     (\<forall>e ex. om_find (rt_executions rt) e = Some ex \<longrightarrow> ex_ok rt e ex)"

definition room :: "nat \<Rightarrow> Runtime \<Rightarrow> bool" where
  "room n rt \<longleftrightarrow> unat (rt_next_id rt) + n < 2 ^ 64"

text \<open>An operation that takes at most \<open>n\<close> ids, keeps the invariant and only lets the state evolve.\<close>

definition safe :: "nat \<Rightarrow> 'a op \<Rightarrow> bool" where
  "safe n m \<longleftrightarrow> (\<forall>rt. runtime_ok rt \<longrightarrow> room n rt \<longrightarrow>
     runtime_ok (snd (m rt)) \<and> evolves rt (snd (m rt)) \<and>
     unat (rt_next_id (snd (m rt))) \<le> unat (rt_next_id rt) + n)"

lemma safe_unchanged: "(\<And>rt. snd (m rt) = rt) \<Longrightarrow> safe 0 m"
  by (simp add: safe_def)

lemma safe_basic [inv_intros]:
  "safe 0 (ret x)" "safe 0 (throw f)" "safe 0 (lift_sum v)" "safe 0 (reads h)" "safe 0 (require e)"
  by (rule safe_unchanged; simp add: op_simps)+

lemma safe_andthen [inv_intros]:
  assumes "safe a m" "\<And>x. safe b (k x)"
  shows "safe (a + b) (andthen m k)"
  unfolding safe_def
proof (intro allI impI)
  fix rt assume ok: "runtime_ok rt" and room: "room (a + b) rt"
  then have "room a rt" by (simp add: room_def)
  with ok assms(1) have m: "runtime_ok (snd (m rt))" "evolves rt (snd (m rt))"
    "unat (rt_next_id (snd (m rt))) \<le> unat (rt_next_id rt) + a" by (simp_all add: safe_def)
  obtain r rt' where mr: "m rt = (r, rt')" by fastforce
  show "runtime_ok (snd (andthen m k rt)) \<and> evolves rt (snd (andthen m k rt)) \<and>
    unat (rt_next_id (snd (andthen m k rt))) \<le> unat (rt_next_id rt) + (a + b)"
  proof (cases r)
    case (Inl f)
    then show ?thesis using m mr by (simp add: andthen_eq)
  next
    case (Inr x)
    have "room b rt'" using m(3) room mr by (simp add: room_def)
    then have k: "runtime_ok (snd (k x rt'))" "evolves rt' (snd (k x rt'))"
      "unat (rt_next_id (snd (k x rt'))) \<le> unat (rt_next_id rt') + b"
      using assms(2) [of x] m(1) mr by (simp_all add: safe_def)
    then show ?thesis using m mr Inr evolves_trans [OF m(2)] by (simp add: andthen_eq)
  qed
qed

lemma safe_weaken: "safe a m \<Longrightarrow> a \<le> b \<Longrightarrow> safe b m"
  unfolding safe_def room_def by fastforce

lemma ex_ok_frame:
  assumes "ex_ok rt e ex" "rt_next_id rt \<le> rt_next_id rt'"
    and "\<And>k g. om_find (rt_groups rt) k = Some g \<Longrightarrow> om_find (rt_groups rt') k = Some g"
  shows "ex_ok rt' e ex"
  using assms unfolding ex_ok_def by (meson less_le_trans)

lemma safe_fresh_id [inv_intros]: "safe 1 fresh_id"
  unfolding safe_def
proof (intro allI impI)
  fix rt assume ok: "runtime_ok rt" and "room 1 rt"
  then have n: "unat (rt_next_id rt + 1) = unat (rt_next_id rt) + 1" by (simp add: unat_plus_u64 room_def)
  then have le: "rt_next_id rt \<le> rt_next_id rt + 1" "0 < rt_next_id rt + 1"
    by (simp_all add: word_le_nat_alt word_less_nat_alt)
  have "ex_ok (rt\<lparr>rt_next_id := rt_next_id rt + 1\<rparr>) e ex" if "om_find (rt_executions rt) e = Some ex" for e ex
    by (rule ex_ok_frame [where rt = rt]) (use ok that le(1) in \<open>simp_all add: runtime_ok_def\<close>)
  then show "runtime_ok (snd (fresh_id rt)) \<and> evolves rt (snd (fresh_id rt)) \<and>
      unat (rt_next_id (snd (fresh_id rt))) \<le> unat (rt_next_id rt) + 1"
    using ok n le by (auto simp add: runtime_ok_def fresh_id_def evolves_def intro: less_le_trans)
qed

text \<open>An operation that only changes parts the invariant does not speak of.\<close>

lemma safe_modify:
  assumes "\<And>rt. rt_next_id (f rt) = rt_next_id rt" "\<And>rt. rt_executions (f rt) = rt_executions rt"
    and "\<And>rt. rt_accounting (f rt) = rt_accounting rt"
    and "\<And>rt. gt_epoch (rt_authority rt) \<le> gt_epoch (rt_authority (f rt))"
    and "\<And>rt k g. om_find (rt_groups rt) k = Some g \<Longrightarrow> om_find (rt_groups (f rt)) k = Some g"
  shows "safe 0 (modify f)"
  unfolding safe_def
proof (intro allI impI)
  fix rt assume ok: "runtime_ok rt"
  have "ex_ok (f rt) e ex" if "om_find (rt_executions rt) e = Some ex" for e ex
    by (rule ex_ok_frame [where rt = rt]) (use that assms ok in \<open>simp_all add: runtime_ok_def\<close>)
  with ok show "runtime_ok (snd (modify f rt)) \<and> evolves rt (snd (modify f rt)) \<and>
      unat (rt_next_id (snd (modify f rt))) \<le> unat (rt_next_id rt) + 0"
    using assms by (simp add: runtime_ok_def modify_def evolves_def)
qed

lemma safe_account [inv_intros]:
  assumes "\<And>a a'. active_rank_contributions a = 0 \<Longrightarrow> f a = Inr a' \<Longrightarrow> active_rank_contributions a' = 0"
    and "\<And>a a'. f a = Inr a' \<Longrightarrow> reservations a' = reservations a"
  shows "safe 0 (account f)"
  unfolding safe_def
proof (intro allI impI)
  fix rt assume ok: "runtime_ok rt"
  show "runtime_ok (snd (account f rt)) \<and> evolves rt (snd (account f rt)) \<and>
      unat (rt_next_id (snd (account f rt))) \<le> unat (rt_next_id rt) + 0"
  proof (cases "f (rt_accounting rt)")
    case (Inr a)
    have "ex_ok (rt\<lparr>rt_accounting := a\<rparr>) e ex" if "om_find (rt_executions rt) e = Some ex" for e ex
      by (rule ex_ok_frame [where rt = rt]) (use that ok in \<open>simp_all add: runtime_ok_def\<close>)
    then show ?thesis
      using ok assms(1) [OF _ Inr] assms(2) [OF Inr] Inr
      by (simp add: runtime_ok_def account_def evolves_def)
  qed (use ok in \<open>simp add: account_def\<close>)
qed

text \<open>Writing back an execution that has evolved and still keeps the quorum rule.\<close>

lemma store_ok:
  assumes ok: "runtime_ok rt" and ex: "om_find (rt_executions rt) e = Some ex"
    and ev: "ex_evolves ex ex'"
    and q: "\<And>g. om_find (rt_groups rt) (descriptor_key (ex_descriptor ex)) = Some g \<Longrightarrow>
      ex_lifecycle ex' = SUCCEEDED \<Longrightarrow> quorum g (ex_rank_completions ex')"
  shows "runtime_ok (store e ex' rt)" "evolves rt (store e ex' rt)" "rt_next_id (store e ex' rt) = rt_next_id rt"
proof -
  have "ex_ok rt e ex" using ok ex by (simp add: runtime_ok_def)
  then have new: "ex_ok (store e ex' rt) e ex'"
    using ev q by (auto simp: ex_ok_def ex_evolves_def store_def)
  have "ex_ok (store e ex' rt) j x" if "om_find (rt_executions rt) j = Some x" for j x
    by (rule ex_ok_frame [where rt = rt]) (use that ok in \<open>simp_all add: runtime_ok_def store_def\<close>)
  with new ok show "runtime_ok (store e ex' rt)" by (simp add: runtime_ok_def store_def)
  show "evolves rt (store e ex' rt)" using ev ex by (auto simp: evolves_def store_def)
qed (simp add: store_def)

lemma filter_all: "length (filter P xs) = length xs \<longleftrightarrow> (\<forall>x \<in> set xs. P x)"
proof (induction xs)
  case (Cons x xs)
  have "length (filter P xs) \<noteq> Suc (length xs)" using length_filter_le [of P xs] by linarith
  then show ?case using Cons by simp
qed simp

lemma quorum_iff: "quorum g m \<longleftrightarrow> (\<forall>p \<in> set (cg_participants g). om_find m (pt_rank p) \<noteq> None)"
  by (simp add: quorum_def cg_rank_count_def filter_all)

lemma quorum_mono:
  "quorum g m \<Longrightarrow> (\<And>r. om_find m r \<noteq> None \<Longrightarrow> om_find m' r \<noteq> None) \<Longrightarrow> quorum g m'"
  by (simp add: quorum_iff)

lemma safe_update [inv_intros]:
  assumes "\<And>ex. ex_evolves ex (f ex)" "\<And>ex. ex_lifecycle (f ex) = SUCCEEDED \<Longrightarrow> ex_lifecycle ex = SUCCEEDED"
  shows "safe 0 (update e f)"
  unfolding safe_def
proof (intro allI impI)
  fix rt assume ok: "runtime_ok rt"
  show "runtime_ok (snd (update e f rt)) \<and> evolves rt (snd (update e f rt)) \<and>
      unat (rt_next_id (snd (update e f rt))) \<le> unat (rt_next_id rt) + 0"
  proof (cases "om_find (rt_executions rt) e")
    case (Some ex)
    have "quorum g (ex_rank_completions (f ex))"
      if "om_find (rt_groups rt) (descriptor_key (ex_descriptor ex)) = Some g" "ex_lifecycle (f ex) = SUCCEEDED" for g
    proof (rule quorum_mono)
      show "quorum g (ex_rank_completions ex)"
      proof -
        have "ex_ok rt e ex" using ok Some by (simp add: runtime_ok_def)
        then show ?thesis using that(1) assms(2) [OF that(2)] by (simp add: ex_ok_def)
      qed
    qed (use assms(1) [of ex] in \<open>simp add: ex_evolves_def\<close>)
    from store_ok [OF ok Some assms(1) this] show ?thesis
      using Some by (simp add: update_def op_simps)
  qed (use ok in \<open>simp add: update_def op_simps\<close>)
qed

lemma transition_evolves: "allowed s t \<Longrightarrow> allowed\<^sup>*\<^sup>* s t"
  by (rule r_into_rtranclp)

lemma safe_move [inv_intros]:
  assumes "to \<noteq> SUCCEEDED"
  shows "safe 0 (move e to)"
  unfolding safe_def
proof (intro allI impI)
  fix rt assume ok: "runtime_ok rt"
  show "runtime_ok (snd (move e to rt)) \<and> evolves rt (snd (move e to rt)) \<and>
      unat (rt_next_id (snd (move e to rt))) \<le> unat (rt_next_id rt) + 0"
  proof (cases "\<exists>ex. om_find (rt_executions rt) e = Some ex \<and> allowed (ex_lifecycle ex) to")
    case True
    then obtain ex where ex: "om_find (rt_executions rt) e = Some ex" "allowed (ex_lifecycle ex) to" by blast
    have "ex_evolves ex (ex\<lparr>ex_lifecycle := to\<rparr>)"
      using ex(2) by (simp add: ex_evolves_def transition_evolves)
    from store_ok [OF ok ex(1) this] show ?thesis
      using ex assms by (simp add: move_def op_simps transition_to_def)
  next
    case False
    then show ?thesis using ok
      by (cases "om_find (rt_executions rt) e") (auto simp: move_def op_simps transition_to_def)
  qed
qed

lemma safe_try_move [inv_intros]: "to \<noteq> SUCCEEDED \<Longrightarrow> safe 0 (try_move e to)"
  unfolding try_move_def
  by (rule safe_update) (auto simp: ex_evolves_def try_transition_eq transition_evolves split: if_splits)

lemma safe_apply_quorum [inv_intros]: "safe 0 (apply_quorum e)"
  unfolding safe_def
proof (intro allI impI)
  fix rt assume ok: "runtime_ok rt"
  show "runtime_ok (snd (apply_quorum e rt)) \<and> evolves rt (snd (apply_quorum e rt)) \<and>
      unat (rt_next_id (snd (apply_quorum e rt))) \<le> unat (rt_next_id rt) + 0"
  proof (cases "om_find (rt_executions rt) e")
    case (Some ex)
    then have "ex_ok rt e ex" using ok by (simp add: runtime_ok_def)
    then obtain g where g: "om_find (rt_groups rt) (descriptor_key (ex_descriptor ex)) = Some g"
      by (auto simp: ex_ok_def)
    show ?thesis
    proof (cases "quorum g (ex_rank_completions ex) \<and> ex_lifecycle ex = COMPLETING")
      case True
      let ?ex = "ex\<lparr>ex_lifecycle := SUCCEEDED\<rparr>"
      have "ex_evolves ex ?ex" using True by (simp add: ex_evolves_def transition_evolves)
      from store_ok [OF ok Some this] True g show ?thesis
        using Some by (simp add: apply_quorum_def try_move_def update_def op_simps try_transition_eq)
    next
      case False
      then show ?thesis using ok Some g by (auto simp: apply_quorum_def op_simps)
    qed
  qed (use ok in \<open>simp add: apply_quorum_def op_simps\<close>)
qed

section \<open>Every operation is safe\<close>

definition keeps :: "Runtime \<Rightarrow> Runtime \<Rightarrow> nat \<Rightarrow> bool" where
  "keeps rt rt' n \<longleftrightarrow> runtime_ok rt' \<and> evolves rt rt' \<and> unat (rt_next_id rt') \<le> unat (rt_next_id rt) + n"

lemma safe_keeps: "safe n m \<Longrightarrow> runtime_ok rt \<Longrightarrow> room n rt \<Longrightarrow> keeps rt (snd (m rt)) n"
  by (simp add: safe_def keeps_def)

lemma safe_if [inv_intros]: "safe a m \<Longrightarrow> safe b k \<Longrightarrow> safe (max a b) (if c then m else k)"
  by (simp add: safe_weaken)

lemma safe_case_option [inv_intros]:
  "safe a m \<Longrightarrow> (\<And>x. safe b (k x)) \<Longrightarrow> safe (max a b) (case v of None \<Rightarrow> m | Some x \<Rightarrow> k x)"
  by (cases v) (auto intro: safe_weaken [of a] safe_weaken [of b])

lemma safe_case_prod [inv_intros]: "(\<And>x y. safe a (k x y)) \<Longrightarrow> safe a (case v of (x, y) \<Rightarrow> k x y)"
  by (cases v) simp

lemma fresh_execution:
  assumes "runtime_ok rt"
  shows "om_find (rt_executions rt) (StrongId (rt_next_id rt)) = None"
proof (rule ccontr)
  assume "om_find (rt_executions rt) (StrongId (rt_next_id rt)) \<noteq> None"
  then obtain x where "om_find (rt_executions rt) (StrongId (rt_next_id rt)) = Some x" by blast
  then have "ex_ok rt (StrongId (rt_next_id rt)) x" using assms by (simp add: runtime_ok_def)
  then show False by (simp add: ex_ok_def)
qed

lemma create_outcome:
  "snd (create_collective d rt) = rt \<or>
   om_find (rt_groups rt) (descriptor_key d) \<noteq> None \<and>
   snd (create_collective d rt) = store (StrongId (rt_next_id rt)) (new_execution d (rt_next_id rt + 1))
     (rt\<lparr>rt_next_id := rt_next_id rt + 1 + 1\<rparr>)"
  by (auto simp: create_collective_def op_simps split: sum.split)

lemma safe_create [inv_intros]: "safe 2 (create_collective d)"
  unfolding safe_def
proof (intro allI impI)
  fix rt assume ok: "runtime_ok rt" and room: "room 2 rt"
  let ?rt = "rt\<lparr>rt_next_id := rt_next_id rt + 1 + 1\<rparr>" and ?e = "StrongId (rt_next_id rt)"
  have two: "runtime_ok ?rt \<and> evolves rt ?rt \<and> unat (rt_next_id ?rt) \<le> unat (rt_next_id rt) + 2"
    using safe_andthen [OF safe_fresh_id safe_fresh_id] ok room by (auto simp: safe_def op_simps numeral_2_eq_2)
  have lt: "rt_next_id rt < rt_next_id rt + 1 + 1"
    using room by (simp add: word_less_nat_alt unat_plus_u64 room_def)
  show "runtime_ok (snd (create_collective d rt)) \<and> evolves rt (snd (create_collective d rt)) \<and>
      unat (rt_next_id (snd (create_collective d rt))) \<le> unat (rt_next_id rt) + 2"
  proof (cases "snd (create_collective d rt) = rt")
    case False
    then obtain g where g: "om_find (rt_groups rt) (descriptor_key d) = Some g"
      and eq: "snd (create_collective d rt) = store ?e (new_execution d (rt_next_id rt + 1)) ?rt"
      using create_outcome [of d rt] by blast
    note fresh = fresh_execution [OF ok]
    have new: "ex_ok (store ?e (new_execution d (rt_next_id rt + 1)) ?rt) ?e (new_execution d (rt_next_id rt + 1))"
      using ok g lt by (simp add: ex_ok_def new_execution_def store_def runtime_ok_def)
    have "ex_ok (store ?e (new_execution d (rt_next_id rt + 1)) ?rt) j x" if "om_find (rt_executions rt) j = Some x" for j x
      by (rule ex_ok_frame [where rt = ?rt]) (use that two in \<open>simp_all add: runtime_ok_def store_def\<close>)
    with new two have "runtime_ok (store ?e (new_execution d (rt_next_id rt + 1)) ?rt)"
      by (simp add: runtime_ok_def store_def)
    moreover have "evolves ?rt (store ?e (new_execution d (rt_next_id rt + 1)) ?rt)"
      using fresh by (auto simp: evolves_def store_def)
    ultimately show ?thesis using two evolves_trans by (auto simp: eq store_def)
  qed (use ok in simp)
qed

lemma safe_register_group [inv_intros]: "safe 0 (register_group g)"
  unfolding safe_def
proof (intro allI impI)
  fix rt assume ok: "runtime_ok rt"
  let ?rt = "rt\<lparr>rt_groups := om_put (group_key_of g) g (rt_groups rt)\<rparr>"
  show "runtime_ok (snd (register_group g rt)) \<and> evolves rt (snd (register_group g rt)) \<and>
      unat (rt_next_id (snd (register_group g rt))) \<le> unat (rt_next_id rt) + 0"
  proof (cases "om_find (rt_groups rt) (group_key_of g)")
    case None
    then have "ex_ok ?rt e ex" if "om_find (rt_executions rt) e = Some ex" for e ex
      by - (rule ex_ok_frame [where rt = rt], use that ok in \<open>auto simp: runtime_ok_def\<close>)
    then show ?thesis using None ok by (auto simp: register_group_def runtime_ok_def evolves_def)
  qed (use ok in \<open>simp add: register_group_def\<close>)
qed

lemma andthen_assoc: "andthen (andthen m k) h = andthen m (\<lambda>x. andthen (k x) h)"
  by (rule ext) (simp add: andthen_eq split: sum.split prod.split)

lemma andthen_ret: "andthen (ret x) k = k x"
  by (rule ext) (simp add: andthen_eq ret_def)

text \<open>Reserving under an id just drawn from the counter.\<close>

lemma reserve_fresh:
  assumes ok: "runtime_ok rt" and i: "raw i < rt_next_id rt"
  shows "keeps rt (snd (account (reserve i n) rt)) 0"
proof (cases "reserve i n (rt_accounting rt)")
  case (Inr a)
  then have a: "reservations a = om_put i n (reservations (rt_accounting rt))"
    "om_find (reservations (rt_accounting rt)) i = None"
    "active_rank_contributions a = active_rank_contributions (rt_accounting rt)"
    by (auto simp: reserve_def split: if_splits)
  have "ex_ok (rt\<lparr>rt_accounting := a\<rparr>) e ex" if "om_find (rt_executions rt) e = Some ex" for e ex
    by (rule ex_ok_frame [where rt = rt]) (use that ok in \<open>simp_all add: runtime_ok_def\<close>)
  then show ?thesis using ok i Inr a
    by (auto simp: keeps_def runtime_ok_def account_def evolves_def)
qed (use ok in \<open>simp add: keeps_def account_def\<close>)

lemma update_next_id [simp]: "rt_next_id (snd (update e f rt)) = rt_next_id rt"
  by (simp add: update_def op_simps store_def split: sum.split prod.split option.split)

lemma safe_reservation:
  assumes "\<And>i. safe b (k i)"
  shows "safe (1 + b) (andthen fresh_id (\<lambda>i. andthen (update e (\<lambda>ex. ex\<lparr>ex_reservation := StrongId i\<rparr>)) (\<lambda>_.
    andthen (account (reserve (StrongId i) n)) (\<lambda>_. k i))))"
proof -
  let ?u = "\<lambda>i. update e (\<lambda>ex. ex\<lparr>ex_reservation := StrongId i\<rparr>)"
  let ?m = "andthen fresh_id (\<lambda>i. andthen (?u i) (\<lambda>_. andthen (account (reserve (StrongId i) n)) (\<lambda>_. ret i)))"
  have "safe 1 ?m"
    unfolding safe_def
  proof (intro allI impI)
    fix rt assume ok: "runtime_ok rt" and room: "room 1 rt"
    let ?i = "rt_next_id rt"
    define rt1 where "rt1 = snd (fresh_id rt)"
    define rt2 where "rt2 = snd (?u ?i rt1)"
    have 1: "keeps rt rt1 1" unfolding rt1_def by (rule safe_keeps [OF safe_fresh_id ok room])
    have lt: "?i < rt_next_id rt1"
      using room by (simp add: rt1_def fresh_id_def word_less_nat_alt unat_plus_u64 room_def)
    have 2: "keeps rt1 rt2 0" unfolding rt2_def
      by (rule safe_keeps [OF safe_update]) (use 1 in \<open>auto simp: ex_evolves_def keeps_def room_def\<close>)
    have n2: "rt_next_id rt2 = rt_next_id rt1" by (simp add: rt2_def)
    have 3: "keeps rt2 (snd (account (reserve (StrongId ?i) n) rt2)) 0"
      by (rule reserve_fresh) (use 2 lt n2 in \<open>simp_all add: keeps_def\<close>)
    have "snd (?m rt) = rt2 \<or> snd (?m rt) = snd (account (reserve (StrongId ?i) n) rt2)"
      by (auto simp: andthen_eq ret_def rt2_def rt1_def fresh_id_def split: sum.split prod.split)
    then show "runtime_ok (snd (?m rt)) \<and> evolves rt (snd (?m rt)) \<and>
        unat (rt_next_id (snd (?m rt))) \<le> unat (rt_next_id rt) + 1"
      using 1 2 3 by (auto simp: keeps_def intro: evolves_trans)
  qed
  from safe_andthen [OF this assms] show ?thesis by (simp only: andthen_assoc andthen_ret)
qed

lemma safe_accounting [inv_intros]:
  "safe 0 (account (\<lambda>a. Inr (collective_started a)))"
  "safe 0 (account (\<lambda>a. Inr (failed_bytes n a)))" "safe 0 (account (\<lambda>a. Inr (completed_bytes n a)))"
  "safe 0 (account (\<lambda>a. Inr (stale_message_rejected a)))"
  "safe 0 (account collective_completed)" "safe 0 (account collective_aborted)"
  "safe 0 (account rank_contribution_complete)"
  by (rule safe_account; auto simp: collective_started_def failed_bytes_def completed_bytes_def
      stale_message_rejected_def collective_completed_def collective_aborted_def rank_contribution_complete_def
      split: if_splits)+

lemma safe_writes [inv_intros]:
  "safe 0 (update e (\<lambda>ex. ex\<lparr>ex_plan := pl\<rparr>))" "safe 0 (update e (\<lambda>ex. ex\<lparr>ex_reservation := i\<rparr>))"
  "safe 0 (update e (\<lambda>ex. ex\<lparr>ex_dispatch := di\<rparr>))" "safe 0 (update e (\<lambda>ex. ex\<lparr>ex_failure := f\<rparr>))"
  "safe 0 (update e (\<lambda>ex. ex\<lparr>ex_outputs := outs\<rparr>))" "safe 0 (update e (\<lambda>ex. ex\<lparr>ex_measurement := mi\<rparr>))"
  "safe 0 (update e (\<lambda>ex. ex\<lparr>ex_rank_completions := om_put r True (ex_rank_completions ex)\<rparr>))"
  by (rule safe_update; auto simp: ex_evolves_def)+

lemma complete_all_find:
  "om_find (complete_all n m) r =
     (if \<exists>i < n. r = StrongId (of_nat i) then Some True else om_find m r)"
  by (induction n) (auto simp: complete_all_def less_Suc_eq)

lemma safe_complete_all [inv_intros]:
  "safe 0 (update e (\<lambda>ex. ex\<lparr>ex_rank_completions := complete_all n (ex_rank_completions ex)\<rparr>))"
  by (rule safe_update) (auto simp: ex_evolves_def complete_all_find)

lemma safe_modifications [inv_intros]:
  "safe 0 (modify (\<lambda>rt. rt\<lparr>rt_source_counter := c\<rparr>))"
  "safe 0 (modify (\<lambda>rt. rt\<lparr>rt_source_counter := rt_source_counter rt + 1, rt_measurements := om_put i m (rt_measurements rt)\<rparr>))"
  "safe 0 (modify (\<lambda>rt. rt\<lparr>rt_measurements := om_put i m (rt_measurements rt)\<rparr>))"
  "safe 0 (modify (\<lambda>rt. rt\<lparr>rt_health := h\<rparr>))"
  "safe 0 (modify (\<lambda>rt. rt\<lparr>rt_topology := t\<rparr>))"
  "safe 0 (modify (\<lambda>rt. rt\<lparr>rt_backends := om_put bi b (rt_backends rt)\<rparr>))"
  "safe 0 (modify (\<lambda>rt. rt\<lparr>rt_authority := (rt_authority rt)\<lparr>live_boot := boot\<rparr>\<rparr>))"
  by (rule safe_modify; simp)+

lemma gen_next_mono: "g \<le> gen_next g"
proof (cases "gen_value g = UINT64_MAX")
  case False
  then have "unat (gen_value g) < 2 ^ 64 - 1"
    using unat_u64_less [of "gen_value g"] word_unat_eq_iff [of "gen_value g" UINT64_MAX]
    by (simp del: unat_u64_less)
  then have "gen_value g \<le> gen_value g + 1" by (simp add: word_le_nat_alt unat_plus_u64)
  then show ?thesis by (auto simp: gen_next_def less_eq_Generation_def)
qed (simp add: gen_next_def)

lemma safe_operations:
  "safe 2 (plan_collective now e inp)" "safe 2 (reserve_collective e)" "safe 2 (dispatch_collective e)"
  "safe 2 (complete_rank e r)" "safe 2 (fail_collective e f)" "safe 2 (abort_collective e)"
  "safe 2 (cancel_collective e)" "safe 2 (mark_stale_collective e)" "safe 2 (ingest_measurement m)"
  "safe 2 (update_health h)" "safe 2 advance_epoch" "safe 2 (set_live_boot b)"
  "safe 2 (register_backend bk)" "safe 2 (adopt_topology t)"
proof -
  show "safe 2 advance_epoch"
    unfolding advance_epoch_def by (rule safe_weaken [OF safe_modify]) (simp_all add: gen_next_mono)
qed (unfold plan_collective_def reserve_collective_def dispatch_collective_def complete_rank_def
    fail_collective_def abort_collective_def cancel_collective_def mark_stale_collective_def
    ingest_measurement_def update_health_def set_live_boot_def register_backend_def adopt_topology_def,
  (rule safe_weaken, (rule safe_reservation inv_intros | (simp; fail))+)+)

lemma safe_execute_sections:
  "safe 0 (attempt ev e d grp inputs)" "safe 1 (commit ev e d n outcome)"
proof -
  show "safe 0 (attempt ev e d grp inputs)"
    unfolding attempt_def by (rule safe_weaken, (rule inv_intros | (simp; fail))+)
  show "safe 1 (commit ev e d n outcome)"
  proof -
  have parts: "safe 1 (commit_failure ev e d what)" "safe 1 (commit_success ev e n outs)" for what outs
    unfolding commit_failure_def commit_success_def
    by ((rule safe_weaken, (rule inv_intros | (simp; fail))+)+)
  have "safe 1 (andthen (require e) (\<lambda>_. commit_failure ev e d what))" for what
    using parts(1) by - (rule safe_weaken, (rule inv_intros | assumption | (simp; fail))+)
  moreover have "safe 1 (throw f)" for f :: fault
    by (rule safe_weaken [OF safe_basic(2)]) simp
  ultimately show ?thesis
    using parts(2) by (auto simp: commit_def split: sum.split fault.split)
  qed
qed

end
