(* ===== verification/CF_Session.thy ===== *)
theory CF_Session
  imports CF_Runtime
begin

text \<open>
  Concurrent use of the runtime (\<open>src/src/runtime.cpp\<close>): a transition system whose steps are the calls
  of \<open>CollectiveFabricRuntime\<close>, with \<open>execute_collective\<close> split at the point where it runs the engine
  without the mutex; what every interleaving keeps; the life of one collective from creation to its
  measurement; and the runtime's properties.
\<close>

section \<open>Concurrent sessions\<close>

text \<open>
  Threads share the runtime. A call that holds the mutex throughout is one step. \<open>execute_collective\<close> is
  two: \<open>Start\<close> ends with the engine's outcome, \<open>Finish\<close> commits it, and any other steps may come in
  between. (Its look-ups before \<open>Start\<close> read the descriptor and the group of an existing execution,
  which never change, see \<open>evolves\<close>.)
\<close>

datatype call =
    RegisterBackend "Backend option" | AdoptTopology Topology | RegisterGroup CollectiveGroup
  | Create CollectiveDescriptor | Plan u64 ExecutionId PlannerInput | Reserve ExecutionId
  | Dispatch ExecutionId | CompleteRank ExecutionId RankId | Fail ExecutionId CollectiveFailure
  | Abort ExecutionId | Cancel ExecutionId | MarkStale ExecutionId
  | Ingest CollectiveMeasurement | UpdateHealth HealthRecord | AdvanceEpoch | SetLiveBoot WorkerBootId

fun after_call :: "call \<Rightarrow> Runtime \<Rightarrow> Runtime" where
  "after_call (RegisterBackend b) rt = snd (register_backend b rt)"
| "after_call (AdoptTopology t) rt = snd (adopt_topology t rt)"
| "after_call (RegisterGroup g) rt = snd (register_group g rt)"
| "after_call (Create d) rt = snd (create_collective d rt)"
| "after_call (Plan now e inp) rt = snd (plan_collective now e inp rt)"
| "after_call (Reserve e) rt = snd (reserve_collective e rt)"
| "after_call (Dispatch e) rt = snd (dispatch_collective e rt)"
| "after_call (CompleteRank e r) rt = snd (complete_rank e r rt)"
| "after_call (Fail e f) rt = snd (fail_collective e f rt)"
| "after_call (Abort e) rt = snd (abort_collective e rt)"
| "after_call (Cancel e) rt = snd (cancel_collective e rt)"
| "after_call (MarkStale e) rt = snd (mark_stale_collective e rt)"
| "after_call (Ingest m) rt = snd (ingest_measurement m rt)"
| "after_call (UpdateHealth h) rt = snd (update_health h rt)"
| "after_call AdvanceEpoch rt = snd (advance_epoch rt)"
| "after_call (SetLiveBoot b) rt = snd (set_live_boot b rt)"

record pending =
  pe_execution :: ExecutionId
  pe_descriptor :: CollectiveDescriptor
  pe_ranks :: u64
  pe_outcome :: "fault + bytes list"

record System =
  sy_runtime :: Runtime
  sy_pending :: "pending list"

definition new_system :: System where
  "new_system = \<lparr>sy_runtime = new_runtime, sy_pending = []\<rparr>"

inductive step :: "System \<Rightarrow> System \<Rightarrow> bool" where
  Call: "step s (s\<lparr>sy_runtime := after_call c (sy_runtime s)\<rparr>)"
| Start: "om_find (rt_executions (sy_runtime s)) e = Some ex \<Longrightarrow>
    grp = om_find (rt_groups (sy_runtime s)) (descriptor_key (ex_descriptor ex)) \<Longrightarrow>
    attempt ev e (ex_descriptor ex) grp inputs (sy_runtime s) = (outcome, rt) \<Longrightarrow>
    step s \<lparr>sy_runtime = rt, sy_pending = sy_pending s @
      [\<lparr>pe_execution = e, pe_descriptor = ex_descriptor ex,
        pe_ranks = (case grp of Some g \<Rightarrow> group_size g | None \<Rightarrow> 0), pe_outcome = outcome\<rparr>]\<rparr>"
| Finish: "i < length (sy_pending s) \<Longrightarrow> p = sy_pending s ! i \<Longrightarrow>
    commit ev (pe_execution p) (pe_descriptor p) (pe_ranks p) (pe_outcome p) (sy_runtime s) = (r, rt) \<Longrightarrow>
    step s \<lparr>sy_runtime = rt, sy_pending = take i (sy_pending s) @ drop (Suc i) (sy_pending s)\<rparr>"

text \<open>\<open>runs k s s'\<close>: \<open>k\<close> steps lead from \<open>s\<close> to \<open>s'\<close>.\<close>

inductive runs :: "nat \<Rightarrow> System \<Rightarrow> System \<Rightarrow> bool" where
  stop: "runs 0 s s"
| more: "runs k s t \<Longrightarrow> step t u \<Longrightarrow> runs (Suc k) s u"

lemma after_call_keeps:
  assumes "runtime_ok rt" "room 2 rt"
  shows "keeps rt (after_call c rt) 2"
proof (cases c)
  case (RegisterGroup g)
  then show ?thesis using safe_keeps [OF safe_weaken [OF safe_register_group, of 2] assms] by simp
qed (use safe_keeps [OF safe_operations(1) assms] safe_keeps [OF safe_operations(2) assms]
  safe_keeps [OF safe_operations(3) assms] safe_keeps [OF safe_operations(4) assms]
  safe_keeps [OF safe_operations(5) assms] safe_keeps [OF safe_operations(6) assms]
  safe_keeps [OF safe_operations(7) assms] safe_keeps [OF safe_operations(8) assms]
  safe_keeps [OF safe_operations(9) assms] safe_keeps [OF safe_operations(10) assms]
  safe_keeps [OF safe_operations(11) assms] safe_keeps [OF safe_operations(12) assms]
  safe_keeps [OF safe_operations(13) assms] safe_keeps [OF safe_operations(14) assms]
  safe_keeps [OF safe_create assms] in simp_all)

lemma room_weaken: "room n rt \<Longrightarrow> m \<le> n \<Longrightarrow> room m rt"
  by (simp add: room_def)

lemma keeps_weaken: "keeps rt rt' m \<Longrightarrow> m \<le> n \<Longrightarrow> keeps rt rt' n"
  by (simp add: keeps_def)

lemma step_keeps:
  assumes "step s t" "runtime_ok (sy_runtime s)" "room 2 (sy_runtime s)"
  shows "keeps (sy_runtime s) (sy_runtime t) 2"
  using assms
proof (cases rule: step.cases)
  case (Call c)
  then show ?thesis using after_call_keeps assms(2,3) by simp
next
  case (Start e ex grp ev inputs outcome rt)
  have "keeps (sy_runtime s) rt 0"
    using safe_keeps [OF safe_execute_sections(1) assms(2) room_weaken [OF assms(3)],
      of ev e "ex_descriptor ex" grp inputs] Start(4) by simp
  then show ?thesis using Start by (auto intro: keeps_weaken)
next
  case (Finish i p ev r rt)
  have "keeps (sy_runtime s) rt 1"
    using safe_keeps [OF safe_execute_sections(2) assms(2) room_weaken [OF assms(3)],
      of ev "pe_execution p" "pe_descriptor p" "pe_ranks p" "pe_outcome p"] Finish(4) by simp
  then show ?thesis using Finish by (auto intro: keeps_weaken)
qed

lemma runs_keeps:
  assumes "runs k s t" "runtime_ok (sy_runtime s)" "room (2 * k) (sy_runtime s)"
  shows "keeps (sy_runtime s) (sy_runtime t) (2 * k)"
  using assms
proof (induction rule: runs.induct)
  case (stop s)
  then show ?case by (simp add: keeps_def)
next
  case (more k s t u)
  then have st: "keeps (sy_runtime s) (sy_runtime t) (2 * k)" by (simp add: room_weaken)
  then have "room 2 (sy_runtime t)" using more.prems(2) by (simp add: keeps_def room_def)
  then have "keeps (sy_runtime t) (sy_runtime u) 2"
    using step_keeps [OF more.hyps(2)] st by (simp add: keeps_def)
  with st show ?case by (auto simp: keeps_def intro: evolves_trans)
qed

lemma runtime_ok_new: "runtime_ok new_runtime"
  by (simp add: runtime_ok_def new_runtime_def new_accounting_def)

lemma runs_from_new:
  assumes "runs k new_system s" "k < 2 ^ 62"
  shows "keeps new_runtime (sy_runtime s) (2 * k)"
  using runs_keeps [OF assms(1)] assms(2) runtime_ok_new
  by (simp add: new_system_def room_def new_runtime_def)

lemma runs_later:
  assumes "runs k new_system s" "runs m s t" "k + m < 2 ^ 62"
  shows "runtime_ok (sy_runtime s)" "keeps (sy_runtime s) (sy_runtime t) (2 * m)"
proof -
  have s: "keeps new_runtime (sy_runtime s) (2 * k)" using assms by (intro runs_from_new) auto
  then show ok: "runtime_ok (sy_runtime s)" by (simp add: keeps_def)
  have "room (2 * m) (sy_runtime s)" using s assms(3) by (simp add: keeps_def room_def new_runtime_def)
  then show "keeps (sy_runtime s) (sy_runtime t) (2 * m)" by (rule runs_keeps [OF assms(2) ok])
qed

section \<open>A session\<close>

lemma om_put_twice [simp]: "om_put k a (om_put k b m) = om_put k a m"
  by (induction k b m rule: om_put.induct) auto

text \<open>The life of one collective: create, plan, reserve, dispatch, execute.\<close>

definition session :: "environment \<Rightarrow> u64 \<Rightarrow> CollectiveDescriptor \<Rightarrow> PlannerInput \<Rightarrow> bytes list \<Rightarrow> (ExecutionId \<times> MeasurementId) op" where
  "session ev now d inp inputs =
     andthen (create_collective d) (\<lambda>e.
     andthen (plan_collective now e inp) (\<lambda>_.
     andthen (reserve_collective e) (\<lambda>_.
     andthen (dispatch_collective e) (\<lambda>_.
     andthen (execute_collective ev e inputs) (\<lambda>m.
     ret (e, m))))))"

lemma create_result:
  assumes "om_find (rt_groups rt) (descriptor_key d) = Some g" "\<not> id_is_null (cd_group_id d)"
    "\<not> gen_is_null (cd_group_generation d)" "valid_descriptor d"
  shows "create_collective d rt = (Inr (StrongId (rt_next_id rt)),
    store (StrongId (rt_next_id rt)) (new_execution d (rt_next_id rt + 1)) (rt\<lparr>rt_next_id := rt_next_id rt + 2\<rparr>))"
proof -
  have "validate_descriptor d = Inr ()" using assms(4) by (simp add: validate_descriptor_ok)
  then show ?thesis using assms by (simp add: create_collective_def op_simps add.assoc)
qed

lemma plan_result:
  assumes "om_find (rt_executions rt) e = Some ex" "ex_lifecycle ex = CREATED"
    and "plan (rt_source_counter rt) now (inp\<lparr>pi_descriptor := Some (ex_descriptor ex)\<rparr>) = Inr (pl, c)"
  shows "plan_collective now e inp rt =
    (Inr pl, (store e (ex\<lparr>ex_lifecycle := PLANNED, ex_plan := pl\<rparr>) rt)\<lparr>rt_source_counter := c\<rparr>)"
  using assms by (simp add: plan_collective_def move_def update_def op_simps store_def transition_to_def)

lemma reserve_result:
  assumes "om_find (rt_executions rt) e = Some ex" "ex_lifecycle ex = PLANNED"
    and "element_byte_count (ex_descriptor ex) = Inr n"
    and "om_find (reservations (rt_accounting rt)) (StrongId (rt_next_id rt)) = None"
  shows "reserve_collective e rt = (Inr (StrongId (rt_next_id rt)),
    (store e (ex\<lparr>ex_lifecycle := RESERVED, ex_reservation := StrongId (rt_next_id rt)\<rparr>) rt)
      \<lparr>rt_next_id := rt_next_id rt + 1,
       rt_accounting := collective_started ((rt_accounting rt)
         \<lparr>reservations := om_put (StrongId (rt_next_id rt)) n (reservations (rt_accounting rt)),
          reserved_bytes := reserved_bytes (rt_accounting rt) + n\<rparr>)\<rparr>)"
  using assms
  by (simp add: reserve_collective_def move_def update_def op_simps store_def transition_to_def reserve_def)

lemma dispatch_result:
  assumes "om_find (rt_executions rt) e = Some ex" "ex_lifecycle ex = RESERVED"
  shows "dispatch_collective e rt = (Inr (StrongId (rt_next_id rt)),
    (store e (ex\<lparr>ex_lifecycle := DISPATCHED, ex_dispatch := StrongId (rt_next_id rt)\<rparr>) rt)
      \<lparr>rt_next_id := rt_next_id rt + 1\<rparr>)"
  using assms by (simp add: dispatch_collective_def move_def update_def op_simps store_def transition_to_def)

lemma attempt_result:
  assumes "om_find (rt_executions rt) e = Some ex" "ex_lifecycle ex = DISPATCHED"
    and "check_inputs d grp inputs = Inr ()"
  shows "attempt ev e d grp inputs rt =
    (run_engine (ev_floats ev) d (case grp of Some g \<Rightarrow> group_size g | None \<Rightarrow> 0) inputs,
     store e (ex\<lparr>ex_lifecycle := RUNNING\<rparr>) rt)"
  using assms by (simp add: attempt_def move_def op_simps transition_to_def split: sum.split)

text \<open>A well-formed group has the ranks \<open>0..n-1\<close>, all of which \<open>complete_all\<close> marks.\<close>

lemma complete_all_quorum:
  assumes "group_wf g" "cg_rank_count g < 2 ^ 64"
  shows "quorum g (complete_all (unat (group_size g)) m)"
  unfolding quorum_iff
proof
  fix p assume "p \<in> set (cg_participants g)"
  then obtain i where i: "i < cg_rank_count g" "p = cg_participants g ! i"
    by (auto simp: in_set_conv_nth cg_rank_count_def)
  then have "pt_rank p = StrongId (of_nat i)"
    using assms(1) by (metis StrongId_raw cg_rank_count_def dense_def group_wf_def)
  moreover have "unat (group_size g) = cg_rank_count g"
    unfolding group_size_def by (rule unat_of_nat_u64) (rule assms(2))
  ultimately show "om_find (complete_all (unat (group_size g)) m) (pt_rank p) \<noteq> None"
    using i by (auto simp: complete_all_find)
qed

lemma measure_cong:
  "topology_generation rt = topology_generation rt' \<Longrightarrow> rt_source_counter rt = rt_source_counter rt' \<Longrightarrow>
   ex_descriptor ex = ex_descriptor ex' \<Longrightarrow> ex_plan ex = ex_plan ex' \<Longrightarrow> ex_collective_id ex = ex_collective_id ex' \<Longrightarrow>
   measure ev rt ex i n payload = measure ev rt' ex' i n payload"
  by (simp add: measure_def)

lemma commit_result:
  assumes ex: "om_find (rt_executions rt) e = Some ex" "ex_lifecycle ex = RUNNING"
    and g: "om_find (rt_groups rt) (descriptor_key (ex_descriptor ex)) = Some g"
    and q: "quorum g (complete_all (unat n) (ex_rank_completions ex))"
    and n: "element_byte_count (ex_descriptor ex) = Inr payload"
    and a: "active_collectives (rt_accounting rt) \<noteq> 0"
  shows "\<exists>rt'. commit_success ev e n outs rt = (Inr (StrongId (rt_next_id rt)), rt') \<and>
    rt_executions rt' = om_put e (ex\<lparr>ex_rank_completions := complete_all (unat n) (ex_rank_completions ex),
      ex_outputs := outs, ex_lifecycle := SUCCEEDED, ex_measurement := Some (StrongId (rt_next_id rt))\<rparr>) (rt_executions rt) \<and>
    rt_measurements rt' = om_put (StrongId (rt_next_id rt)) (measure ev rt ex (rt_next_id rt) n payload) (rt_measurements rt) \<and>
    active_collectives (rt_accounting rt') = active_collectives (rt_accounting rt) - 1 \<and>
    reservations (rt_accounting rt') = reservations (rt_accounting rt) \<and>
    reserved_bytes (rt_accounting rt') = reserved_bytes (rt_accounting rt)"
proof -
  let ?done = "complete_all (unat n) (ex_rank_completions ex)"
  define rt1 where "rt1 = store e (ex\<lparr>ex_rank_completions := ?done, ex_outputs := outs, ex_lifecycle := COMPLETING\<rparr>) rt"
  define rt2 where "rt2 = store e (ex\<lparr>ex_rank_completions := ?done, ex_outputs := outs, ex_lifecycle := SUCCEEDED\<rparr>) rt"
  have 1: "andthen (update e (\<lambda>ex. ex\<lparr>ex_rank_completions := complete_all (unat n) (ex_rank_completions ex)\<rparr>)) (\<lambda>_.
      andthen (update e (\<lambda>ex. ex\<lparr>ex_outputs := outs\<rparr>)) (\<lambda>_. andthen (try_move e COMPLETING) k)) rt = k () rt1" for k :: "unit \<Rightarrow> 'z op"
    using ex by (simp add: update_def try_move_def op_simps store_def rt1_def try_transition_eq)
  have 2: "apply_quorum e rt1 = (Inr (), rt2)"
    using g q by (simp add: apply_quorum_def rt1_def rt2_def op_simps store_def try_move_def update_def try_transition_eq)
  have m: "measure ev (rt2\<lparr>rt_next_id := j\<rparr>) (ex\<lparr>ex_rank_completions := c, ex_outputs := outs, ex_lifecycle := l\<rparr>) i n payload =
      measure ev rt ex i n payload" for c l i j
    by (rule measure_cong) (simp_all add: rt2_def store_def topology_generation_def)
  have e2: "om_find (rt_executions rt2) e =
      Some (ex\<lparr>ex_rank_completions := ?done, ex_outputs := outs, ex_lifecycle := SUCCEEDED\<rparr>)"
    "rt_next_id rt2 = rt_next_id rt" "rt_accounting rt2 = rt_accounting rt" "rt_measurements rt2 = rt_measurements rt"
    by (simp_all add: rt2_def store_def)
  have put: "om_put e x (rt_executions rt2) = om_put e x (rt_executions rt)" for x
    by (simp add: rt2_def store_def)
  show ?thesis
    unfolding commit_success_def 1
    using n a by (simp add: andthen_eq 2 fresh_id_def require_def lift_sum_def reads_def modify_def update_def
      account_def ret_def m e2 put store_def collective_completed_def completed_bytes_def)
qed

lemma element_of_checked:
  assumes "check_inputs d (Some g) inputs = Inr ()" shows "\<exists>n. element_byte_count d = Inr n"
proof -
  have "\<exists>m. per_rank_bytes d (of_nat (cg_rank_count g)) = Inr m"
    using assms by (auto simp: check_inputs_def Let_def err_simps)
  then show ?thesis
    by (auto simp: per_rank_bytes_def aggregate_byte_count_ok element_byte_count_eq split: if_splits)
qed

text \<open>The four operations before the execution, and the ids they hand out.\<close>

lemma session_dispatched:
  assumes ok: "runtime_ok rt" and room: "room 8 rt"
    and g: "om_find (rt_groups rt) (descriptor_key d) = Some g"
    and d: "\<not> id_is_null (cd_group_id d)" "\<not> gen_is_null (cd_group_generation d)" "valid_descriptor d"
    and pl: "plan (rt_source_counter rt) now (inp\<lparr>pi_descriptor := Some d\<rparr>) = Inr (pl, c)"
    and payload: "element_byte_count d = Inr payload"
    and i: "i = rt_next_id rt"
  obtains rt1 rt2 rt3 rt4 ex where
    "create_collective d rt = (Inr (StrongId i), rt1)" "plan_collective now (StrongId i) inp rt1 = (Inr pl, rt2)"
    "reserve_collective (StrongId i) rt2 = (Inr (StrongId (i + 2)), rt3)"
    "dispatch_collective (StrongId i) rt3 = (Inr (StrongId (i + 3)), rt4)"
    "om_find (rt_executions rt4) (StrongId i) = Some ex" "ex_lifecycle ex = DISPATCHED" "ex_descriptor ex = d"
    "ex_plan ex = pl" "ex_reservation ex = StrongId (i + 2)" "rt_groups rt4 = rt_groups rt" "rt_next_id rt4 = i + 4"
    "active_collectives (rt_accounting rt4) = active_collectives (rt_accounting rt) + 1"
    "reserved_bytes (rt_accounting rt4) = reserved_bytes (rt_accounting rt) + payload"
    "om_find (reservations (rt_accounting rt4)) (StrongId (i + 2)) = Some payload"
proof -
  let ?e = "StrongId i :: ExecutionId"
  define x1 where "x1 = new_execution d (i + 1)"
  define rt1 where "rt1 = store ?e x1 (rt\<lparr>rt_next_id := i + 2\<rparr>)"
  have s1: "create_collective d rt = (Inr ?e, rt1)"
    using create_result [OF g(1) d] by (simp add: rt1_def x1_def i)
  have x1: "om_find (rt_executions rt1) ?e = Some x1" "ex_lifecycle x1 = CREATED" "ex_descriptor x1 = d"
    by (simp_all add: rt1_def x1_def store_def new_execution_def)
  define x2 where "x2 = x1\<lparr>ex_lifecycle := PLANNED, ex_plan := pl\<rparr>"
  define rt2 where "rt2 = (store ?e x2 rt1)\<lparr>rt_source_counter := c\<rparr>"
  have s2: "plan_collective now ?e inp rt1 = (Inr pl, rt2)"
    using plan_result [OF x1(1,2), of now inp pl c] pl x1(3) by (simp add: rt2_def x2_def rt1_def store_def)
  have x2: "om_find (rt_executions rt2) ?e = Some x2" "ex_lifecycle x2 = PLANNED" "ex_descriptor x2 = d"
    "ex_plan x2 = pl" "rt_next_id rt2 = i + 2" "rt_accounting rt2 = rt_accounting rt"
    using x1(3) by (simp_all add: rt2_def x2_def store_def rt1_def)
  have "\<not> raw (StrongId (i + 2) :: ReservationId) < i"
    using room by (simp add: word_less_nat_alt unat_plus_u64 room_def i)
  then have fresh: "om_find (reservations (rt_accounting rt)) (StrongId (i + 2)) = None"
    using ok by (auto simp: runtime_ok_def i)
  define acc where "acc = collective_started ((rt_accounting rt)
    \<lparr>reservations := om_put (StrongId (i + 2)) payload (reservations (rt_accounting rt)),
     reserved_bytes := reserved_bytes (rt_accounting rt) + payload\<rparr>)"
  define x3 where "x3 = x2\<lparr>ex_lifecycle := RESERVED, ex_reservation := StrongId (i + 2)\<rparr>"
  define rt3 where "rt3 = (store ?e x3 rt2)\<lparr>rt_next_id := i + 3, rt_accounting := acc\<rparr>"
  have s3: "reserve_collective ?e rt2 = (Inr (StrongId (i + 2)), rt3)"
    using reserve_result [OF x2(1,2), of payload] payload fresh x2
    by (simp add: rt3_def x3_def acc_def add.assoc)
  have x3: "om_find (rt_executions rt3) ?e = Some x3" "ex_lifecycle x3 = RESERVED" "rt_next_id rt3 = i + 3"
    by (simp_all add: rt3_def x3_def store_def)
  define x4 where "x4 = x3\<lparr>ex_lifecycle := DISPATCHED, ex_dispatch := StrongId (i + 3)\<rparr>"
  define rt4 where "rt4 = (store ?e x4 rt3)\<lparr>rt_next_id := i + 4\<rparr>"
  have s4: "dispatch_collective ?e rt3 = (Inr (StrongId (i + 3)), rt4)"
    using dispatch_result [OF x3(1,2)] x3(3) by (simp add: rt4_def x4_def add.assoc)
  show thesis
    by (rule that [OF s1 s2 s3 s4, of x4])
      (use x2 in \<open>simp_all add: rt4_def x4_def x3_def rt3_def rt2_def rt1_def store_def acc_def collective_started_def\<close>)
qed

lemma session_run:
  assumes ok: "runtime_ok rt" and room: "room 8 rt"
    and g: "om_find (rt_groups rt) (descriptor_key d) = Some g" "group_wf g" "cg_rank_count g < 2 ^ 64"
    and d: "\<not> id_is_null (cd_group_id d)" "\<not> gen_is_null (cd_group_generation d)" "valid_descriptor d"
    and pl: "plan (rt_source_counter rt) now (inp\<lparr>pi_descriptor := Some d\<rparr>) = Inr (pl, c)"
    and checked: "check_inputs d (Some g) inputs = Inr ()"
    and payload: "element_byte_count d = Inr payload"
    and engine: "run_engine (ev_floats ev) d (group_size g) inputs = Inr outs"
    and active: "active_collectives (rt_accounting rt) \<noteq> UINT64_MAX"
  shows "\<exists>rt' ex cm. session ev now d inp inputs rt = (Inr (StrongId (rt_next_id rt), StrongId (rt_next_id rt + 4)), rt') \<and>
    om_find (rt_executions rt') (StrongId (rt_next_id rt)) = Some ex \<and> ex_lifecycle ex = SUCCEEDED \<and> ex_outputs ex = outs \<and>
    ex_measurement ex = Some (StrongId (rt_next_id rt + 4)) \<and>
    om_find (rt_measurements rt') (StrongId (rt_next_id rt + 4)) = Some cm \<and>
    cm_success cm \<and> cm_algorithm cm = pl_algorithm pl \<and> cm_rank_count cm = group_size g \<and>
    cm_payload_bytes cm = payload \<and> cm_wall_time_us cm = ev_end_us ev - ev_start_us ev \<and>
    cm_freshness cm = MeasurementFreshness.CURRENT \<and>
    active_collectives (rt_accounting rt') = active_collectives (rt_accounting rt) \<and>
    reserved_bytes (rt_accounting rt') = reserved_bytes (rt_accounting rt) + payload \<and>
    om_find (reservations (rt_accounting rt')) (ex_reservation ex) = Some payload"
proof -
  define i where "i = rt_next_id rt"
  obtain rt1 rt2 rt3 rt4 x4 where s:
    "create_collective d rt = (Inr (StrongId i), rt1)" "plan_collective now (StrongId i) inp rt1 = (Inr pl, rt2)"
    "reserve_collective (StrongId i) rt2 = (Inr (StrongId (i + 2)), rt3)"
    "dispatch_collective (StrongId i) rt3 = (Inr (StrongId (i + 3)), rt4)"
    and x4: "om_find (rt_executions rt4) (StrongId i) = Some x4" "ex_lifecycle x4 = DISPATCHED" "ex_descriptor x4 = d"
    "ex_plan x4 = pl" "ex_reservation x4 = StrongId (i + 2)" "rt_groups rt4 = rt_groups rt" "rt_next_id rt4 = i + 4"
    and acc: "active_collectives (rt_accounting rt4) = active_collectives (rt_accounting rt) + 1"
    "reserved_bytes (rt_accounting rt4) = reserved_bytes (rt_accounting rt) + payload"
    "om_find (reservations (rt_accounting rt4)) (StrongId (i + 2)) = Some payload"
    by (rule session_dispatched [OF ok room g(1) d pl payload i_def])
  let ?e = "StrongId i :: ExecutionId"
  define x5 where "x5 = x4\<lparr>ex_lifecycle := RUNNING\<rparr>"
  define rt5 where "rt5 = store ?e x5 rt4"
  have s5: "attempt ev ?e d (Some g) inputs rt4 = (Inr outs, rt5)"
    using attempt_result [OF x4(1,2) checked, of ev] engine by (simp add: rt5_def x5_def)
  have x5: "om_find (rt_executions rt5) ?e = Some x5" "ex_lifecycle x5 = RUNNING" "ex_descriptor x5 = d"
    "ex_plan x5 = pl" "ex_reservation x5 = StrongId (i + 2)" "rt_accounting rt5 = rt_accounting rt4"
    "om_find (rt_groups rt5) (descriptor_key (ex_descriptor x5)) = Some g" "rt_next_id rt5 = i + 4"
    using x4 g by (simp_all add: rt5_def x5_def store_def)
  have "active_collectives (rt_accounting rt5) \<noteq> 0"
    using active unfolding x5(6) acc(1) by (simp only: add_eq_0_iff2 not_False_eq_True)
  moreover have "element_byte_count (ex_descriptor x5) = Inr payload" by (simp only: x5(3) payload)
  ultimately obtain rt6 where rt6: "commit_success ev ?e (group_size g) outs rt5 = (Inr (StrongId (i + 4)), rt6)"
    "rt_executions rt6 = om_put ?e (x5\<lparr>ex_rank_completions := complete_all (unat (group_size g)) (ex_rank_completions x5),
      ex_outputs := outs, ex_lifecycle := SUCCEEDED, ex_measurement := Some (StrongId (i + 4))\<rparr>) (rt_executions rt5)"
    "rt_measurements rt6 = om_put (StrongId (i + 4)) (measure ev rt5 x5 (i + 4) (group_size g) payload) (rt_measurements rt5)"
    "active_collectives (rt_accounting rt6) = active_collectives (rt_accounting rt5) - 1"
    "reservations (rt_accounting rt6) = reservations (rt_accounting rt5)"
    "reserved_bytes (rt_accounting rt6) = reserved_bytes (rt_accounting rt5)"
    using commit_result [OF x5(1,2,7) complete_all_quorum [OF g(2,3)], of payload ev outs] unfolding x5(8) by blast
  have s6: "execute_collective ev ?e inputs rt4 = (Inr (StrongId (i + 4)), rt6)"
    using x4 g s5 rt6(1) by (simp add: execute_collective_def commit_def)
  have "session ev now d inp inputs rt = (Inr (?e, StrongId (i + 4)), rt6)"
    by (simp add: session_def andthen_eq ret_def s s6)
  then show ?thesis
    using rt6(2-6) acc x5(4,5,6) unfolding i_def [symmetric] by (simp add: measure_def Let_def)
qed

section \<open>Sessions as runs\<close>

lemma runs_trans: "runs m t u \<Longrightarrow> runs k s t \<Longrightarrow> runs (k + m) s u"
  by (induction rule: runs.induct) (auto intro: runs.more)

lemma runs_call:
  "runs k s \<lparr>sy_runtime = rt, sy_pending = ps\<rparr> \<Longrightarrow> after_call c rt = rt' \<Longrightarrow>
   runs (Suc k) s \<lparr>sy_runtime = rt', sy_pending = ps\<rparr>"
  using step.Call [of "\<lparr>sy_runtime = rt, sy_pending = ps\<rparr>" c] by (auto intro: runs.more)

lemma runs_execute:
  assumes "runs k s \<lparr>sy_runtime = rt, sy_pending = []\<rparr>"
    and "om_find (rt_executions rt) e \<noteq> None" "snd (execute_collective ev e inputs rt) = rt'"
  shows "runs (Suc (Suc k)) s \<lparr>sy_runtime = rt', sy_pending = []\<rparr>"
proof -
  obtain ex where ex: "om_find (rt_executions rt) e = Some ex" using assms(2) by blast
  let ?d = "ex_descriptor ex"
  let ?g = "om_find (rt_groups rt) (descriptor_key ?d)"
  let ?n = "case ?g of Some g \<Rightarrow> group_size g | None \<Rightarrow> 0"
  obtain out rt1 where a: "attempt ev e ?d ?g inputs rt = (out, rt1)" by fastforce
  let ?p = "\<lparr>pe_execution = e, pe_descriptor = ?d, pe_ranks = ?n, pe_outcome = out\<rparr>"
  have 1: "step \<lparr>sy_runtime = rt, sy_pending = []\<rparr> \<lparr>sy_runtime = rt1, sy_pending = [?p]\<rparr>"
    using step.Start [of "\<lparr>sy_runtime = rt, sy_pending = []\<rparr>" e ex ?g ev inputs out rt1] ex a by simp
  obtain r where c: "commit ev e ?d ?n out rt1 = (r, rt')"
    using assms(3) ex a by (cases "commit ev e ?d ?n out rt1") (simp add: execute_collective_def Let_def)
  have 2: "step \<lparr>sy_runtime = rt1, sy_pending = [?p]\<rparr> \<lparr>sy_runtime = rt', sy_pending = []\<rparr>"
    using step.Finish [of 0 "\<lparr>sy_runtime = rt1, sy_pending = [?p]\<rparr>" ?p ev r rt'] c by simp
  show ?thesis using assms(1) 1 2 by (intro runs.more)
qed

lemma andthen_Inr:
  "andthen m k rt = (Inr y, rt') \<longleftrightarrow> (\<exists>x rt1. m rt = (Inr x, rt1) \<and> k x rt1 = (Inr y, rt'))"
  by (auto simp: andthen_eq split: sum.splits prod.splits)

lemma dispatch_found: "dispatch_collective e rt = (Inr i, rt') \<Longrightarrow> om_find (rt_executions rt') e \<noteq> None"
  by (auto simp: dispatch_collective_def update_def op_simps store_def split: sum.splits prod.splits option.splits)

lemma session_runs:
  assumes "session ev now d inp inputs rt = (Inr (e, m), rt')"
  shows "runs 6 \<lparr>sy_runtime = rt, sy_pending = []\<rparr> \<lparr>sy_runtime = rt', sy_pending = []\<rparr>"
proof -
  from assms obtain rt1 rt2 rt3 rt4 i j pl where s:
    "create_collective d rt = (Inr e, rt1)" "plan_collective now e inp rt1 = (Inr pl, rt2)"
    "reserve_collective e rt2 = (Inr i, rt3)" "dispatch_collective e rt3 = (Inr j, rt4)"
    "execute_collective ev e inputs rt4 = (Inr m, rt')"
    by (auto simp: session_def andthen_Inr ret_def)
  have "runs 1 \<lparr>sy_runtime = rt, sy_pending = []\<rparr> \<lparr>sy_runtime = rt1, sy_pending = []\<rparr>"
    using runs_call [OF runs.stop, of "Create d"] s(1) by simp
  then have "runs 2 \<lparr>sy_runtime = rt, sy_pending = []\<rparr> \<lparr>sy_runtime = rt2, sy_pending = []\<rparr>"
    using runs_call [of 1 _ rt1 "[]" "Plan now e inp" rt2] s(2) by (simp add: eval_nat_numeral)
  then have "runs 3 \<lparr>sy_runtime = rt, sy_pending = []\<rparr> \<lparr>sy_runtime = rt3, sy_pending = []\<rparr>"
    using runs_call [of 2 _ rt2 "[]" "Reserve e" rt3] s(3) by (simp add: eval_nat_numeral)
  then have "runs 4 \<lparr>sy_runtime = rt, sy_pending = []\<rparr> \<lparr>sy_runtime = rt4, sy_pending = []\<rparr>"
    using runs_call [of 3 _ rt3 "[]" "Dispatch e" rt4] s(4) by (simp add: eval_nat_numeral)
  from runs_execute [OF this dispatch_found [OF s(4)], of ev inputs rt'] s(5) show ?thesis by (simp add: eval_nat_numeral)
qed

section \<open>ALL_GATHER\<close>

lemma all_gather_engine_fails:
  assumes "cd_kind d = ALL_GATHER" "cd_element_count d \<noteq> 0" "2 \<le> cg_rank_count g" "cg_rank_count g < 2 ^ 64"
    and "check_inputs d (Some g) inputs = Inr ()"
  shows "run_engine F d (group_size g) inputs =
    Inl (Error ErrorCode.VALIDATION ''all_gather: rank input size mismatch'')"
proof -
  let ?n = "cg_rank_count g" and ?per = "payload_size d"
  have n: "unat (group_size g) = ?n" unfolding group_size_def by (rule unat_of_nat_u64) (rule assms)
  from assms(5) obtain m where len: "?n \<le> length inputs" and pm: "per_rank_bytes d (group_size g) = Inr m"
    and each: "\<forall>r < ?n. length (inputs ! r) = unat m"
    by (auto simp: check_inputs_def Let_def err_simps list_ex_iff group_size_def)
  from pm have m: "?per < 2 ^ 64" "?per * ?n < 2 ^ 64" "m = of_nat (?per * ?n)"
    using assms(1) n by (simp_all add: per_rank_bytes_def aggregate_byte_count_ok)
  then have l0: "length (inputs ! 0) = ?per * ?n" using assms(3) each unat_of_nat_u64 [OF m(2)] m(3) by simp
  have pos: "0 < ?per" using assms(2) by (simp add: payload_size_pos)
  have "?per * 1 < ?per * ?n" using pos assms(3) by (intro mult_strict_left_mono) auto
  then have "length (inputs ! 0) \<noteq> ?per" using l0 by simp
  moreover have "execute F ALL_GATHER op (cd_datatype d) (cd_element_count d) root (group_size g) inputs =
      (if length (inputs ! 0) \<noteq> ?per then Inl (Error ErrorCode.VALIDATION ''all_gather: rank input size mismatch'')
       else if \<exists>r < unat (group_size g). length (inputs ! r) < ?per then Inl Undefined
       else if \<exists>r < unat (group_size g). ?per < length (inputs ! r)
       then Inl (Error ErrorCode.VALIDATION ''all_gather: rank input size mismatch'')
       else Inr (replicate (unat (group_size g)) (concat (take (unat (group_size g)) inputs))))" for op root
    by (rule execute_all_gather_eq)
      (use m(2) n len assms(3) in \<open>simp_all add: payload_size_def word_less_nat_alt\<close>)
  ultimately show ?thesis using assms(1) by (simp add: run_engine_def)
qed

lemma check_inputs_error: "check_inputs d grp inputs = Inl f \<Longrightarrow> \<exists>c m. f = Error c m"
  by (auto simp: check_inputs_def Let_def err_simps per_rank_bytes_def aggregate_byte_count_def
      element_byte_count_def split: if_splits)

lemma commit_failure_result:
  assumes "om_find (rt_executions rt) e = Some ex" "allowed (ex_lifecycle ex) CollectiveState.FAILED"
    and "element_byte_count d = Inr n"
  shows "commit_failure ev e d what rt = (Inr null_id,
    (store e (ex\<lparr>ex_lifecycle := CollectiveState.FAILED, ex_failure := Some (failure_of ev d what)\<rparr>) rt)
      \<lparr>rt_accounting := failed_bytes n (rt_accounting rt)\<rparr>)"
  using assms by (simp add: commit_failure_def try_move_def update_def op_simps store_def try_transition_eq)

lemma execute_rejected:
  assumes "om_find (rt_executions rt) e = Some ex" "allowed (ex_lifecycle ex) CollectiveState.FAILED"
    and "check_inputs (ex_descriptor ex) (om_find (rt_groups rt) (descriptor_key (ex_descriptor ex))) inputs = Inl f"
    and "element_byte_count (ex_descriptor ex) = Inr n"
  shows "\<exists>rt'. execute_collective ev e inputs rt = (Inr null_id, rt')"
proof -
  obtain c m where f: "f = Error c m" using check_inputs_error [OF assms(3)] by blast
  then have "attempt ev e (ex_descriptor ex) (om_find (rt_groups rt) (descriptor_key (ex_descriptor ex))) inputs rt = (Inl f, rt)"
    using assms(3) by (simp add: attempt_def op_simps)
  then show ?thesis
    using assms(1) commit_failure_result [OF assms(1,2,4)]
    by (simp add: execute_collective_def Let_def commit_def f op_simps)
qed

lemma gather_fails:
  assumes ex: "om_find (rt_executions rt) e = Some ex" "ex_lifecycle ex = DISPATCHED"
    and d: "cd_kind (ex_descriptor ex) = ALL_GATHER" "cd_element_count (ex_descriptor ex) \<noteq> 0"
    and n: "element_byte_count (ex_descriptor ex) = Inr payload"
    and g: "om_find (rt_groups rt) (descriptor_key (ex_descriptor ex)) = Some g"
    and ranks: "2 \<le> cg_rank_count g" "cg_rank_count g < 2 ^ 64"
  shows "\<exists>rt' ex'. execute_collective ev e inputs rt = (Inr null_id, rt') \<and>
    om_find (rt_executions rt') e = Some ex' \<and> ex_lifecycle ex' = CollectiveState.FAILED \<and>
    ex_outputs ex' = ex_outputs ex \<and> rt_measurements rt' = rt_measurements rt \<and>
    active_collectives (rt_accounting rt') = active_collectives (rt_accounting rt) \<and>
    reservations (rt_accounting rt') = reservations (rt_accounting rt)"
proof -
  let ?d = "ex_descriptor ex"
  obtain c what rt1 ex1 where a: "attempt ev e ?d (Some g) inputs rt = (Inl (Error c what), rt1)"
    and rt1: "om_find (rt_executions rt1) e = Some ex1" "allowed (ex_lifecycle ex1) CollectiveState.FAILED"
      "ex_outputs ex1 = ex_outputs ex" "rt_measurements rt1 = rt_measurements rt" "rt_accounting rt1 = rt_accounting rt"
  proof (cases "check_inputs ?d (Some g) inputs")
    case (Inl f)
    then obtain c m where "f = Error c m" using check_inputs_error by blast
    with Inl have "attempt ev e ?d (Some g) inputs rt = (Inl (Error c m), rt)"
      by (simp add: attempt_def op_simps)
    then show ?thesis using that [of c m rt ex] ex by simp
  next
    case (Inr u)
    then have "run_engine (ev_floats ev) ?d (group_size g) inputs =
        Inl (Error ErrorCode.VALIDATION ''all_gather: rank input size mismatch'')"
      using all_gather_engine_fails [OF d ranks] by simp
    with attempt_result [OF ex, of ?d "Some g" inputs ev] Inr
    have "attempt ev e ?d (Some g) inputs rt =
        (Inl (Error ErrorCode.VALIDATION ''all_gather: rank input size mismatch''), store e (ex\<lparr>ex_lifecycle := RUNNING\<rparr>) rt)"
      by simp
    then show ?thesis using that [of _ _ _ "ex\<lparr>ex_lifecycle := RUNNING\<rparr>"] by (simp add: store_def)
  qed
  have "execute_collective ev e inputs rt = commit_failure ev e ?d what rt1"
    using ex(1) g a rt1(1) by (simp add: execute_collective_def Let_def commit_def andthen_eq require_def)
  then show ?thesis
    using commit_failure_result [OF rt1(1,2) n, of ev what] rt1
    by (auto simp: store_def failed_bytes_def)
qed

section \<open>A concrete session\<close>

definition sample_env :: environment where
  "sample_env = \<lparr>ev_start_us = 10, ev_end_us = 30, ev_failure_ns = 0, ev_wall_ns = 1000, ev_source_ns = 1000,
     ev_floats = zero_floats\<rparr>"

abbreviation sample_group :: CollectiveGroup where
  "sample_group \<equiv> group_of sample_builder"

definition sample_runtime :: Runtime where
  "sample_runtime = snd (register_group sample_group new_runtime)"

definition sum_descriptor :: CollectiveDescriptor where
  "sum_descriptor = sample_descriptor\<lparr>cd_group_id := StrongId 5, cd_group_generation := Generation 1,
     cd_element_count := 1\<rparr>"

lemma sample_group_wf: "group_wf sample_group" "cg_rank_count sample_group = 2" "group_size sample_group = 2"
proof -
  show "group_wf sample_group" using sample_builder_builds by (rule build_wf)
  show c: "cg_rank_count sample_group = 2"
    by (simp add: cg_rank_count_def group_of_def sample_builder_def)
  show "group_size sample_group = 2" by (simp add: group_size_def c)
qed

lemma sample_runtime_eq:
  "sample_runtime = new_runtime\<lparr>rt_groups := [((StrongId 5, Generation 1), sample_group)]\<rparr>"
  by (simp add: sample_runtime_def register_group_def new_runtime_def group_key_of_def group_of_def
      sample_builder_def new_group_builder_def)

lemma sample_runtime_ok: "runtime_ok sample_runtime" "room 8 sample_runtime"
  by (simp_all add: sample_runtime_eq new_runtime_def runtime_ok_def new_accounting_def room_def)

lemma sum_descriptor_ok:
  "om_find (rt_groups sample_runtime) (descriptor_key sum_descriptor) = Some sample_group"
  "\<not> id_is_null (cd_group_id sum_descriptor)" "\<not> gen_is_null (cd_group_generation sum_descriptor)"
  "valid_descriptor sum_descriptor" "element_byte_count sum_descriptor = Inr 4"
  by (simp_all add: sample_runtime_eq sum_descriptor_def sample_descriptor_def default_descriptor_def
      descriptor_key_def id_is_null_def gen_is_null_def valid_descriptor_def payload_size_def
      element_byte_count_eq)

lemma sum_plan: "\<exists>pl c. plan counter now (sample_input\<lparr>pi_descriptor := Some sum_descriptor\<rparr>) = Inr (pl, c)"
proof -
  let ?in = "sample_input\<lparr>pi_descriptor := Some sum_descriptor\<rparr>"
  have "planned_bytes sum_descriptor (group_size sample_group) = Inr 4"
    using sum_descriptor_ok(5) by (simp add: planned_bytes_def sum_descriptor_def sample_descriptor_def)
  moreover have "backend_accepts (reference_backend_capabilities (StrongId 1) (Generation 1)) sum_descriptor (group_size sample_group)"
    using sample_input_ok(7) by (simp add: backend_accepts_def sum_descriptor_def)
  moreover have "unmeasured ?in" using sample_input_ok(6) by (simp add: unmeasured_def)
  ultimately show ?thesis
    using plan_eq [of ?in sum_descriptor sample_group "reference_backend_capabilities (StrongId 1) (Generation 1)" 4 counter now]
      select_unmeasured [of ?in "reference_backend_capabilities (StrongId 1) (Generation 1)" sum_descriptor "group_size sample_group" 4]
      sample_input_ok(5)
    by (simp add: sample_input_def)
qed

lemma sum_inputs: "check_inputs sum_descriptor (Some sample_group) [[1, 0, 0, 0], [2, 0, 0, 0]] = Inr ()"
  using sum_descriptor_ok(5) sample_group_wf(2)
  by (simp add: check_inputs_def per_rank_bytes_def sum_descriptor_def sample_descriptor_def upt_rec)

lemma sum_engine:
  "run_engine (ev_floats sample_env) sum_descriptor (group_size sample_group) [[1, 0, 0, 0], [2, 0, 0, 0]] =
     Inr [[3, 0, 0, 0], [3, 0, 0, 0]]"
proof -
  have "execute zero_floats ALL_REDUCE ReductionOp.SUM INT32 1 0 2 [[1, 0, 0, 0], [2, 0, 0, 0]] =
      Inr [[3, 0, 0, 0], [3, 0, 0, 0]]" by code_simp
  then show ?thesis
    unfolding run_engine_def sample_group_wf(3)
    by (simp add: sum_descriptor_def sample_descriptor_def default_descriptor_def sample_env_def id_is_null_def)
qed

lemma sample_session:
  obtains e m rt' ex cm where
    "session sample_env 7 sum_descriptor sample_input [[1, 0, 0, 0], [2, 0, 0, 0]] sample_runtime = (Inr (e, m), rt')"
    "om_find (rt_executions rt') e = Some ex" "ex_lifecycle ex = SUCCEEDED"
    "ex_outputs ex = [[3, 0, 0, 0], [3, 0, 0, 0]]"
proof -
  obtain pl c where pl: "plan (rt_source_counter sample_runtime) 7 (sample_input\<lparr>pi_descriptor := Some sum_descriptor\<rparr>) = Inr (pl, c)"
    using sum_plan by blast
  have "active_collectives (rt_accounting sample_runtime) \<noteq> UINT64_MAX" "cg_rank_count sample_group < 2 ^ 64"
    by (simp_all add: sample_runtime_eq new_runtime_def new_accounting_def sample_group_wf)
  from session_run [OF sample_runtime_ok sum_descriptor_ok(1) sample_group_wf(1) this(2) sum_descriptor_ok(2-4) pl
      sum_inputs sum_descriptor_ok(5) sum_engine this(1)]
  show ?thesis by (elim exE conjE) (rule that)
qed

lemma registered_run: "runs 1 new_system \<lparr>sy_runtime = sample_runtime, sy_pending = []\<rparr>"
proof -
  have a: "after_call (RegisterGroup sample_group) new_runtime = sample_runtime" by (simp add: sample_runtime_def)
  have "runs 0 new_system \<lparr>sy_runtime = new_runtime, sy_pending = []\<rparr>"
    using runs.stop [of new_system] by (simp add: new_system_def)
  from runs_call [OF this a] show ?thesis by simp
qed

lemma sample_run:
  obtains s e ex where "runs 7 new_system s" "om_find (rt_executions (sy_runtime s)) e = Some ex" "ex_lifecycle ex = SUCCEEDED"
proof -
  obtain e m rt' ex cm where
    s: "session sample_env 7 sum_descriptor sample_input [[1, 0, 0, 0], [2, 0, 0, 0]] sample_runtime = (Inr (e, m), rt')"
    and ex: "om_find (rt_executions rt') e = Some ex" "ex_lifecycle ex = SUCCEEDED"
    by (rule sample_session)
  from runs_trans [OF session_runs [OF s] registered_run] ex show ?thesis
    using that by (simp add: eval_nat_numeral)
qed

lemma created_run:
  obtains s ex where "runs 2 new_system s" "om_find (rt_executions (sy_runtime s)) (StrongId 1) = Some ex"
    "ex_rank_completions ex = []"
proof -
  have i: "rt_next_id sample_runtime = 1" by (simp add: sample_runtime_eq new_runtime_def)
  let ?rt = "store (StrongId 1) (new_execution sum_descriptor 2) (sample_runtime\<lparr>rt_next_id := 3\<rparr>)"
  have "after_call (Create sum_descriptor) sample_runtime = ?rt"
    using create_result [OF sum_descriptor_ok(1-4)] i by simp
  from runs_call [OF registered_run this] have "runs 2 new_system \<lparr>sy_runtime = ?rt, sy_pending = []\<rparr>"
    by (simp add: eval_nat_numeral)
  then show ?thesis
    using that [of _ "new_execution sum_descriptor 2"] by (simp add: store_def new_execution_def)
qed

section \<open>Properties\<close>

text \<open>C1: a collective is never SUCCEEDED because a single participant says so: in every state that any
  interleaving of calls and of concurrent executions reaches, an execution that is SUCCEEDED belongs to a
  registered group, and a completion is recorded for the rank of every participant of that group.\<close>

theorem success_needs_every_rank:
  assumes "runs k new_system s" "k < 2 ^ 62"
    and "om_find (rt_executions (sy_runtime s)) e = Some ex" "ex_lifecycle ex = SUCCEEDED"
  shows "\<exists>g. find_group (cd_group_id (ex_descriptor ex)) (cd_group_generation (ex_descriptor ex)) (sy_runtime s) = Some g \<and>
    (\<forall>p. p \<in> set (cg_participants g) \<longrightarrow> om_find (ex_rank_completions ex) (pt_rank p) \<noteq> None)"
proof -
  have "ex_ok (sy_runtime s) e ex"
    using runs_from_new [OF assms(1,2)] assms(3) by (simp add: keeps_def runtime_ok_def)
  then show ?thesis
    using assms(4) by (auto simp: ex_ok_def find_group_def descriptor_key_def quorum_iff)
qed

theorem success_needs_every_rank_witness:
  "\<exists>s e ex g. runs 7 new_system s \<and> om_find (rt_executions (sy_runtime s)) e = Some ex \<and>
    find_group (cd_group_id (ex_descriptor ex)) (cd_group_generation (ex_descriptor ex)) (sy_runtime s) = Some g"
proof -
  obtain s e ex where s: "runs 7 new_system s" "om_find (rt_executions (sy_runtime s)) e = Some ex" "ex_lifecycle ex = SUCCEEDED"
    by (rule sample_run)
  from success_needs_every_rank [OF s(1) _ s(2,3)] s show ?thesis by auto
qed



text \<open>C2: a whole session reaches SUCCEEDED. From any state that keeps the invariant, with the group
  registered and well formed, a valid descriptor, a plan, inputs of the right sizes and a reduction that is
  defined, creating, planning, reserving, dispatching and executing the collective ends in SUCCEEDED with
  the engine's outputs and a CURRENT measurement of the planned algorithm; the collective is no longer
  active, but its reservation is still on the ledger.\<close>

theorem session_succeeds:
  assumes "runtime_ok rt" "room 8 rt"
    and "om_find (rt_groups rt) (descriptor_key d) = Some g" "group_wf g" "cg_rank_count g < 2 ^ 64"
    and "\<not> id_is_null (cd_group_id d)" "\<not> gen_is_null (cd_group_generation d)" "valid_descriptor d"
    and "plan (rt_source_counter rt) now (inp\<lparr>pi_descriptor := Some d\<rparr>) = Inr (pl, c)"
    and "check_inputs d (Some g) inputs = Inr ()" "element_byte_count d = Inr payload"
    and "run_engine (ev_floats ev) d (group_size g) inputs = Inr outs"
    and "active_collectives (rt_accounting rt) \<noteq> UINT64_MAX"
  shows "\<exists>e m rt' ex cm. session ev now d inp inputs rt = (Inr (e, m), rt') \<and>
    om_find (rt_executions rt') e = Some ex \<and> ex_lifecycle ex = SUCCEEDED \<and> ex_outputs ex = outs \<and>
    ex_measurement ex = Some m \<and> om_find (rt_measurements rt') m = Some cm \<and>
    cm_success cm \<and> cm_algorithm cm = pl_algorithm pl \<and> cm_rank_count cm = group_size g \<and>
    cm_payload_bytes cm = payload \<and> cm_freshness cm = MeasurementFreshness.CURRENT \<and>
    active_collectives (rt_accounting rt') = active_collectives (rt_accounting rt) \<and>
    reserved_bytes (rt_accounting rt') = reserved_bytes (rt_accounting rt) + payload \<and>
    om_find (reservations (rt_accounting rt')) (ex_reservation ex) = Some payload"
  using session_run [OF assms] by blast

theorem session_succeeds_witness:
  "\<exists>e m rt' ex. session sample_env 7 sum_descriptor sample_input [[1, 0, 0, 0], [2, 0, 0, 0]] sample_runtime = (Inr (e, m), rt') \<and>
    om_find (rt_executions rt') e = Some ex \<and> ex_lifecycle ex = SUCCEEDED \<and> ex_outputs ex = [[3, 0, 0, 0], [3, 0, 0, 0]]"
proof -
  obtain pl c where pl: "plan (rt_source_counter sample_runtime) 7 (sample_input\<lparr>pi_descriptor := Some sum_descriptor\<rparr>) = Inr (pl, c)"
    using sum_plan by blast
  have "active_collectives (rt_accounting sample_runtime) \<noteq> UINT64_MAX" "cg_rank_count sample_group < 2 ^ 64"
    by (simp_all add: sample_runtime_eq new_runtime_def new_accounting_def sample_group_wf)
  from session_succeeds [OF sample_runtime_ok sum_descriptor_ok(1) sample_group_wf(1) this(2) sum_descriptor_ok(2-4) pl
      sum_inputs sum_descriptor_ok(5) sum_engine this(1)]
  show ?thesis by blast
qed

text \<open>C33: no ALL_GATHER over two or more ranks ever executes, whatever the inputs: the runtime demands the
  aggregate size of every rank while the engine demands the size of one contribution, so the execution is
  committed as FAILED, without outputs or a measurement, and it stays counted as active.\<close>

theorem all_gather_always_fails:
  assumes "om_find (rt_executions rt) e = Some ex" "ex_lifecycle ex = DISPATCHED"
    and "cd_kind (ex_descriptor ex) = ALL_GATHER" "cd_element_count (ex_descriptor ex) \<noteq> 0"
    and "element_byte_count (ex_descriptor ex) = Inr payload"
    and "om_find (rt_groups rt) (descriptor_key (ex_descriptor ex)) = Some g"
    and "2 \<le> cg_rank_count g" "cg_rank_count g < 2 ^ 64"
  shows "\<exists>rt' ex'. execute_collective ev e inputs rt = (Inr null_id, rt') \<and>
    om_find (rt_executions rt') e = Some ex' \<and> ex_lifecycle ex' = CollectiveState.FAILED \<and>
    ex_outputs ex' = ex_outputs ex \<and> rt_measurements rt' = rt_measurements rt \<and>
    active_collectives (rt_accounting rt') = active_collectives (rt_accounting rt) \<and>
    reservations (rt_accounting rt') = reservations (rt_accounting rt)"
  using assms by (rule gather_fails)

theorem all_gather_always_fails_witness:
  "\<exists>rt' ex'. execute_collective sample_env (StrongId 1) [[1, 0, 0, 0, 2, 0, 0, 0], [1, 0, 0, 0, 2, 0, 0, 0]]
      (store (StrongId 1) ((new_execution (sum_descriptor\<lparr>cd_kind := ALL_GATHER\<rparr>) 2)\<lparr>ex_lifecycle := DISPATCHED\<rparr>) sample_runtime) =
      (Inr null_id, rt') \<and>
    om_find (rt_executions rt') (StrongId 1) = Some ex' \<and> ex_lifecycle ex' = CollectiveState.FAILED"
proof -
  let ?d = "sum_descriptor\<lparr>cd_kind := ALL_GATHER\<rparr>"
  have "element_byte_count ?d = Inr 4" "descriptor_key ?d = descriptor_key sum_descriptor" "cd_element_count ?d \<noteq> 0"
    using sum_descriptor_ok(5) by (simp_all add: element_byte_count_def descriptor_key_def sum_descriptor_def)
  then show ?thesis
    using all_gather_always_fails [of "store (StrongId 1) ((new_execution ?d 2)\<lparr>ex_lifecycle := DISPATCHED\<rparr>) sample_runtime"
      "StrongId 1" "(new_execution ?d 2)\<lparr>ex_lifecycle := DISPATCHED\<rparr>" 4 sample_group sample_env
      "[[1, 0, 0, 0, 2, 0, 0, 0], [1, 0, 0, 0, 2, 0, 0, 0]]"] sum_descriptor_ok(1) sample_group_wf(2)
    by (simp add: store_def new_execution_def) blast
qed

text \<open>Reporting the completion of a rank always throws: no operation of the runtime ever counts a
  contribution as active, so the accounting underflows, and the call throws after it has recorded the
  completion, without moving the state or applying the quorum.\<close>

theorem complete_rank_always_throws:
  assumes "runs k new_system s" "k < 2 ^ 62"
    and "om_find (rt_executions (sy_runtime s)) e = Some ex" "om_find (ex_rank_completions ex) r = None"
  shows "complete_rank e r (sy_runtime s) =
    (Inl (Error ErrorCode.VALIDATION ''accounting: rank_contribution_complete underflow''),
     store e (ex\<lparr>ex_rank_completions := om_put r True (ex_rank_completions ex)\<rparr>) (sy_runtime s))"
proof -
  have "active_rank_contributions (rt_accounting (sy_runtime s)) = 0"
    using runs_from_new [OF assms(1,2)] by (simp add: keeps_def runtime_ok_def)
  then show ?thesis
    using assms(3,4)
    by (simp add: complete_rank_def update_def op_simps rank_contribution_complete_def store_def)
qed

theorem complete_rank_always_throws_witness:
  "\<exists>s rt'. runs 2 new_system s \<and> complete_rank (StrongId 1) (StrongId 0) (sy_runtime s) =
    (Inl (Error ErrorCode.VALIDATION ''accounting: rank_contribution_complete underflow''), rt')"
proof -
  obtain s ex where s: "runs 2 new_system s" "om_find (rt_executions (sy_runtime s)) (StrongId 1) = Some ex"
    "ex_rank_completions ex = []" by (rule created_run)
  from complete_rank_always_throws [OF s(1) _ s(2), of "StrongId 0"] s show ?thesis by auto
qed

section \<open>An abort during the execution\<close>

lemma commit_after_abort:
  assumes "om_find (rt_executions rt) e = Some ex" "ex_lifecycle ex = ABORTED"
    and "element_byte_count (ex_descriptor ex) = Inr payload"
    and "active_collectives (rt_accounting rt) \<noteq> 0"
    and "om_find (rt_groups rt) (descriptor_key (ex_descriptor ex)) = Some g"
  shows "\<exists>m rt' ex' cm. commit_success ev e n outs rt = (Inr m, rt') \<and>
    om_find (rt_executions rt') e = Some ex' \<and> ex_lifecycle ex' = ABORTED \<and> ex_outputs ex' = outs \<and>
    ex_measurement ex' = Some m \<and> om_find (rt_measurements rt') m = Some cm \<and> cm_success cm \<and>
    active_collectives (rt_accounting rt') = active_collectives (rt_accounting rt) - 1"
proof -
  have stay: "try_transition ABORTED COMPLETING = ABORTED" by (simp add: try_transition_eq)
  show ?thesis
    using assms
    by (simp add: commit_success_def update_def try_move_def apply_quorum_def op_simps store_def stay
        collective_completed_def completed_bytes_def measure_def Let_def add.assoc)
qed



section \<open>Health reports\<close>

text \<open>The health after a sequence of reports: a rejected report throws, and the next one comes.\<close>

definition report_all :: "HealthRecord list \<Rightarrow> Runtime \<Rightarrow> Runtime" where
  "report_all hs rt = fold (\<lambda>h rt. snd (update_health h rt)) hs rt"

lemma update_health_result:
  "rt_health (snd (update_health h rt)) =
     (if hr_state (rt_health rt) \<noteq> HealthState.UNKNOWN \<and> hr_generation h < hr_generation (rt_health rt)
      then rt_health rt else h)"
  by (simp add: update_health_def op_simps health_is_zero_def generation_is_older_def)

lemma report_all_snoc: "report_all (hs @ [h]) rt = snd (update_health h (report_all hs rt))"
  by (simp add: report_all_def)

text \<open>Old health reports never overwrite fresh ones: after any sequence of reports with a known state,
  the record kept is the last report among those with the greatest generation.\<close>

theorem latest_health_wins:
  assumes "hs \<noteq> []" "\<forall>h \<in> set hs. hr_state h \<noteq> HealthState.UNKNOWN"
  shows "\<exists>i < length hs. rt_health (report_all hs new_runtime) = hs ! i \<and>
    (\<forall>j < length hs. hr_generation (hs ! j) \<le> hr_generation (hs ! i)) \<and>
    (\<forall>j. i < j \<longrightarrow> j < length hs \<longrightarrow> hr_generation (hs ! j) < hr_generation (hs ! i))"
  using assms
proof (induction hs rule: rev_induct)
  case (snoc h hs)
  show ?case
  proof (cases "hs = []")
    case True
    then show ?thesis by (simp add: report_all_def update_health_result new_runtime_def new_health_def)
  next
    case False
    then obtain i where i: "i < length hs" "rt_health (report_all hs new_runtime) = hs ! i"
      "\<forall>j < length hs. hr_generation (hs ! j) \<le> hr_generation (hs ! i)"
      "\<forall>j. i < j \<longrightarrow> j < length hs \<longrightarrow> hr_generation (hs ! j) < hr_generation (hs ! i)"
      using snoc by auto
    have known: "hr_state (hs ! i) \<noteq> HealthState.UNKNOWN" using snoc.prems i(1) by simp
    show ?thesis
    proof (cases "hr_generation h < hr_generation (hs ! i)")
      case True
      then show ?thesis using i known
        by (intro exI [of _ i]) (auto simp: report_all_snoc update_health_result nth_append less_Suc_eq)
    next
      case False
      then show ?thesis using i
        by (intro exI [of _ "length hs"])
          (auto simp: report_all_snoc update_health_result nth_append less_Suc_eq intro: order.trans)
    qed
  qed
qed simp

theorem latest_health_wins_witness:
  "\<exists>h. rt_health (report_all [new_health\<lparr>hr_state := DEGRADED, hr_generation := Generation 4\<rparr>,
      new_health\<lparr>hr_state := UNHEALTHY, hr_generation := Generation 2\<rparr>] new_runtime) = h \<and> hr_generation h = Generation 4"
proof -
  let ?hs = "[new_health\<lparr>hr_state := DEGRADED, hr_generation := Generation 4\<rparr>,
      new_health\<lparr>hr_state := UNHEALTHY, hr_generation := Generation 2\<rparr>]"
  have "?hs \<noteq> []" "\<forall>h \<in> set ?hs. hr_state h \<noteq> HealthState.UNKNOWN" by simp_all
  from latest_health_wins [OF this] obtain i where i: "i < length ?hs" "rt_health (report_all ?hs new_runtime) = ?hs ! i"
    "\<forall>j < length ?hs. hr_generation (?hs ! j) \<le> hr_generation (?hs ! i)" by blast
  have "hr_generation (?hs ! 0) \<le> hr_generation (?hs ! i)" using spec [OF i(3), of 0] by simp
  moreover have "i = 0 \<or> i = 1" using i(1) by auto
  ultimately have "i = 0" by (auto simp: less_eq_Generation_def)
  with i(2) show ?thesis by simp
qed

text \<open>A report whose state is UNKNOWN, in turn, makes the record count as absent, so that the next report
  replaces it, however old it is.\<close>

theorem unknown_report_drops_guard:
  assumes "hr_state u = HealthState.UNKNOWN" "hr_generation (rt_health rt) \<le> hr_generation u"
  shows "rt_health (report_all [u, h] rt) = h"
  using assms by (auto simp: report_all_def update_health_result not_less)

end
