(* ===== verification/CF_Relation.thy ===== *)
theory CF_Relation
  imports CF_Session
begin

text \<open>
  Relations between the state before and the state after an operation of the runtime. The locale lists what
  has to be shown of the primitive steps; it gives the relation for every public operation, for the two
  sections of \<open>execute_collective\<close> and for every step of the transition system.
\<close>

definition along :: "(Runtime \<Rightarrow> Runtime \<Rightarrow> bool) \<Rightarrow> 'a op \<Rightarrow> bool" where
  "along R m \<longleftrightarrow> (\<forall>rt. R rt (snd (m rt)))"

lemma alongI: "(\<And>rt. R rt (snd (m rt))) \<Longrightarrow> along R m"
  by (simp add: along_def)

lemma alongD: "along R m \<Longrightarrow> R rt (snd (m rt))"
  by (simp add: along_def)

named_theorems along_intros "operations that keep to a relation"

lemma complete_all_inv: "om_inv m \<Longrightarrow> om_inv (complete_all n m)"
  by (induction n) (simp_all add: complete_all_def om_inv_put)

text \<open>What an operation may do to the parts of an execution that the relations speak of.\<close>

definition writes :: "(Execution \<Rightarrow> Execution) \<Rightarrow> bool" where
  "writes f \<longleftrightarrow> (\<forall>ex. ex_descriptor (f ex) = ex_descriptor ex \<and> ex_lifecycle (f ex) = ex_lifecycle ex \<and>
     (om_inv (ex_rank_completions ex) \<longrightarrow> om_inv (ex_rank_completions (f ex))) \<and>
     (\<forall>r. om_find (ex_rank_completions ex) r \<noteq> None \<longrightarrow> om_find (ex_rank_completions (f ex)) r \<noteq> None))"

text \<open>What it may do to the other parts.\<close>

definition changes :: "(Runtime \<Rightarrow> Runtime) \<Rightarrow> bool" where
  "changes f \<longleftrightarrow> (\<forall>rt. rt_groups (f rt) = rt_groups rt \<and> rt_executions (f rt) = rt_executions rt \<and>
     rt_accounting (f rt) = rt_accounting rt \<and>
     (rt_backends (f rt) = rt_backends rt \<or> (\<exists>b. rt_backends (f rt) = om_put (be_id b) b (rt_backends rt))) \<and>
     (rt_measurements (f rt) = rt_measurements rt \<or> (\<exists>i m. rt_measurements (f rt) = om_put i m (rt_measurements rt))))"

definition books :: "(Accounting \<Rightarrow> fault + Accounting) \<Rightarrow> bool" where
  "books f \<longleftrightarrow> (\<forall>a a'. f a = Inr a' \<longrightarrow>
     reservations a' = reservations a \<and> reserved_bytes a' = reserved_bytes a \<or> (\<exists>i n. reserve i n a = Inr a'))"

locale runtime_relation =
  fixes R :: "Runtime \<Rightarrow> Runtime \<Rightarrow> bool" and inv :: "Runtime \<Rightarrow> bool"
  assumes refl: "R rt rt" and trans: "R a b \<Longrightarrow> R b c \<Longrightarrow> R a c"
    and fresh [along_intros]: "along R fresh_id"
    and booked: "books f \<Longrightarrow> along R (account f)"
    and changed: "changes h \<Longrightarrow> along R (modify h)"
    and written: "writes u \<Longrightarrow> along R (update e u)"
    and moved [along_intros]: "to \<noteq> SUCCEEDED \<Longrightarrow> along R (move e to)"
    and tried [along_intros]: "to \<noteq> SUCCEEDED \<Longrightarrow> along R (try_move e to)"
    and judged [along_intros]: "along R (apply_quorum e)"
    and registered: "along R (register_group g)"
    and created: "inv rt \<Longrightarrow> R rt (snd (create_collective d rt))"
begin

lemma basic [along_intros]:
  "along R (ret x)" "along R (throw f)" "along R (lift_sum v)" "along R (reads h)" "along R (require e)"
  by (rule alongI; simp add: op_simps refl)+

lemma composed [along_intros]:
  assumes "along R m" "\<And>x. along R (k x)" shows "along R (andthen m k)"
proof (rule alongI)
  fix rt
  obtain r rt' where m: "m rt = (r, rt')" by fastforce
  have 1: "R rt rt'" using alongD [OF assms(1), of rt] m by simp
  show "R rt (snd (andthen m k rt))"
  proof (cases r)
    case (Inr x)
    then show ?thesis using 1 m alongD [OF assms(2), of rt' x] by (auto simp: andthen_eq intro: trans)
  qed (use 1 m in \<open>simp add: andthen_eq\<close>)
qed

lemma cases [along_intros]:
  "along R m \<Longrightarrow> along R k \<Longrightarrow> along R (if c then m else k)"
  "along R m \<Longrightarrow> (\<And>x. along R (n x)) \<Longrightarrow> along R (case v of None \<Rightarrow> m | Some x \<Rightarrow> n x)"
  "(\<And>x y. along R (h x y)) \<Longrightarrow> along R (case w of (x, y) \<Rightarrow> h x y)"
  by (auto split: option.split prod.split)

lemma accounts [along_intros]:
  "along R (account (\<lambda>a. Inr (collective_started a)))" "along R (account (\<lambda>a. Inr (failed_bytes n a)))"
  "along R (account (\<lambda>a. Inr (completed_bytes n a)))" "along R (account (\<lambda>a. Inr (stale_message_rejected a)))"
  "along R (account collective_completed)" "along R (account collective_aborted)"
  "along R (account rank_contribution_complete)" "along R (account (reserve i n))"
  by (rule booked; auto simp: books_def collective_started_def failed_bytes_def completed_bytes_def stale_message_rejected_def
      collective_completed_def collective_aborted_def rank_contribution_complete_def reserve_def split: if_splits)+

lemma modifications [along_intros]:
  "along R (modify (\<lambda>rt. rt\<lparr>rt_source_counter := c\<rparr>))"
  "along R (modify (\<lambda>rt. rt\<lparr>rt_source_counter := rt_source_counter rt + 1, rt_measurements := om_put i m (rt_measurements rt)\<rparr>))"
  "along R (modify (\<lambda>rt. rt\<lparr>rt_measurements := om_put i m (rt_measurements rt)\<rparr>))"
  "along R (modify (\<lambda>rt. rt\<lparr>rt_health := h\<rparr>))" "along R (modify (\<lambda>rt. rt\<lparr>rt_topology := t\<rparr>))"
  "along R (modify (\<lambda>rt. rt\<lparr>rt_backends := om_put (be_id b) b (rt_backends rt)\<rparr>))"
  "along R (modify (\<lambda>rt. rt\<lparr>rt_authority := (rt_authority rt)\<lparr>live_boot := boot\<rparr>\<rparr>))"
  "along R (modify (\<lambda>rt. rt\<lparr>rt_authority := (rt_authority rt)\<lparr>gt_epoch := gen_next (gt_epoch (rt_authority rt))\<rparr>\<rparr>))"
  by (rule changed; auto simp: changes_def)+

lemma updates [along_intros]:
  "along R (update e (\<lambda>ex. ex\<lparr>ex_plan := pl\<rparr>))" "along R (update e (\<lambda>ex. ex\<lparr>ex_reservation := ri\<rparr>))"
  "along R (update e (\<lambda>ex. ex\<lparr>ex_dispatch := di\<rparr>))" "along R (update e (\<lambda>ex. ex\<lparr>ex_failure := f\<rparr>))"
  "along R (update e (\<lambda>ex. ex\<lparr>ex_outputs := outs\<rparr>))" "along R (update e (\<lambda>ex. ex\<lparr>ex_measurement := mi\<rparr>))"
  "along R (update e (\<lambda>ex. ex\<lparr>ex_rank_completions := om_put r True (ex_rank_completions ex)\<rparr>))"
  "along R (update e (\<lambda>ex. ex\<lparr>ex_rank_completions := complete_all n (ex_rank_completions ex)\<rparr>))"
  by (rule written; auto simp: writes_def om_inv_put complete_all_inv complete_all_find)+

lemma operations:
  "along R (plan_collective now e inp)" "along R (reserve_collective e)" "along R (dispatch_collective e)"
  "along R (complete_rank e r)" "along R (fail_collective e f)" "along R (abort_collective e)"
  "along R (cancel_collective e)" "along R (mark_stale_collective e)" "along R (ingest_measurement m)"
  "along R (update_health h)" "along R advance_epoch" "along R (set_live_boot b)"
  "along R (register_backend bk)" "along R (adopt_topology t)"
  unfolding plan_collective_def reserve_collective_def dispatch_collective_def complete_rank_def
    fail_collective_def abort_collective_def cancel_collective_def mark_stale_collective_def
    ingest_measurement_def update_health_def set_live_boot_def register_backend_def adopt_topology_def advance_epoch_def
  by ((rule along_intros | (simp; fail))+)+

lemma sections:
  "along R (attempt ev e d grp inputs)" "along R (commit ev e d n outcome)"
proof -
  show "along R (attempt ev e d grp inputs)"
    unfolding attempt_def by (rule along_intros | (simp; fail))+
  have "along R (commit_failure ev e d what)" for what
    unfolding commit_failure_def by (rule along_intros | (simp; fail))+
  moreover have "along R (commit_success ev e n outs)" for outs
    unfolding commit_success_def by (rule along_intros | (simp; fail))+
  ultimately show "along R (commit ev e d n outcome)"
    by (auto simp: commit_def split: sum.split fault.split intro!: along_intros)
qed

lemma called:
  assumes "inv rt" shows "R rt (after_call c rt)"
  by (cases c) (simp_all add: alongD operations registered created assms)

lemma stepped:
  assumes "step s t" "inv (sy_runtime s)" shows "R (sy_runtime s) (sy_runtime t)"
  using assms
proof (cases rule: step.cases)
  case (Call c)
  then show ?thesis using called assms(2) by simp
next
  case (Start e ex grp ev inputs outcome rt)
  then show ?thesis using alongD [OF sections(1), of "sy_runtime s" ev e "ex_descriptor ex" grp inputs] by simp
next
  case (Finish i p ev r rt)
  then show ?thesis
    using alongD [OF sections(2), of "sy_runtime s" ev "pe_execution p" "pe_descriptor p" "pe_ranks p" "pe_outcome p"] by simp
qed

lemma ran:
  assumes "runs k s t" "\<And>j u. j < k \<Longrightarrow> runs j s u \<Longrightarrow> inv (sy_runtime u)"
  shows "R (sy_runtime s) (sy_runtime t)"
  using assms
proof (induction rule: runs.induct)
  case (more k s t u)
  have "R (sy_runtime s) (sy_runtime t)" by (rule more.IH) (rule more.prems [OF less_SucI])
  moreover have "inv (sy_runtime t)" using more.prems [OF lessI more.hyps(1)] .
  ultimately show ?case using stepped [OF more.hyps(2)] by (blast intro: trans)
qed (rule refl)

end

end
