(* ===== verification/CF_Board.thy ===== *)
theory CF_Board
  imports CF_Relation
begin

text \<open>
  What the runtime promises of groups and executions, as an abstract machine (a board), and the proof that
  every interleaving of the runtime's calls is a run of it.
\<close>

section \<open>The board\<close>

record Board =
  bd_groups :: "group_key \<rightharpoonup> RankId set"
  bd_runs :: "ExecutionId \<rightharpoonup> group_key \<times> CollectiveState \<times> RankId set"

definition empty_board :: Board where
  "empty_board = \<lparr>bd_groups = Map.empty, bd_runs = Map.empty\<rparr>"

definition set_run :: "ExecutionId \<Rightarrow> group_key \<times> CollectiveState \<times> RankId set \<Rightarrow> Board \<Rightarrow> Board" where
  "set_run e x b = b\<lparr>bd_runs := (bd_runs b)(e \<mapsto> x)\<rparr>"

text \<open>
  A group is registered once; an execution is created for a registered group; completions are only added; a state
  moves along the lifecycle, and to SUCCEEDED only when every rank of the group has completed.
\<close>

inductive board_step :: "Board \<Rightarrow> Board \<Rightarrow> bool" where
  Register: "bd_groups b k = None \<Longrightarrow> board_step b (b\<lparr>bd_groups := (bd_groups b)(k \<mapsto> rs)\<rparr>)"
| Open: "bd_runs b e = None \<Longrightarrow> bd_groups b k \<noteq> None \<Longrightarrow> board_step b (set_run e (k, CREATED, {}) b)"
| Record: "bd_runs b e = Some (k, s, done) \<Longrightarrow> done \<subseteq> done' \<Longrightarrow> board_step b (set_run e (k, s, done') b)"
| Move: "bd_runs b e = Some (k, s, done) \<Longrightarrow> allowed s t \<Longrightarrow> t \<noteq> SUCCEEDED \<Longrightarrow> board_step b (set_run e (k, t, done) b)"
| Succeed: "bd_runs b e = Some (k, COMPLETING, done) \<Longrightarrow> bd_groups b k = Some rs \<Longrightarrow> rs \<subseteq> done \<Longrightarrow>
    board_step b (set_run e (k, SUCCEEDED, done) b)"

inductive_cases board_stepE: "board_step b b'"

definition board_ok :: "Board \<Rightarrow> bool" where
  "board_ok b \<longleftrightarrow> (\<forall>e k s done. bd_runs b e = Some (k, s, done) \<longrightarrow>
     (\<exists>rs. bd_groups b k = Some rs \<and> (s = SUCCEEDED \<longrightarrow> rs \<subseteq> done)))"

lemma board_ok_empty: "board_ok empty_board"
  by (simp add: board_ok_def empty_board_def)

lemma board_ok_step: "board_step b b' \<Longrightarrow> board_ok b \<Longrightarrow> board_ok b'"
proof (induction rule: board_step.induct)
  case (Record b e k s d d')
  then show ?case unfolding board_ok_def set_run_def by (auto split: if_splits) (meson subset_trans)+
qed (fastforce simp: board_ok_def set_run_def split: if_splits)+

section \<open>The board of a runtime\<close>

definition ranks_of :: "CollectiveGroup \<Rightarrow> RankId set" where
  "ranks_of g = pt_rank ` set (cg_participants g)"

definition run_of :: "Execution \<Rightarrow> group_key \<times> CollectiveState \<times> RankId set" where
  "run_of ex = (descriptor_key (ex_descriptor ex), ex_lifecycle ex, {r. om_find (ex_rank_completions ex) r \<noteq> None})"

definition board :: "Runtime \<Rightarrow> Board" where
  "board rt = \<lparr>bd_groups = (\<lambda>k. map_option ranks_of (om_find (rt_groups rt) k)),
     bd_runs = (\<lambda>e. map_option run_of (om_find (rt_executions rt) e))\<rparr>"

lemma board_fields [simp]:
  "bd_groups (board rt) k = map_option ranks_of (om_find (rt_groups rt) k)"
  "bd_runs (board rt) e = map_option run_of (om_find (rt_executions rt) e)"
  by (simp_all add: board_def)

lemma board_store [simp]: "board (store e ex rt) = set_run e (run_of ex) (board rt)"
  by (auto simp: board_def store_def set_run_def)

lemma set_run_same: "bd_runs b e = Some x \<Longrightarrow> set_run e x b = b"
  by (simp add: set_run_def fun_upd_idem)

lemma board_cong: "rt_groups rt = rt_groups rt' \<Longrightarrow> rt_executions rt = rt_executions rt' \<Longrightarrow> board rt = board rt'"
  by (simp add: board_def)

section \<open>The runtime refines the board\<close>

abbreviation on_board :: "Runtime \<Rightarrow> Runtime \<Rightarrow> bool" where
  "on_board rt rt' \<equiv> board_step\<^sup>*\<^sup>* (board rt) (board rt')"

lemma moved_step:
  assumes "om_find (rt_executions rt) e = Some ex" "allowed (ex_lifecycle ex) to" "to \<noteq> SUCCEEDED"
  shows "board_step (board rt) (board (store e (ex\<lparr>ex_lifecycle := to\<rparr>) rt))"
  using board_step.Move [of "board rt" e _ "ex_lifecycle ex" _ to] assms by (simp add: run_of_def)

lemma moved_along:
  assumes "to \<noteq> SUCCEEDED" shows "along on_board (move e to)" "along on_board (try_move e to)"
proof (rule_tac [!] alongI)
  fix rt
  show "on_board rt (snd (move e to rt))"
    using moved_step [of rt e _ to] assms
    by (cases "om_find (rt_executions rt) e") (auto simp: move_def op_simps transition_to_def)
  show "on_board rt (snd (try_move e to rt))"
    using moved_step [of rt e _ to] assms
    by (cases "om_find (rt_executions rt) e")
      (auto simp: try_move_def update_def op_simps try_transition_eq set_run_same)
qed

lemma written_along:
  assumes "writes f" shows "along on_board (update e f)"
proof (rule alongI)
  fix rt
  show "on_board rt (snd (update e f rt))"
  proof (cases "om_find (rt_executions rt) e")
    case (Some ex)
    then have "bd_runs (board rt) e = Some (descriptor_key (ex_descriptor ex), ex_lifecycle ex, {r. om_find (ex_rank_completions ex) r \<noteq> None})"
      by (simp add: run_of_def)
    from board_step.Record [OF this, of "{r. om_find (ex_rank_completions (f ex)) r \<noteq> None}"] assms
    have "board_step (board rt) (set_run e (run_of (f ex)) (board rt))"
      by (simp add: run_of_def writes_def Collect_mono)
    then show ?thesis using Some by (simp add: update_def op_simps)
  qed (simp add: update_def op_simps)
qed

lemma judged_along: "along on_board (apply_quorum e)"
proof (rule alongI)
  fix rt
  show "on_board rt (snd (apply_quorum e rt))"
  proof (cases "om_find (rt_executions rt) e")
    case ex: (Some ex)
    show ?thesis
    proof (cases "om_find (rt_groups rt) (descriptor_key (ex_descriptor ex))")
      case None
      have "snd (apply_quorum e rt) = snd (try_move e CollectiveState.FAILED rt)"
        using ex None by (simp add: apply_quorum_def op_simps)
      then show ?thesis using alongD [OF moved_along(2), of CollectiveState.FAILED rt e] by simp
    next
      case g: (Some g)
      show ?thesis
      proof (cases "quorum g (ex_rank_completions ex) \<and> ex_lifecycle ex = COMPLETING")
        case True
        then have "board_step (board rt) (board (store e (ex\<lparr>ex_lifecycle := SUCCEEDED\<rparr>) rt))"
          using board_step.Succeed [of "board rt" e "descriptor_key (ex_descriptor ex)" _ "ranks_of g"] ex g
          by (simp add: run_of_def quorum_iff ranks_of_def image_subset_iff)
        then show ?thesis
          using True ex g by (simp add: apply_quorum_def try_move_def update_def op_simps try_transition_eq)
      qed (use ex g in \<open>auto simp: apply_quorum_def op_simps\<close>)
    qed
  qed (simp add: apply_quorum_def op_simps)
qed

lemma registered_along: "along on_board (register_group g)"
proof (rule alongI)
  fix rt
  show "on_board rt (snd (register_group g rt))"
  proof (cases "om_find (rt_groups rt) (group_key_of g)")
    case None
    let ?rt = "rt\<lparr>rt_groups := om_put (group_key_of g) g (rt_groups rt)\<rparr>"
    have "board ?rt = (board rt)\<lparr>bd_groups := (bd_groups (board rt))(group_key_of g \<mapsto> ranks_of g)\<rparr>"
      by (auto simp: board_def)
    moreover have "board_step (board rt) \<dots>" using None by (intro board_step.Register) simp
    ultimately show ?thesis using None by (auto simp: register_group_def)
  qed (simp add: register_group_def)
qed

text \<open>Creating an execution opens a run, because ids come from the counter.\<close>

lemma create_refines:
  assumes "runtime_ok rt"
  shows "on_board rt (snd (create_collective d rt))"
proof (cases "snd (create_collective d rt) = rt")
  case False
  then obtain g where g: "om_find (rt_groups rt) (descriptor_key d) = Some g"
    and eq: "snd (create_collective d rt) = store (StrongId (rt_next_id rt)) (new_execution d (rt_next_id rt + 1))
      (rt\<lparr>rt_next_id := rt_next_id rt + 1 + 1\<rparr>)"
    using create_outcome [of d rt] by blast
  note fresh_execution [OF assms]
  moreover have "board (rt\<lparr>rt_next_id := i\<rparr>) = board rt" for i by (rule board_cong) simp_all
  moreover have "run_of (new_execution d i) = (descriptor_key d, CREATED, {})" for i
    by (simp add: run_of_def new_execution_def)
  ultimately show ?thesis
    using board_step.Open [of "board rt" "StrongId (rt_next_id rt)" "descriptor_key d"] g unfolding eq by auto
qed simp

lemma same_along:
  "along on_board fresh_id" "books a \<Longrightarrow> along on_board (account a)" "changes h \<Longrightarrow> along on_board (modify h)"
proof -
  show "along on_board fresh_id" by (rule alongI) (simp add: fresh_id_def board_def)
  show "along on_board (account a)" by (rule alongI) (simp add: account_def board_def split: sum.split)
  show "along on_board (modify h)" if "changes h" using that by (intro alongI) (simp add: modify_def board_def changes_def)
qed

interpretation rt_board: runtime_relation on_board runtime_ok
  by unfold_locales
    (auto intro: rtranclp_trans same_along written_along moved_along judged_along registered_along create_refines)

lemma runs_runtime_ok:
  assumes "runs k new_system s" "runs m s t" "k + m < 2 ^ 62" "j < m" "runs j s u"
  shows "runtime_ok (sy_runtime u)"
  using runs_from_new [OF runs_trans [OF assms(5,1)]] assms(3,4) by (simp add: keeps_def)

lemma board_new: "board new_runtime = empty_board"
  by (simp add: board_def new_runtime_def empty_board_def)

section \<open>Properties\<close>

text \<open>C3: the runtime implements the board: whatever calls and concurrent executions are interleaved, what is
  registered and what has run is what a run of the abstract machine leaves, from the empty board to any
  reachable state and from there to any later one.\<close>

theorem runtime_refines_board:
  assumes "runs k new_system s" "runs m s t" "k + m < 2 ^ 62"
  shows "board_step\<^sup>*\<^sup>* empty_board (board (sy_runtime s)) \<and>
    board_step\<^sup>*\<^sup>* (board (sy_runtime s)) (board (sy_runtime t))"
proof
  have "board_step\<^sup>*\<^sup>* (board (sy_runtime new_system)) (board (sy_runtime s))"
    by (rule rt_board.ran [OF assms(1)]) (use runs_runtime_ok [OF runs.stop assms(1)] assms(3) in auto)
  then show "board_step\<^sup>*\<^sup>* empty_board (board (sy_runtime s))" by (simp add: new_system_def board_new)
  show "board_step\<^sup>*\<^sup>* (board (sy_runtime s)) (board (sy_runtime t))"
    by (rule rt_board.ran [OF assms(2)]) (rule runs_runtime_ok [OF assms])
qed

theorem runtime_refines_board_witness:
  "\<exists>s e k d. runs 7 new_system s \<and> board_step\<^sup>*\<^sup>* empty_board (board (sy_runtime s)) \<and>
    bd_runs (board (sy_runtime s)) e = Some (k, SUCCEEDED, d)"
proof -
  obtain s e ex where s: "runs 7 new_system s" "om_find (rt_executions (sy_runtime s)) e = Some ex" "ex_lifecycle ex = SUCCEEDED"
    by (rule sample_run)
  have "7 + 0 < (2 :: nat) ^ 62" by simp
  from runtime_refines_board [OF s(1) runs.stop this] have "board_step\<^sup>*\<^sup>* empty_board (board (sy_runtime s))" by blast
  moreover have "bd_runs (board (sy_runtime s)) e =
      Some (descriptor_key (ex_descriptor ex), SUCCEEDED, {r. om_find (ex_rank_completions ex) r \<noteq> None})"
    using s(2,3) by (simp add: run_of_def)
  ultimately show ?thesis using s(1) by blast
qed

text \<open>What holds of every board holds of every reachable runtime.\<close>

lemma reachable_board_ok:
  assumes "runs k new_system s" "k < 2 ^ 62" shows "board_ok (board (sy_runtime s))"
proof -
  have "board_step\<^sup>*\<^sup>* (board (sy_runtime new_system)) (board (sy_runtime s))"
    by (rule rt_board.ran [OF assms(1)]) (use runs_runtime_ok [OF runs.stop assms(1)] assms(2) in auto)
  then show ?thesis
    by (induction rule: rtranclp_induct) (auto simp: new_system_def board_new board_ok_empty intro: board_ok_step)
qed

end
