(* ===== verification/CF_Typing.thy ===== *)
theory CF_Typing
  imports CF_Board
begin

text \<open>
  Well-formed runtimes: every \<open>std::map\<close> of the state is a value of that type, with strictly increasing keys,
  groups and backends are stored under their own ids, and the accounts balance.
\<close>

definition well_typed :: "Runtime \<Rightarrow> bool" where
  "well_typed rt \<longleftrightarrow>
     om_inv (rt_backends rt) \<and> om_inv (rt_groups rt) \<and> om_inv (rt_executions rt) \<and> om_inv (rt_measurements rt) \<and>
     ledger_ok (rt_accounting rt) \<and>
     (\<forall>k g. om_find (rt_groups rt) k = Some g \<longrightarrow> group_key_of g = k) \<and>
     (\<forall>i b. om_find (rt_backends rt) i = Some b \<longrightarrow> be_id b = i) \<and>
     (\<forall>e ex. om_find (rt_executions rt) e = Some ex \<longrightarrow> om_inv (ex_rank_completions ex))"

abbreviation stays_typed :: "Runtime \<Rightarrow> Runtime \<Rightarrow> bool" where
  "stays_typed rt rt' \<equiv> well_typed rt \<longrightarrow> well_typed rt'"

lemma typed_store:
  "well_typed rt \<Longrightarrow> om_inv (ex_rank_completions ex) \<Longrightarrow> well_typed (store e ex rt)"
  by (simp add: well_typed_def store_def om_inv_put)

lemma typed_update:
  assumes "\<And>ex. om_inv (ex_rank_completions ex) \<Longrightarrow> om_inv (ex_rank_completions (f ex))"
  shows "along stays_typed (update e f)"
proof (rule alongI, rule impI)
  fix rt assume w: "well_typed rt"
  show "well_typed (snd (update e f rt))"
  proof (cases "om_find (rt_executions rt) e")
    case (Some ex)
    then have "om_inv (ex_rank_completions (f ex))" using w assms by (simp add: well_typed_def)
    then show ?thesis using Some w by (simp add: update_def op_simps typed_store)
  qed (use w in \<open>simp add: update_def op_simps\<close>)
qed

lemma typed_tried: "along stays_typed (try_move e to)"
  unfolding try_move_def by (rule typed_update) simp

lemma typed_moved: "along stays_typed (move e to)"
proof (rule alongI, rule impI)
  fix rt assume w: "well_typed rt"
  then show "well_typed (snd (move e to rt))"
    by (cases "om_find (rt_executions rt) e")
      (auto simp: move_def op_simps well_typed_def store_def om_inv_put split: sum.split)
qed

lemma typed_judged: "along stays_typed (apply_quorum e)"
proof (rule alongI, rule impI)
  fix rt assume w: "well_typed rt"
  have "snd (apply_quorum e rt) \<in> {rt, snd (try_move e CollectiveState.FAILED rt), snd (try_move e SUCCEEDED rt)}"
    by (auto simp: apply_quorum_def op_simps split: sum.split option.split)
  then show "well_typed (snd (apply_quorum e rt))" using w alongD [OF typed_tried] by auto
qed

lemma typed_changed:
  assumes "changes h" shows "along stays_typed (modify h)"
proof (rule alongI, rule impI)
  fix rt assume w: "well_typed rt"
  have c: "rt_groups (h rt) = rt_groups rt" "rt_executions (h rt) = rt_executions rt" "rt_accounting (h rt) = rt_accounting rt"
    "rt_backends (h rt) = rt_backends rt \<or> (\<exists>b. rt_backends (h rt) = om_put (be_id b) b (rt_backends rt))"
    "rt_measurements (h rt) = rt_measurements rt \<or> (\<exists>i m. rt_measurements (h rt) = om_put i m (rt_measurements rt))"
    using assms unfolding changes_def by blast+
  have "om_inv (rt_measurements (h rt))" using c(5) w by (auto simp: well_typed_def om_inv_put)
  moreover have "om_inv (rt_backends (h rt)) \<and> (\<forall>i b. om_find (rt_backends (h rt)) i = Some b \<longrightarrow> be_id b = i)"
    using c(4) w by (auto simp: well_typed_def om_inv_put split: if_splits)
  ultimately show "well_typed (snd (modify h rt))" using w by (simp add: well_typed_def modify_def c(1-3))
qed

lemma typed_booked:
  assumes "books f" shows "along stays_typed (account f)"
proof (rule alongI, rule impI)
  fix rt assume w: "well_typed rt"
  have "ledger_ok a" if f: "f (rt_accounting rt) = Inr a" for a
  proof -
    have l: "ledger_ok (rt_accounting rt)" using w by (simp add: well_typed_def)
    consider "reservations a = reservations (rt_accounting rt)" "reserved_bytes a = reserved_bytes (rt_accounting rt)"
      | i n where "reserve i n (rt_accounting rt) = Inr a"
      using assms f unfolding books_def by blast
    then show ?thesis
    proof cases
      case 1
      with l show ?thesis by (simp add: ledger_ok_def)
    next
      case 2
      with l show ?thesis by (rule ledger_ok_reserve)
    qed
  qed
  then show "well_typed (snd (account f rt))"
    using w by (cases "f (rt_accounting rt)") (simp_all add: account_def well_typed_def)
qed

lemma typed_fresh: "along stays_typed fresh_id"
  by (rule alongI) (simp add: fresh_id_def well_typed_def)

lemma typed_registered: "along stays_typed (register_group g)"
  by (rule alongI) (auto simp: register_group_def well_typed_def om_inv_put)

lemma typed_created: "stays_typed rt (snd (create_collective d rt))"
proof
  assume w: "well_typed rt"
  show "well_typed (snd (create_collective d rt))"
    using create_outcome [of d rt]
  proof (elim disjE conjE)
    assume "snd (create_collective d rt) = store (StrongId (rt_next_id rt)) (new_execution d (rt_next_id rt + 1))
      (rt\<lparr>rt_next_id := rt_next_id rt + 1 + 1\<rparr>)"
    moreover have "well_typed (rt\<lparr>rt_next_id := i\<rparr>)" for i using w by (simp add: well_typed_def)
    ultimately show ?thesis by (simp add: typed_store new_execution_def om.inv_empty)
  qed (use w in simp)
qed

interpretation rt_typed: runtime_relation stays_typed "\<lambda>_. True"
  by unfold_locales
    (auto intro: typed_booked typed_changed typed_fresh typed_registered typed_judged typed_moved typed_tried
      typed_update simp: typed_created [rule_format] writes_def)



end
