(* ===== verification/CF_Scalars.thy ===== *)
theory CF_Scalars
  imports CF_Canonical
begin

text \<open>
  The remaining scalar fields of \<open>digest/canonical.hpp\<close>: signed integers, floating-point numbers (as their bits,
  which is what \<open>memcpy\<close> moves) and the 64-bit form of an unsigned scalar, each with its codec.
\<close>

section \<open>Writing and reading\<close>

definition w_i32 :: "int \<Rightarrow> bytes" where "w_i32 v = w_u32 (of_int v)"
definition w_i64 :: "int \<Rightarrow> bytes" where "w_i64 v = w_u64 (of_int v)"
definition w_f32 :: "u32 \<Rightarrow> bytes" where "w_f32 bits = w_u32 bits"
definition w_f64 :: "u64 \<Rightarrow> bytes" where "w_f64 bits = w_u64 bits"

definition w_scalar :: "'a::len word \<Rightarrow> bytes" where
  "w_scalar v = w_u64 (ucast v)"

definition r_i32 :: "reader \<Rightarrow> (int \<times> reader) option" where
  "r_i32 r = (case r_u32 r of None \<Rightarrow> None | Some (u, r') \<Rightarrow> Some (sint u, r'))"

definition r_i64 :: "reader \<Rightarrow> (int \<times> reader) option" where
  "r_i64 r = (case r_u64 r of None \<Rightarrow> None | Some (u, r') \<Rightarrow> Some (sint u, r'))"

definition r_f32 :: "reader \<Rightarrow> (u32 \<times> reader) option" where
  "r_f32 r = (case r_u32 r of None \<Rightarrow> None | Some (u, r') \<Rightarrow> Some (u, r'))"

definition r_f64 :: "reader \<Rightarrow> (u64 \<times> reader) option" where
  "r_f64 r = (case r_u64 r of None \<Rightarrow> None | Some (u, r') \<Rightarrow> Some (u, r'))"

section \<open>Codecs\<close>

lemma r_u16_enc [codec_simps]: "r_u16 (reader_at p (w_u16 v @ ys)) = Some (v, reader_at (p @ w_u16 v) ys)"
  by (simp add: r_u16_def read_be_at w_u16_def foldl_push_be) (simp add: bit_simps bit_eq_iff bit_word_eqI)

lemma r_u16_short: "strict_prefix ys (w_u16 v) \<Longrightarrow> r_u16 (reader_at p ys) = None"
  using prefix_length_less [of ys "w_u16 v"] by (simp add: r_u16_def read_be_at)

lemma r_u32_short: "strict_prefix ys (w_u32 v) \<Longrightarrow> r_u32 (reader_at p ys) = None"
  using prefix_length_less [of ys "w_u32 v"] by (simp add: r_u32_def read_be_at)

lemma sint_of_int:
  fixes v :: int
  assumes "- (2 ^ (LENGTH('a) - 1)) \<le> v" "v < 2 ^ (LENGTH('a) - 1)"
  shows "sint (of_int v :: 'a::len word) = v"
  using assms by (simp add: signed_of_int signed_take_bit_int_eq_self)

abbreviation in_range :: "nat \<Rightarrow> int \<Rightarrow> bool" where
  "in_range n v \<equiv> - (2 ^ (n - 1)) \<le> v \<and> v < 2 ^ (n - 1)"

interpretation u16_codec: codec w_u16 "rd r_u16 e" "\<lambda>_. True" for e
  by unfold_locales (simp_all add: rd_def r_u16_enc r_u16_short)

interpretation u32_codec: codec w_u32 "rd r_u32 e" "\<lambda>_. True" for e
  by unfold_locales (simp_all add: rd_def r_u32_enc r_u32_short)

interpretation f32_codec: codec w_f32 "rd r_f32 e" "\<lambda>_. True" for e
  by unfold_locales (simp_all add: rd_def r_f32_def w_f32_def r_u32_enc r_u32_short)

interpretation f64_codec: codec w_f64 "rd r_f64 e" "\<lambda>_. True" for e
  by unfold_locales (simp_all add: rd_def r_f64_def w_f64_def r_u64_enc r_u64_short)

interpretation i32_codec: codec w_i32 "rd r_i32 e" "in_range 32" for e
  by unfold_locales (simp_all add: rd_def r_i32_def w_i32_def r_u32_enc r_u32_short sint_of_int)

interpretation i64_codec: codec w_i64 "rd r_i64 e" "in_range 64" for e
  by unfold_locales (simp_all add: rd_def r_i64_def w_i64_def r_u64_enc r_u64_short sint_of_int)

section \<open>Properties\<close>

text \<open>The scalar encodings lose nothing: a signed integer is written as a field from which exactly that integer is
  read back when it fits its width, and a widened scalar determines the value it was made of.\<close>

theorem scalars_round_trip:
  assumes "- (2 ^ 31) \<le> v" "v < 2 ^ 31"
  shows "r_i32 (reader_at p (w_i32 v @ ys)) = Some (v, reader_at (p @ w_i32 v) ys) \<and>
    r_i64 (reader_at p (w_i64 v @ ys)) = Some (v, reader_at (p @ w_i64 v) ys) \<and>
    (w_scalar (a :: u32) = w_scalar b) = (a = b)"
proof -
  have "- (2 ^ 63) \<le> v" "v < 2 ^ 63" using assms by simp_all
  moreover have "ucast (ucast c :: u64) = c" for c :: u32
    by (rule bit_word_eqI) (auto simp: bit_simps)
  then have "(ucast a :: u64) = ucast b \<longleftrightarrow> a = b" by metis
  ultimately show ?thesis
    using assms by (simp add: r_i32_def w_i32_def r_i64_def w_i64_def r_u32_enc r_u64_enc sint_of_int w_scalar_def u64_codec.enc_inject)
qed

theorem scalars_round_trip_witness:
  "r_i32 (reader_at [] (w_i32 (- 5))) = Some (- 5, reader_at (w_i32 (- 5)) [])"
  using scalars_round_trip [of "- 5" "[]" "[]" 0 0] by simp

end
