(* ===== verification/CF_Numbers.thy ===== *)
theory CF_Numbers
  imports CF_Foundation
begin

text \<open>
  Numbers in text: \<open>atoi\<close> and \<open>strtoull\<close> as the programs of \<open>tools/\<close> use them, and how they read what
  \<open>std::to_string\<close> and \<open>%llu\<close> write.
\<close>

declare digits.simps [simp del]

definition is_space :: "char \<Rightarrow> bool" where
  "is_space c = (c = CHR '' '' \<or> (9 \<le> (of_char c :: nat) \<and> (of_char c :: nat) \<le> 13))"

definition is_digit :: "char \<Rightarrow> bool" where
  "is_digit c = (48 \<le> (of_char c :: nat) \<and> (of_char c :: nat) \<le> 57)"

definition number :: "string \<Rightarrow> nat" where
  "number s = foldl (\<lambda>v c. 10 * v + (of_char c - 48)) 0 (takeWhile is_digit s)"

text \<open>White space, a sign, digits: whether the sign is a minus, and the value of the digits.\<close>

definition signed_number :: "string \<Rightarrow> bool \<times> nat" where
  "signed_number s =
     (case dropWhile is_space s of
        [] \<Rightarrow> (False, 0)
      | c # r \<Rightarrow> if c = CHR ''-'' then (True, number r) else if c = CHR ''+'' then (False, number r)
          else (False, number (c # r)))"

text \<open>A value outside \<open>int\<close> is undefined for \<open>atoi\<close>; \<open>strtoull\<close> saturates, and negates modulo \<open>2 ^ 64\<close>.\<close>

definition atoi :: "string \<Rightarrow> fault + int" where
  "atoi s =
     (let (neg, n) = signed_number s; v = (if neg then - int n else int n)
      in if - (2 ^ 31) \<le> v \<and> v < 2 ^ 31 then Inr v else Inl Undefined)"

definition strtoull :: "string \<Rightarrow> u64" where
  "strtoull s =
     (let (neg, n) = signed_number s
      in if 2 ^ 64 \<le> n then UINT64_MAX else if neg then - of_nat n else of_nat n)"

section \<open>Reading what was written\<close>

lemma digit_char:
  fixes k :: nat
  assumes "k < 10" shows "is_digit (char_of (48 + k))" "of_char (char_of (48 + k) :: char) = (48 + k :: nat)"
proof -
  have "(48 + k) mod 256 = 48 + k" using assms by simp
  then show "of_char (char_of (48 + k) :: char) = (48 + k :: nat)" by (simp add: of_char_of)
  then show "is_digit (char_of (48 + k))" using assms by (simp add: is_digit_def)
qed

lemma digits_digits: "list_all is_digit (digits n)" "digits n \<noteq> []"
proof (induction n rule: digits.induct)
  case (1 n)
  {
    case 1
    then show ?case
      using "1.IH" by (simp add: digits.simps [of n] digit_char)
  next
    case 2
    then show ?case by (simp add: digits.simps [of n])
  }
qed

lemma number_digits: "number (digits n) = n"
proof -
  have "foldl (\<lambda>v c. 10 * v + (of_char c - 48)) 0 (digits n) = n"
  proof (induction n rule: digits.induct)
    case (1 n)
    then show ?case by (simp add: digits.simps [of n] digit_char)
  qed
  then show ?thesis using digits_digits(1) [of n] by (simp add: number_def takeWhile_eq_all_conv [THEN iffD2] list_all_iff)
qed

lemma signed_digits: "signed_number (digits n) = (False, n)"
proof -
  obtain c r where c: "digits n = c # r" using digits_digits(2) [of n] by (cases "digits n") auto
  then have "is_digit c" using digits_digits(1) [of n] by simp
  then have "\<not> is_space c" "c \<noteq> CHR ''-''" "c \<noteq> CHR ''+''" by (auto simp: is_digit_def is_space_def)
  then show ?thesis using number_digits [of n] by (simp add: signed_number_def c)
qed

lemma atoi_digits: "n < 2 ^ 31 \<Longrightarrow> atoi (digits n) = Inr (int n)"
  by (simp add: atoi_def signed_digits)

lemma strtoull_to_string: "strtoull (to_string b) = b"
proof -
  have "unat b < 2 ^ 64" by simp
  then have "\<not> 2 ^ 64 \<le> unat b" by (simp only: not_le)
  moreover have "of_nat (unat b) = b" by simp
  ultimately show ?thesis by (simp only: strtoull_def to_string_def signed_digits Let_def case_prod_conv if_False)
qed

end
