(* ===== verification/CF_Explain.thy ===== *)
theory CF_Explain
  imports CF_Planner CF_Health CF_Numbers
begin

text \<open>
  The explanations (\<open>explanation.hpp\<close>): the text of a plan, a rejection, a collective, a health record, a
  measurement and a recovery. How \<open>operator<<\<close> writes a \<open>double\<close> is a parameter.
\<close>

declare digits.simps [simp del]

definition reason_text :: "string \<Rightarrow> string" where
  "reason_text s = (if s = [] then [] else '' :: '' @ s)"

definition newline :: string where
  "newline = [char_of (10 :: nat)]"

definition explain_factor :: "(double \<Rightarrow> string) \<Rightarrow> DecisionFactor \<Rightarrow> string" where
  "explain_factor show f =
     newline @ ''  factor '' @ df_name f @ ''='' @ show (df_value f) @ '' ('' @ df_unit f @ '')'' @ reason_text (df_reason f)"

definition explain_plan :: "(double \<Rightarrow> string) \<Rightarrow> CollectivePlan \<Rightarrow> string" where
  "explain_plan show pl =
     ''plan algorithm='' @ algorithm_to_string (pl_algorithm pl) @
     '' backend='' @ to_string (raw (pl_backend pl)) @
     '' transport='' @ transport_class_to_string (pl_transport pl) @
     '' expected_steps='' @ to_string (pl_expected_steps pl) @
     '' expected_byte_movement='' @ to_string (pl_expected_byte_movement pl) @
     '' overlap_eligible='' @ (if pl_overlap_eligible pl then ''true'' else ''false'') @
     '' provenance='' @ provenance_kind_to_string (pl_provenance pl) @
     concat (map (explain_factor show) (pl_factors pl)) @
     concat (map (\<lambda>e. newline @ ''  '' @ e) (pl_explanation pl))"

definition explain_rejection :: "string \<Rightarrow> CollectiveDescriptor \<Rightarrow> string" where
  "explain_rejection reason d =
     ''rejected collective '' @ collective_kind_to_string (cd_kind d) @ '' datatype='' @ datatype_to_string (cd_datatype d) @
     reason_text reason"

text \<open>The payload size may throw, and the text is lost then.\<close>

definition explain_collective :: "CollectiveDescriptor \<Rightarrow> CollectivePlan \<Rightarrow> fault + string" where
  "explain_collective d pl =
     sbind (element_byte_count d) (\<lambda>n.
     Inr (''collective '' @ collective_kind_to_string (cd_kind d) @
       '' group='' @ to_string (raw (cd_group_id d)) @ '' gen='' @ to_string (gen_value (cd_group_generation d)) @
       '' collective_gen='' @ to_string (gen_value (cd_collective_generation d)) @
       '' ranks='' @ digits (length (pl_rank_order pl)) @ '' payload_bytes='' @ to_string n @
       '' algorithm='' @ algorithm_to_string (pl_algorithm pl)))"

definition explain_health :: "HealthRecord \<Rightarrow> string" where
  "explain_health h =
     ''health='' @ health_state_to_string (hr_state h) @ '' generation='' @ to_string (gen_value (hr_generation h)) @
     reason_text (hr_narrative h)"

definition explain_measurement :: "(double \<Rightarrow> string) \<Rightarrow> CollectiveMeasurement \<Rightarrow> string" where
  "explain_measurement show m =
     ''measurement collective='' @ to_string (raw (cm_collective m)) @
     '' provenance='' @ measurement_provenance_to_string (cm_provenance m) @
     '' freshness='' @ measurement_freshness_to_string (cm_freshness m) @
     '' wall_time_us='' @ to_string (cm_wall_time_us m) @ '' payload_bytes='' @ to_string (cm_payload_bytes m) @
     (case cm_payload_throughput m of None \<Rightarrow> [] | Some x \<Rightarrow> '' payload_throughput_bytes_per_sec='' @ show x) @
     (case cm_estimated_link_throughput m of None \<Rightarrow> [] | Some x \<Rightarrow> '' estimated_link_bytes_per_sec='' @ show x) @
     reason_text (cm_narrative m)"

definition explain_recovery :: "string \<Rightarrow> MeasurementFreshness \<Rightarrow> string" where
  "explain_recovery what fresh = ''recovery '' @ what @ '' freshness='' @ measurement_freshness_to_string fresh"

end
