(* ===== verification/CF_Tcp.thy ===== *)
theory CF_Tcp
  imports CF_Protocol
begin

text \<open>
  Sockets (\<open>tools/tcp.hpp\<close>): the listener, the connection and the loop of \<open>send_all\<close>. Winsock is the
  environment: the answer of every call is an input, and the handles that are open and the calls of
  \<open>closesocket\<close> are a state. \<open>None\<close> is INVALID_SOCKET. The write mutex and the socket options are not modelled.
\<close>

section \<open>Handles\<close>

record winsock =
  wk_open :: "nat list"
  wk_closes :: "nat list"

text \<open>The answers of the calls that one \<open>listen_port\<close> or \<open>connect\<close> makes.\<close>

record socket_answers =
  sa_socket :: "nat option"
  sa_bind :: bool
  sa_listen :: bool
  sa_host :: bool
  sa_connect :: bool

definition open_socket :: "nat option \<Rightarrow> winsock \<Rightarrow> winsock" where
  "open_socket s w = (case s of None \<Rightarrow> w | Some h \<Rightarrow> w\<lparr>wk_open := h # wk_open w\<rparr>)"

definition closesocket :: "nat \<Rightarrow> winsock \<Rightarrow> winsock" where
  "closesocket h w = w\<lparr>wk_open := filter (\<lambda>x. x \<noteq> h) (wk_open w), wk_closes := wk_closes w @ [h]\<rparr>"

record TcpListener =
  tl_sock :: "nat option"

definition listen_port :: "socket_answers \<Rightarrow> TcpListener \<Rightarrow> winsock \<Rightarrow> (string + unit) \<times> TcpListener \<times> winsock" where
  "listen_port a l w =
     (let w = open_socket (sa_socket a) w in
      case sa_socket a of
        None \<Rightarrow> (Inl ''socket failed'', l\<lparr>tl_sock := None\<rparr>, w)
      | Some h \<Rightarrow>
          if \<not> sa_bind a then (Inl ''bind failed'', l\<lparr>tl_sock := None\<rparr>, closesocket h w)
          else if \<not> sa_listen a then (Inl ''listen failed'', l\<lparr>tl_sock := None\<rparr>, closesocket h w)
          else (Inr (), l\<lparr>tl_sock := Some h\<rparr>, w))"

definition accept_socket :: "nat option \<Rightarrow> TcpListener \<Rightarrow> winsock \<Rightarrow> (string + nat) \<times> winsock" where
  "accept_socket a l w =
     (case a of None \<Rightarrow> (Inl ''accept failed'', w) | Some h \<Rightarrow> (Inr h, open_socket (Some h) w))"

definition listener_close :: "TcpListener \<Rightarrow> winsock \<Rightarrow> TcpListener \<times> winsock" where
  "listener_close l w =
     (case tl_sock l of None \<Rightarrow> (l, w) | Some h \<Rightarrow> (l\<lparr>tl_sock := None\<rparr>, closesocket h w))"

record TcpConnection =
  tc_sock :: "nat option"

text \<open>The \<open>err\<close> argument is only written on a failure.\<close>

definition connect :: "socket_answers \<Rightarrow> winsock \<Rightarrow> string option \<times> TcpConnection \<times> winsock" where
  "connect a w =
     (let w = open_socket (sa_socket a) w in
      case sa_socket a of
        None \<Rightarrow> (Some ''socket failed'', \<lparr>tc_sock = None\<rparr>, w)
      | Some h \<Rightarrow>
          if \<not> sa_host a then (Some ''bad host'', \<lparr>tc_sock = None\<rparr>, closesocket h w)
          else if \<not> sa_connect a then (Some ''connect failed'', \<lparr>tc_sock = None\<rparr>, closesocket h w)
          else (None, \<lparr>tc_sock = Some h\<rparr>, w))"

definition connection_close :: "TcpConnection \<Rightarrow> winsock \<Rightarrow> TcpConnection \<times> winsock" where
  "connection_close c w =
     (case tc_sock c of None \<Rightarrow> (c, w) | Some h \<Rightarrow> (c\<lparr>tc_sock := None\<rparr>, closesocket h w))"

definition connection_valid :: "TcpConnection \<Rightarrow> bool" where
  "connection_valid c = (tc_sock c \<noteq> None)"

text \<open>The sockets of \<open>run_worker\<close>: \<open>FrameChannel ch(conn.get())\<close> makes a second connection over the handle
  of \<open>conn\<close>, and both destructors run when the function returns, the channel's first.\<close>

definition worker_sockets :: "socket_answers \<Rightarrow> winsock \<Rightarrow> winsock" where
  "worker_sockets a w =
     (let (err, conn, w) = connect a w in
      if \<not> connection_valid conn then snd (connection_close conn w)
      else let ch = \<lparr>tc_sock = tc_sock conn\<rparr>
        in snd (connection_close conn (snd (connection_close ch w))))"

section \<open>Sending\<close>

text \<open>What one call of \<open>send\<close> is asked for: \<open>static_cast<int>(len - sent)\<close>.\<close>

definition requested :: "u64 \<Rightarrow> u64 \<Rightarrow> int" where
  "requested len sent = sint (ucast (len - sent) :: u32)"

text \<open>The loop over the answers of \<open>send\<close>; -1 is SOCKET_ERROR. The result, \<open>None\<close> when the loop waits for an
  answer that the list does not hold, and the bytes handed over.\<close>

fun send_loop :: "int list \<Rightarrow> u64 \<Rightarrow> u64 \<Rightarrow> bool option \<times> u64" where
  "send_loop os len sent =
     (if sent < len
      then case os of
             [] \<Rightarrow> (None, sent)
           | n # os \<Rightarrow> if n = -1 then (Some False, sent) else send_loop os len (sent + of_int n)
      else (Some True, sent))"

declare send_loop.simps [simp del]

definition send_all :: "int list \<Rightarrow> bytes \<Rightarrow> bool option \<times> bytes" where
  "send_all os data =
     (case send_loop os (of_nat (length data)) 0 of (r, sent) \<Rightarrow> (r, take (unat sent) data))"

text \<open>What the documentation of \<open>send\<close> says of its answers on a blocking socket: an error, or the number of
  bytes taken, at least one and at most those requested.\<close>

fun documented :: "int list \<Rightarrow> u64 \<Rightarrow> u64 \<Rightarrow> bool" where
  "documented [] len sent = True"
| "documented (n # os) len sent =
     (sent < len \<longrightarrow> n = -1 \<or> 1 \<le> n \<and> n \<le> requested len sent \<and> documented os len (sent + of_int n))"

lemma requested_eq:
  assumes "sent \<le> len" "unat len < 2 ^ 31"
  shows "requested len sent = int (unat len - unat sent)"
proof -
  have "unat (len - sent) = unat len - unat sent" using assms(1) by (simp add: unat_sub)
  then have "unat (ucast (len - sent) :: u32) = unat len - unat sent"
    using assms(2) by (simp add: unsigned_ucast_eq unsigned_take_bit_eq take_bit_nat_eq_self)
  then have "uint (ucast (len - sent) :: u32) = int (unat len - unat sent)" by (simp add: uint_nat)
  then show ?thesis
    using assms(2) unfolding requested_def sint_uint by (simp add: signed_take_bit_int_eq_self)
qed

lemma taken_eq:
  assumes "sent \<le> len" "unat len < 2 ^ 31" "1 \<le> n" "n \<le> requested len sent"
  shows "unat (sent + of_int n) = unat sent + nat n" "sent + of_int n \<le> len"
proof -
  have le: "nat n \<le> unat len - unat sent" "unat sent \<le> unat len"
    using assms(4) unfolding requested_eq [OF assms(1,2)] nat_le_iff by (assumption, use assms(1) in \<open>simp add: word_le_nat_alt\<close>)
  have "nat n < 2 ^ 31" using le(1) assms(2) by simp
  then have "n < 2 ^ 31" by simp
  then have "uint (of_int n :: u64) = n"
    using assms(3) by (simp add: uint_word_of_int)
  then have "unat (of_int n :: u64) = nat n" by (metis nat_uint_eq)
  moreover have "unat sent + nat n < 2 ^ 64"
    by (rule le_less_trans [of _ "unat len"]) (use le assms(2) in simp_all)
  ultimately show "unat (sent + of_int n) = unat sent + nat n" by (simp add: unat_plus_u64)
  then show "sent + of_int n \<le> len" using le by (simp add: word_le_nat_alt)
qed

lemma send_loop_ok:
  assumes "documented os len sent" "sent \<le> len" "unat len < 2 ^ 31" "send_loop os len sent = (r, s)"
  shows "case r of Some True \<Rightarrow> s = len | Some False \<Rightarrow> s < len | None \<Rightarrow> s < len \<and> unat sent + length os \<le> unat s"
  using assms
proof (induction os arbitrary: sent)
  case Nil
  then show ?case by (auto simp add: send_loop.simps split: if_splits)
next
  case (Cons n os)
  show ?case
  proof (cases "sent < len \<and> n \<noteq> -1")
    case True
    then have d: "1 \<le> n" "n \<le> requested len sent" "documented os len (sent + of_int n)" using Cons.prems by auto
    note t = taken_eq [OF Cons.prems(2,3) d(1,2)]
    have "send_loop os len (sent + of_int n) = (r, s)" using True Cons.prems(4) by (simp add: send_loop.simps [of "n # os"])
    from Cons.IH [OF d(3) t(2) Cons.prems(3) this] t(1) d(1) show ?thesis
      by (auto split: option.splits bool.splits)
  next
    case False
    then show ?thesis using Cons.prems by (auto simp: send_loop.simps [of "n # os"] split: if_splits)
  qed
qed

text \<open>\<open>FrameChannel::send\<close>, and a sequence of sends up to the first that does not succeed.\<close>

definition send_frame :: "int list \<Rightarrow> Frame \<Rightarrow> bool option \<times> bytes" where
  "send_frame os f = send_all os (encode f)"

fun send_frames :: "(int list \<times> Frame) list \<Rightarrow> bool option \<times> bytes" where
  "send_frames [] = (Some True, [])"
| "send_frames ((os, f) # xs) =
     (case send_frame os f of
        (Some True, b) \<Rightarrow> (case send_frames xs of (r, bs) \<Rightarrow> (r, b @ bs))
      | (r, b) \<Rightarrow> (r, b))"

abbreviation documented_send :: "int list \<Rightarrow> bytes \<Rightarrow> bool" where
  "documented_send os data \<equiv> documented os (of_nat (length data)) 0"

lemma send_all_ok:
  assumes "documented_send os data" "length data < 2 ^ 31" "send_all os data = (r, b)"
  shows "case r of Some True \<Rightarrow> b = data | Some False \<Rightarrow> strict_prefix b data
    | None \<Rightarrow> strict_prefix b data \<and> length os \<le> length b"
proof -
  have u: "unat (of_nat (length data) :: u64) = length data" using assms(2) by (simp add: unat_of_nat_u64)
  obtain s where s: "send_loop os (of_nat (length data)) 0 = (r, s)" "b = take (unat s) data"
    using assms(3) by (auto simp: send_all_def split: prod.splits)
  have "strict_prefix (take m data) data" if "m < length data" for m
    using that by (metis length_take min.absorb4 nat_less_le strict_prefix_def take_is_prefix)
  moreover have "s < of_nat (length data) \<longleftrightarrow> unat s < length data" using u by (simp add: word_less_nat_alt)
  ultimately show ?thesis
    using send_loop_ok [OF assms(1) _ _ s(1)] u assms(2) s(2) by (auto split: option.splits bool.splits)
qed

lemma encodable_short: "encodable f \<Longrightarrow> length (encode f) < 2 ^ 31"
  by (simp add: encodable_def)

lemma send_frames_wire:
  assumes "\<forall>x \<in> set xs. encodable (snd x) \<and> documented_send (fst x) (encode (snd x))" "send_frames xs = (r, wire)"
  shows "\<exists>k rest. k \<le> length xs \<and> wire = concat (map encode (map snd (take k xs))) @ rest \<and>
    (if k = length xs then r = Some True \<and> rest = []
     else r \<noteq> Some True \<and> strict_prefix rest (encode (snd (xs ! k))))"
  using assms
proof (induction xs arbitrary: r wire)
  case (Cons x xs)
  obtain os f where x: "x = (os, f)" by fastforce
  obtain r1 b where b: "send_frame os f = (r1, b)" by fastforce
  have ok: "case r1 of Some True \<Rightarrow> b = encode f | Some False \<Rightarrow> strict_prefix b (encode f)
    | None \<Rightarrow> strict_prefix b (encode f) \<and> length os \<le> length b"
    using Cons.prems(1) b send_all_ok [of os "encode f" r1 b] encodable_short [of f] by (simp add: x send_frame_def)
  show ?case
  proof (cases "r1 = Some True")
    case True
    obtain bs where bs: "send_frames xs = (r, bs)" "wire = b @ bs"
      using Cons.prems(2) True b by (auto simp: x split: prod.splits)
    obtain k rest where k: "k \<le> length xs" "bs = concat (map encode (map snd (take k xs))) @ rest"
      "if k = length xs then r = Some True \<and> rest = [] else r \<noteq> Some True \<and> strict_prefix rest (encode (snd (xs ! k)))"
      using Cons.IH [OF _ bs(1)] Cons.prems(1) by auto
    then show ?thesis
      using True ok bs(2) by (intro exI [of _ "Suc k"] exI [of _ rest]) (auto simp: x)
  next
    case False
    then have "r = r1" "wire = b" using Cons.prems(2) b by (auto simp: x split: option.splits bool.splits)
    then show ?thesis
      using False ok by (intro exI [of _ 0] exI [of _ b]) (auto simp: x split: option.splits bool.splits)
  qed
qed simp

lemma recv_frame_partial:
  assumes "encodable f" "strict_prefix (buffer d @ concat net) (encode f)" "[] \<notin> set net"
  shows "fst (recv_frame d net) = Inl ''connection closed''"
  using assms(2,3)
proof (induction net arbitrary: d)
  case Nil
  then show ?case using decode_prefix [OF assms(1)] by (simp add: recv_frame.simps next_frame_def)
next
  case (Cons blk net)
  then have "strict_prefix (buffer d) (encode f)"
    by (metis append_prefixD prefix_order.less_le strict_prefixI' append_assoc prefixI prefix_order.le_less_trans)
  then have "decode (buffer d) = NEED_MORE" by (rule decode_prefix [OF assms(1)])
  with Cons show ?case by (auto simp: recv_frame.simps [of d] next_frame_def feed_def)
qed

section \<open>Properties\<close>

text \<open>C15: what a peer reads of frames that were sent over a connection, however \<open>send\<close> splits the bytes, wherever
  it fails, and however the bytes are cut into blocks on the way: exactly the frames whose send succeeded, in
  order and unchanged, and then the end of the connection; a frame that was sent in part is never seen.\<close>

theorem sent_frames_arrive:
  assumes "\<forall>x \<in> set xs. encodable (snd x) \<and> documented_send (fst x) (encode (snd x))"
    and "send_frames xs = (r, wire)" "concat net = wire" "[] \<notin> set net"
  shows "\<exists>k d net'. k \<le> length xs \<and> (k = length xs) = (r = Some True) \<and>
    recv_frames k \<lparr>buffer = []\<rparr> net = (Inr (map snd (take k xs)), d, net') \<and>
    fst (recv_frame d net') = Inl ''connection closed''"
proof -
  obtain k rest where k: "k \<le> length xs" "wire = concat (map encode (map snd (take k xs))) @ rest"
    "if k = length xs then r = Some True \<and> rest = [] else r \<noteq> Some True \<and> strict_prefix rest (encode (snd (xs ! k)))"
    using send_frames_wire [OF assms(1,2)] by blast
  have "\<forall>f \<in> set (map snd (take k xs)). encodable f" using assms(1) by (auto dest: in_set_takeD)
  then obtain d net' where d: "recv_frames k \<lparr>buffer = []\<rparr> net = (Inr (map snd (take k xs)), d, net')"
    "buffer d @ concat net' = rest" "[] \<notin> set net'"
    using recv_frames_ok [of "map snd (take k xs)" "\<lparr>buffer = []\<rparr>" net rest] assms(3,4) k(1,2) by auto
  obtain f where "encodable f" "strict_prefix rest (encode f)"
  proof (cases "k = length xs")
    case True
    have "encodable sample_frame" "encode sample_frame \<noteq> []" 
      using length_encode [of sample_frame] by (auto simp: sample_frame_def encodable_def simp del: length_encode)
    then show ?thesis using that [of sample_frame] True k(3) by (simp add: strict_prefix_def)
  next
    case False
    then show ?thesis using that [of "snd (xs ! k)"] assms(1) k(1,3) by auto
  qed
  then have "fst (recv_frame d net') = Inl ''connection closed''" using d(2,3) by (intro recv_frame_partial) simp_all
  with d(1) k(1,3) show ?thesis by (metis (no_types, lifting))
qed

theorem sent_frames_arrive_witness:
  "\<exists>k d net'. k \<le> 2 \<and> (k = 2) = (Some False = Some True) \<and>
    recv_frames k \<lparr>buffer = []\<rparr> [encode sample_frame, take 5 (encode sample_frame)] =
      (Inr (map snd (take k [([18, 3], sample_frame), ([5, -1 :: int], sample_frame)])), d, net') \<and>
    fst (recv_frame d net') = Inl ''connection closed''"
proof -
  let ?xs = "[([18, 3 :: int], sample_frame), ([5, -1], sample_frame)]"
  have l: "length (encode sample_frame) = 21" by (simp add: sample_frame_def)
  have docs: "documented [18, 3] 21 0" "documented [5, -1] 21 0"
    "send_loop [18, 3] 21 0 = (Some True, 21)" "send_loop [5, -1] 21 0 = (Some False, 5)"
    by code_simp+
  have "send_frame [18, 3] sample_frame = (Some True, encode sample_frame)"
    "send_frame [5, -1] sample_frame = (Some False, take 5 (encode sample_frame))"
    using docs l by (simp_all add: send_frame_def send_all_def)
  then have s: "send_frames ?xs = (Some False, encode sample_frame @ take 5 (encode sample_frame))"
    by simp
  have "take 5 (encode sample_frame) \<noteq> []" "encode sample_frame \<noteq> []"
    using l by (auto simp del: length_encode dest: arg_cong [where f = length])
  then have e: "[] \<notin> set [encode sample_frame, take 5 (encode sample_frame)]" by simp
  have "\<forall>x \<in> set ?xs. encodable (snd x) \<and> documented_send (fst x) (encode (snd x))"
    using docs l by (simp add: encodable_def) (simp add: sample_frame_def)
  from sent_frames_arrive [OF this s _ e] show ?thesis by (simp add: numeral_2_eq_2)
qed

text \<open>C38: no socket is lost: when \<open>listen_port\<close> or \<open>connect\<close> fails it has closed what it opened, and what it opened
  on success is what \<open>close\<close> releases. A worker releases its socket too, but it calls \<open>closesocket\<close> twice on the
  same handle, because the connection and the frame channel made over it both own it.\<close>

theorem sockets_are_released:
  assumes "\<forall>h. sa_socket a = Some h \<longrightarrow> h \<notin> set (wk_open w)"
  shows "(case listen_port a l w of
      (Inl e, l', w') \<Rightarrow> tl_sock l' = None \<and> wk_open w' = wk_open w
    | (Inr u, l', w') \<Rightarrow> wk_open w' = the (tl_sock l') # wk_open w \<and> wk_open (snd (listener_close l' w')) = wk_open w) \<and>
    (case connect a w of
      (Some e, c, w') \<Rightarrow> \<not> connection_valid c \<and> wk_open w' = wk_open w
    | (None, c, w') \<Rightarrow> wk_open w' = the (tc_sock c) # wk_open w \<and> wk_open (snd (connection_close c w')) = wk_open w \<and>
        wk_closes (worker_sockets a w) = wk_closes w @ [the (tc_sock c), the (tc_sock c)]) \<and>
    wk_open (worker_sockets a w) = wk_open w"
proof -
  have f: "filter (\<lambda>x. x \<noteq> h) xs = xs" if "h \<notin> set xs" for h :: nat and xs
    using that by (induction xs) auto
  show ?thesis
    using assms
    by (cases "sa_socket a") (auto simp: listen_port_def connect_def open_socket_def closesocket_def Let_def listener_close_def
        connection_close_def connection_valid_def worker_sockets_def f)
qed

theorem sockets_are_released_witness:
  "wk_closes (worker_sockets \<lparr>sa_socket = Some 4, sa_bind = True, sa_listen = True, sa_host = True, sa_connect = True\<rparr>
     \<lparr>wk_open = [2], wk_closes = []\<rparr>) = [4, 4]"
  using sockets_are_released [of "\<lparr>sa_socket = Some 4, sa_bind = True, sa_listen = True, sa_host = True, sa_connect = True\<rparr>"
      "\<lparr>wk_open = [2], wk_closes = []\<rparr>" "\<lparr>tl_sock = None\<rparr>"]
  by (simp add: connect_def open_socket_def)

end
