(* ===== verification/CF_Wire.thy ===== *)
theory CF_Wire
  imports CF_Protocol CF_Canonical "HOL-Library.Monad_Syntax"
begin

text \<open>
  The payloads that coordinator and workers exchange (\<open>tools/mp.hpp\<close>). A decoder returns \<open>None\<close> where
  the code's returns false; none of them demands that the payload ends after its last field.
\<close>

section \<open>Channels\<close>

text \<open>
  A connection: the decoder, the blocks that will arrive, the frames sent (encoded, in order), and whether
  it is still open on this side. The result of \<open>send\<close> is ignored by every caller.
\<close>

record FrameChannel =
  fc_decoder :: FrameDecoder
  fc_incoming :: "bytes list"
  fc_sent :: "bytes list"
  fc_valid :: bool

definition new_channel :: "bytes list \<Rightarrow> FrameChannel" where
  "new_channel net = \<lparr>fc_decoder = \<lparr>buffer = []\<rparr>, fc_incoming = net, fc_sent = [], fc_valid = True\<rparr>"

definition channel_send :: "Frame \<Rightarrow> FrameChannel \<Rightarrow> FrameChannel" where
  "channel_send f ch = ch\<lparr>fc_sent := fc_sent ch @ [encode f]\<rparr>"

definition channel_recv :: "FrameChannel \<Rightarrow> (string + Frame) \<times> FrameChannel" where
  "channel_recv ch =
     (case recv_frame (fc_decoder ch) (fc_incoming ch) of
        (r, d, net) \<Rightarrow> (r, ch\<lparr>fc_decoder := d, fc_incoming := net\<rparr>))"

definition frame :: "ProtocolMessageKind \<Rightarrow> bytes \<Rightarrow> Frame" where
  "frame k p = \<lparr>fr_version = 1, fr_kind = k, fr_payload = p\<rparr>"

section \<open>Claims and descriptors\<close>

record AuthClaim =
  ac_epoch :: u64
  ac_boot :: u64
  ac_group_gen :: u64
  ac_collective_gen :: u64
  ac_attempt_gen :: u64
  ac_dispatch_gen :: u64

definition no_claim :: AuthClaim where
  "no_claim = \<lparr>ac_epoch = 0, ac_boot = 0, ac_group_gen = 0, ac_collective_gen = 0, ac_attempt_gen = 0, ac_dispatch_gen = 0\<rparr>"

record Desc =
  ds_kind :: u8
  ds_datatype :: u8
  ds_reduction :: u8
  ds_element_count :: u64
  ds_root :: u64
  ds_rank_count :: u64
  ds_group_id :: u64
  ds_group_gen :: u64
  ds_collective_gen :: u64
  ds_epoch :: u64
  ds_attempt_gen :: u64
  ds_dispatch_gen :: u64

section \<open>Encoders\<close>

definition enc_boot_name :: "u64 \<Rightarrow> string \<Rightarrow> bytes" where
  "enc_boot_name boot name = w_u64 boot @ w_string name"

definition enc_auth :: "AuthClaim \<Rightarrow> bytes" where
  "enc_auth a =
     w_u64 (ac_epoch a) @ w_u64 (ac_boot a) @ w_u64 (ac_group_gen a) @ w_u64 (ac_collective_gen a) @
     w_u64 (ac_attempt_gen a) @ w_u64 (ac_dispatch_gen a)"

definition enc_simple :: "u64 \<Rightarrow> u64 \<Rightarrow> bytes" where
  "enc_simple a b = w_u64 a @ w_u64 b"

definition enc_rank_accept :: "u64 \<Rightarrow> u64 \<Rightarrow> u64 \<Rightarrow> u64 \<Rightarrow> bytes" where
  "enc_rank_accept rank rank_count group_id group_gen =
     w_u64 rank @ w_u64 rank_count @ w_u64 group_id @ w_u64 group_gen"

definition enc_blob :: "AuthClaim \<Rightarrow> bytes \<Rightarrow> bytes" where
  "enc_blob a data =
     w_u64 (ac_epoch a) @ w_u64 (ac_boot a) @ w_u64 (ac_group_gen a) @ w_u64 (ac_collective_gen a) @
     w_u64 (ac_attempt_gen a) @ w_u64 (ac_dispatch_gen a) @ w_bytes data"

definition enc_desc :: "Desc \<Rightarrow> bytes" where
  "enc_desc d =
     w_u8 (ds_kind d) @ w_u8 (ds_datatype d) @ w_u8 (ds_reduction d) @ w_u64 (ds_element_count d) @
     w_u64 (ds_root d) @ w_u64 (ds_rank_count d) @ w_u64 (ds_group_id d) @ w_u64 (ds_group_gen d) @
     w_u64 (ds_collective_gen d) @ w_u64 (ds_epoch d) @ w_u64 (ds_attempt_gen d) @ w_u64 (ds_dispatch_gen d)"

section \<open>Decoders\<close>

definition read_auth :: "reader \<Rightarrow> (AuthClaim \<times> reader) option" where
  "read_auth r = do {
     (epoch, r) \<leftarrow> r_u64 r; (boot, r) \<leftarrow> r_u64 r; (group_gen, r) \<leftarrow> r_u64 r;
     (collective_gen, r) \<leftarrow> r_u64 r; (attempt_gen, r) \<leftarrow> r_u64 r; (dispatch_gen, r) \<leftarrow> r_u64 r;
     Some (\<lparr>ac_epoch = epoch, ac_boot = boot, ac_group_gen = group_gen, ac_collective_gen = collective_gen,
            ac_attempt_gen = attempt_gen, ac_dispatch_gen = dispatch_gen\<rparr>, r) }"

definition dec_auth :: "bytes \<Rightarrow> AuthClaim option" where
  "dec_auth p = map_option fst (read_auth (new_reader p))"

text \<open>The claim and the blob after it, as coordinator and worker read it.\<close>

definition dec_blob :: "bytes \<Rightarrow> (AuthClaim \<times> bytes) option" where
  "dec_blob p = do {
     (a, r) \<leftarrow> read_auth (new_reader p);
     (data, r) \<leftarrow> r_bytes r;
     Some (a, data) }"

definition dec_boot_name :: "bytes \<Rightarrow> (u64 \<times> string) option" where
  "dec_boot_name p = do {
     (boot, r) \<leftarrow> r_u64 (new_reader p);
     (name, r) \<leftarrow> r_string r;
     Some (boot, name) }"

definition dec_rank_accept :: "bytes \<Rightarrow> (u64 \<times> u64 \<times> u64 \<times> u64) option" where
  "dec_rank_accept p = do {
     (rank, r) \<leftarrow> r_u64 (new_reader p); (rank_count, r) \<leftarrow> r_u64 r;
     (group_id, r) \<leftarrow> r_u64 r; (group_gen, r) \<leftarrow> r_u64 r;
     Some (rank, rank_count, group_id, group_gen) }"

definition dec_desc :: "bytes \<Rightarrow> Desc option" where
  "dec_desc p = do {
     (kind, r) \<leftarrow> r_u8 (new_reader p); (datatype, r) \<leftarrow> r_u8 r; (reduction, r) \<leftarrow> r_u8 r;
     (element_count, r) \<leftarrow> r_u64 r; (root, r) \<leftarrow> r_u64 r; (rank_count, r) \<leftarrow> r_u64 r;
     (group_id, r) \<leftarrow> r_u64 r; (group_gen, r) \<leftarrow> r_u64 r; (collective_gen, r) \<leftarrow> r_u64 r;
     (epoch, r) \<leftarrow> r_u64 r; (attempt_gen, r) \<leftarrow> r_u64 r; (dispatch_gen, r) \<leftarrow> r_u64 r;
     Some \<lparr>ds_kind = kind, ds_datatype = datatype, ds_reduction = reduction, ds_element_count = element_count,
           ds_root = root, ds_rank_count = rank_count, ds_group_id = group_id, ds_group_gen = group_gen,
           ds_collective_gen = collective_gen, ds_epoch = epoch, ds_attempt_gen = attempt_gen,
           ds_dispatch_gen = dispatch_gen\<rparr> }"

section \<open>Round trips\<close>

lemma read_auth_enc [codec_simps]:
  "read_auth (reader_at p (enc_auth a @ ys)) = Some (a, reader_at (p @ enc_auth a) ys)"
  by (simp add: read_auth_def enc_auth_def codec_simps)

lemma enc_blob_auth: "enc_blob a data = enc_auth a @ w_bytes data"
  by (simp add: enc_blob_def enc_auth_def)

lemma dec_auth_enc [simp]: "dec_auth (enc_auth a @ ys) = Some a"
  by (simp add: dec_auth_def new_reader_at codec_simps)

lemma dec_auth_blob [simp]: "dec_auth (enc_blob a data) = Some a"
  by (simp add: enc_blob_auth)

lemma dec_blob_enc [simp]:
  assumes "length data < 2 ^ 64"
  shows "dec_blob (enc_blob a data) = Some (a, data)"
  using r_bytes_enc [OF assms, of "enc_auth a" "[]"]
  by (simp add: dec_blob_def enc_blob_auth new_reader_at codec_simps)

lemma dec_boot_name_enc [simp]:
  assumes "length name < 2 ^ 64"
  shows "dec_boot_name (enc_boot_name boot name) = Some (boot, name)"
  using r_string_enc [OF assms, of "w_u64 boot" "[]"]
  by (simp add: dec_boot_name_def enc_boot_name_def new_reader_at codec_simps)

lemma r_u64_enc_nil [codec_simps]: "r_u64 (reader_at p (w_u64 v)) = Some (v, reader_at (p @ w_u64 v) [])"
  using r_u64_enc [of p v "[]"] by simp

lemma dec_rank_accept_enc [simp]: "dec_rank_accept (enc_rank_accept a b c d) = Some (a, b, c, d)"
  by (simp add: dec_rank_accept_def enc_rank_accept_def new_reader_at codec_simps)

lemma dec_desc_enc [simp]: "dec_desc (enc_desc d) = Some d"
  by (simp add: dec_desc_def enc_desc_def new_reader_at codec_simps)

section \<open>What a connection delivers\<close>

definition delivers :: "FrameChannel \<Rightarrow> Frame list \<Rightarrow> bool" where
  "delivers ch fs \<longleftrightarrow> (\<exists>d net. recv_frames (length fs) (fc_decoder ch) (fc_incoming ch) = (Inr fs, d, net))"

lemma channel_recv_send [simp]:
  "channel_recv (channel_send f ch) = (fst (channel_recv ch), channel_send f (snd (channel_recv ch)))"
  by (simp add: channel_recv_def channel_send_def split: prod.split)

lemma delivers_send [simp]: "delivers (channel_send f ch) fs = delivers ch fs"
  by (simp add: delivers_def channel_send_def)

lemma delivers_Nil [simp]: "delivers ch []"
  by (simp add: delivers_def)

lemma sent_send [simp]: "fc_sent (channel_send f ch) = fc_sent ch @ [encode f]" "fc_valid (channel_send f ch) = fc_valid ch"
  by (simp_all add: channel_send_def)

lemma encode_not_Nil [simp]: "encode f \<noteq> []" "[] \<noteq> encode f"
  using length_encode [of f] by (metis add_is_0 list.size(3) zero_neq_numeral)+

lemma recv_keeps [simp]: "fc_sent (snd (channel_recv ch)) = fc_sent ch" "fc_valid (snd (channel_recv ch)) = fc_valid ch"
  by (simp_all add: channel_recv_def split: prod.split)

lemma delivers_Cons:
  "delivers ch (f # fs) \<longleftrightarrow> fst (channel_recv ch) = Inr f \<and> delivers (snd (channel_recv ch)) fs"
  by (auto simp: delivers_def channel_recv_def split: prod.splits sum.splits)

lemma delivers_new:
  assumes "concat net = concat (map encode fs) @ rest" "[] \<notin> set net" "\<forall>f \<in> set fs. encodable f"
  shows "delivers (new_channel net) fs"
  using recv_frames_ok [of fs "\<lparr>buffer = []\<rparr>" net rest] assms by (auto simp: delivers_def new_channel_def)

lemma frame_simps [simp]: "fr_kind (frame k p) = k" "fr_payload (frame k p) = p" "fr_version (frame k p) = 1"
  by (simp_all add: frame_def)

lemma length_enc [simp]:
  "length (enc_auth a) = 48" "length (enc_simple u v) = 16" "length (enc_rank_accept u v x y) = 32"
  "length (enc_desc d) = 75" "length (enc_blob a data) = 56 + length data"
  "length (enc_boot_name u name) = 16 + length name"
  by (simp_all add: enc_auth_def enc_simple_def enc_rank_accept_def enc_desc_def enc_blob_def enc_boot_name_def)

section \<open>Payloads cut short\<close>

text \<open>Reading a field of a payload that stops before its end: either the field itself is cut, or it is
  read and what follows is cut.\<close>

lemma cut_field:
  assumes "strict_prefix ys (w @ b)"
    and "\<And>zs. strict_prefix zs w \<Longrightarrow> rf (reader_at p zs) = None"
    and "\<And>zs. rf (reader_at p (w @ zs)) = Some (v, reader_at (p @ w) zs)"
    and "\<And>zs q. strict_prefix zs b \<Longrightarrow> f v (reader_at q zs) = None"
  shows "Option.bind (rf (reader_at p ys)) (\<lambda>(x, r). f x r) = None"
  using assms(1) by (rule strict_prefix_append_cases) (simp_all add: assms(2-4))

lemma cut_u8:
  "strict_prefix ys (w_u8 v @ b) \<Longrightarrow> (\<And>zs q. strict_prefix zs b \<Longrightarrow> f v (reader_at q zs) = None) \<Longrightarrow>
   Option.bind (r_u8 (reader_at p ys)) (\<lambda>(x, r). f x r) = None"
  by (erule cut_field) (simp_all add: r_u8_short r_u8_enc)

lemma cut_u64:
  "strict_prefix ys (w_u64 v @ b) \<Longrightarrow> (\<And>zs q. strict_prefix zs b \<Longrightarrow> f v (reader_at q zs) = None) \<Longrightarrow>
   Option.bind (r_u64 (reader_at p ys)) (\<lambda>(x, r). f x r) = None"
  by (erule cut_field) (simp_all add: r_u64_short r_u64_enc)

lemma cut_last_u64: "strict_prefix ys (w_u64 v) \<Longrightarrow> Option.bind (r_u64 (reader_at p ys)) f = None"
  by (simp add: r_u64_short)

lemma dec_desc_cut: "strict_prefix p (enc_desc d) \<Longrightarrow> dec_desc p = None"
  unfolding dec_desc_def enc_desc_def new_reader_at
  by (erule cut_u8 cut_u64 cut_last_u64)+

lemma read_auth_cut: "strict_prefix ys (enc_auth a) \<Longrightarrow> read_auth (reader_at p ys) = None"
  unfolding read_auth_def enc_auth_def
  by (erule cut_u64 cut_last_u64)+

lemma dec_blob_cut: "strict_prefix p (enc_blob a data) \<Longrightarrow> length data < 2 ^ 64 \<Longrightarrow> dec_blob p = None"
  unfolding dec_blob_def enc_blob_auth new_reader_at
  by (erule cut_field) (simp_all add: read_auth_cut read_auth_enc r_bytes_short)

section \<open>Properties\<close>

text \<open>C37: every payload coordinator and workers exchange is read back as it was written, claims and blobs
  included, and a request or a contribution cut short anywhere is refused.\<close>

theorem wire_payloads_round_trip:
  assumes "length data < 2 ^ 64" "length name < 2 ^ 64"
  shows "dec_desc (enc_desc d) = Some d \<and> dec_auth (enc_auth a) = Some a \<and>
    dec_blob (enc_blob a data) = Some (a, data) \<and> dec_auth (enc_blob a data) = Some a \<and>
    dec_boot_name (enc_boot_name boot name) = Some (boot, name) \<and>
    dec_rank_accept (enc_rank_accept rank n gid gen) = Some (rank, n, gid, gen) \<and>
    (strict_prefix p (enc_desc d) \<longrightarrow> dec_desc p = None) \<and>
    (strict_prefix q (enc_blob a data) \<longrightarrow> dec_blob q = None)"
  using assms dec_auth_enc [of a "[]"] by (simp add: dec_desc_cut dec_blob_cut del: dec_auth_enc)

theorem wire_payloads_round_trip_witness:
  "dec_blob (enc_blob no_claim [1, 2, 3]) = Some (no_claim, [1, 2, 3]) \<and>
   dec_boot_name (enc_boot_name 7 ''A'') = Some (7, ''A'') \<and>
   dec_blob (butlast (enc_blob no_claim [1, 2, 3])) = None"
proof -
  have "strict_prefix (butlast (enc_blob no_claim [1, 2, 3])) (enc_blob no_claim [1, 2, 3])"
    by (rule strict_prefixI) (auto simp: prefixeq_butlast enc_blob_def w_bytes_def dest: arg_cong [where f = length])
  then show ?thesis
    using wire_payloads_round_trip [of "[1, 2, 3]" "''A''" undefined no_claim 7 0 0 0 0 "[]"
      "butlast (enc_blob no_claim [1, 2, 3])"] by simp
qed

end
