(* ===== verification/CF_Process.thy ===== *)
theory CF_Process
  imports CF_Foundation
begin

text \<open>
  Programs of \<open>tools/\<close>: a step works on the state of the process, of type \<open>'s\<close>, and goes on with a
  value, returns from the program with a code, or throws. A \<open>Foreign\<close> exception is one of the standard
  library, with a text that names it. What a step has written before it stops stays written.
\<close>

datatype stop = Exit nat | Throws fault | Foreign string

type_synonym ('s, 'a) prog = "'s \<Rightarrow> (stop + 'a) \<times> 's"

definition give :: "'a \<Rightarrow> ('s, 'a) prog" where
  "give x c = (Inr x, c)"

definition halt :: "stop \<Rightarrow> ('s, 'a) prog" where
  "halt s c = (Inl s, c)"

definition seq :: "('s, 'a) prog \<Rightarrow> ('a \<Rightarrow> ('s, 'b) prog) \<Rightarrow> ('s, 'b) prog" where
  "seq m k c = (case m c of (Inl s, c') \<Rightarrow> (Inl s, c') | (Inr x, c') \<Rightarrow> k x c')"

definition look :: "('s \<Rightarrow> 'a) \<Rightarrow> ('s, 'a) prog" where
  "look f c = (Inr (f c), c)"

definition change :: "('s \<Rightarrow> 's) \<Rightarrow> ('s, unit) prog" where
  "change f c = (Inr (), f c)"

definition try_sum :: "fault + 'a \<Rightarrow> ('s, 'a) prog" where
  "try_sum v = (case v of Inl f \<Rightarrow> halt (Throws f) | Inr x \<Rightarrow> give x)"

fun for_each :: "('a \<Rightarrow> ('s, unit) prog) \<Rightarrow> 'a list \<Rightarrow> ('s, unit) prog" where
  "for_each f [] = give ()"
| "for_each f (x # xs) = seq (f x) (\<lambda>_. for_each f xs)"

named_theorems act_simps "one step of the process"

lemmas [act_simps] = give_def halt_def seq_def look_def change_def try_sum_def

end
