(* ===== verification/CF_Coordinator.thy ===== *)
theory CF_Coordinator
  imports CF_Process CF_Wire CF_Runtime CF_Store
begin

text \<open>
  The coordinator process (\<open>tools/coordinator.cpp\<close>): it accepts two workers, forms a group, drives a
  barrier and all-reduces over it, saves its state, survives the loss of a worker, replays stale claims
  against the authority evaluator, and recovers from the saved state in a new process. What the
  operating system does is the input: the blocks that arrive on each connection and the connections that
  are accepted (the end of a list is a closed connection, or a failed accept), the clock, and the outcome
  of each save. A frame given to \<open>send\<close> is recorded; the code ignores the result of every \<open>send\<close>.
\<close>

section \<open>The state of the process\<close>

record WorkerState =
  ws_channel :: FrameChannel
  ws_boot :: u64
  ws_name :: string
  ws_rank :: u64
  ws_group_gen :: u64
  ws_joined :: bool

record Coordinator =
  co_runtime :: Runtime
  co_workers :: "WorkerState list"
  co_pending :: "FrameChannel option list"
  co_files :: filesystem
  co_log :: "string list"
  co_readings :: nat
  co_saves :: nat

record surroundings =
  sr_clock :: "nat \<Rightarrow> u64"
  sr_disk :: "nat \<Rightarrow> save_io"
  sr_floats :: float_ops
  sr_float_string :: "bytes \<Rightarrow> string"
  sr_listen_error :: "string option"

definition new_process :: "FrameChannel option list \<Rightarrow> filesystem \<Rightarrow> Coordinator" where
  "new_process pending files =
     \<lparr>co_runtime = new_runtime, co_workers = [], co_pending = pending, co_files = files, co_log = [],
      co_readings = 0, co_saves = 0\<rparr>"

type_synonym 'a act = "(Coordinator, 'a) prog"

definition on_runtime :: "'a op \<Rightarrow> 'a act" where
  "on_runtime m c =
     (case m (co_runtime c) of
        (Inl f, rt) \<Rightarrow> (Inl (Throws f), c\<lparr>co_runtime := rt\<rparr>)
      | (Inr x, rt) \<Rightarrow> (Inr x, c\<lparr>co_runtime := rt\<rparr>))"

definition logline :: "string \<Rightarrow> unit act" where
  "logline s = change (\<lambda>c. c\<lparr>co_log := co_log c @ [s]\<rparr>)"

definition give_up :: "string \<Rightarrow> 'a act" where
  "give_up s = seq (logline s) (\<lambda>_. halt (Exit 1))"

definition wall_ns :: "surroundings \<Rightarrow> u64 act" where
  "wall_ns w c = (Inr (sr_clock w (co_readings c)), c\<lparr>co_readings := co_readings c + 1\<rparr>)"

definition new_source :: "surroundings \<Rightarrow> string \<Rightarrow> ProvenanceKind \<Rightarrow> Source act" where
  "new_source w s prov =
     seq (wall_ns w) (\<lambda>now.
     seq (look (\<lambda>c. make_source (rt_source_counter (co_runtime c)) now s prov)) (\<lambda>(src, n).
     seq (change (\<lambda>c. c\<lparr>co_runtime := (co_runtime c)\<lparr>rt_source_counter := n\<rparr>\<rparr>)) (\<lambda>_.
     give src)))"

definition on_worker :: "nat \<Rightarrow> (WorkerState \<Rightarrow> WorkerState) \<Rightarrow> unit act" where
  "on_worker i f = change (\<lambda>c. c\<lparr>co_workers := (co_workers c)[i := f (co_workers c ! i)]\<rparr>)"

definition send_to :: "nat \<Rightarrow> Frame \<Rightarrow> unit act" where
  "send_to i f = on_worker i (\<lambda>w. w\<lparr>ws_channel := channel_send f (ws_channel w)\<rparr>)"

definition recv_from :: "nat \<Rightarrow> (string + Frame) act" where
  "recv_from i =
     seq (look (\<lambda>c. channel_recv (ws_channel (co_workers c ! i)))) (\<lambda>(r, ch).
     seq (on_worker i (\<lambda>w. w\<lparr>ws_channel := ch\<rparr>)) (\<lambda>_.
     give r))"

definition worker_indices :: "nat list act" where
  "worker_indices = look (\<lambda>c. [0..<length (co_workers c)])"

definition boot_of :: "nat \<Rightarrow> u64 act" where
  "boot_of i = look (\<lambda>c. ws_boot (co_workers c ! i))"


section \<open>Groups\<close>

definition group_builder :: "u64 \<Rightarrow> u64 \<Rightarrow> TopologyGeneration \<Rightarrow> Source \<Rightarrow> GroupBuilder" where
  "group_builder group_id group_gen topo src =
     (new_group_builder (StrongId group_id) (Generation group_gen))
       \<lparr>gb_membership := Generation group_gen, gb_topology := topo, gb_backend := Generation 1,
        gb_lifecycle := READY, gb_provenance := src\<rparr>"

definition add_member :: "u64 \<Rightarrow> u64 \<Rightarrow> u64 \<Rightarrow> GroupBuilder \<Rightarrow> GroupBuilder" where
  "add_member member_id boot rank =
     add_participant (StrongId member_id) (StrongId boot) (StrongId boot) (StrongId 1)
       (StrongId (1 + rank)) (Generation 1) (StrongId rank)"

text \<open>The first two workers of the list, in the order of their boot ids.\<close>

definition form_group :: "surroundings \<Rightarrow> u64 \<Rightarrow> u64 \<Rightarrow> TopologyGeneration \<Rightarrow> unit act" where
  "form_group w group_id group_gen topo =
     seq (look co_workers) (\<lambda>ws.
     if length ws < 2 then halt (Throws Undefined)
     else
       let (a, b) = (if ws_boot (ws ! 1) < ws_boot (ws ! 0) then (1, 0) else (0, 1)) in
       seq (new_source w ''multiprocess group'' ProvenanceKind.DERIVED) (\<lambda>src.
       seq (on_worker a (\<lambda>s. s\<lparr>ws_rank := 0\<rparr>)) (\<lambda>_.
       seq (on_worker b (\<lambda>s. s\<lparr>ws_rank := 1\<rparr>)) (\<lambda>_.
       seq (try_sum (fst (build
              (add_member (ws_boot (ws ! b)) (ws_boot (ws ! b)) 1
              (add_member (ws_boot (ws ! a)) (ws_boot (ws ! a)) 0
              (group_builder group_id group_gen topo src)))))) (\<lambda>g.
       seq (on_runtime (register_group g)) (\<lambda>_.
       give ()))))))"

definition rank_of_boot :: "CollectiveGroup \<Rightarrow> u64 \<Rightarrow> RankId" where
  "rank_of_boot g boot =
     (case find (\<lambda>p. raw (pt_boot p) = boot) (cg_participants g) of None \<Rightarrow> null_id | Some p \<Rightarrow> pt_rank p)"

text \<open>GROUP_ACCEPT to every connected worker; a worker that is not in the group is told the null rank.\<close>

definition announce_to :: "string \<Rightarrow> u64 \<Rightarrow> u64 \<Rightarrow> nat \<Rightarrow> unit act" where
  "announce_to tag group_id group_gen i =
     seq (look (\<lambda>c. find_group (StrongId group_id) (Generation group_gen) (co_runtime c))) (\<lambda>grp.
     case grp of
       None \<Rightarrow> halt (Throws Undefined)
     | Some g \<Rightarrow>
         seq (boot_of i) (\<lambda>boot.
         let rank = raw (rank_of_boot g boot) in
         seq (send_to i (frame GROUP_ACCEPT (enc_rank_accept rank (group_size g) group_id group_gen))) (\<lambda>_.
         logline (tag @ ''GROUP_ACCEPT boot='' @ to_string boot @ '' rank='' @ to_string rank))))"

definition announce :: "string \<Rightarrow> u64 \<Rightarrow> u64 \<Rightarrow> unit act" where
  "announce tag group_id group_gen = seq worker_indices (for_each (announce_to tag group_id group_gen))"

section \<open>Accepting workers\<close>

definition accept_client :: "FrameChannel option act" where
  "accept_client c =
     (case co_pending c of
        [] \<Rightarrow> (Inr None, c)
      | s # rest \<Rightarrow> (Inr s, c\<lparr>co_pending := rest\<rparr>))"

definition add_worker :: "FrameChannel \<Rightarrow> u64 \<Rightarrow> string \<Rightarrow> unit act" where
  "add_worker ch boot name = change (\<lambda>c. c\<lparr>co_workers := co_workers c @
     [\<lparr>ws_channel = ch, ws_boot = boot, ws_name = name, ws_rank = 0, ws_group_gen = 0, ws_joined = True\<rparr>]\<rparr>)"

definition accept_worker :: "unit act" where
  "accept_worker =
     seq accept_client (\<lambda>s.
     case s of
       None \<Rightarrow> give_up ''COORD accept failed''
     | Some ch0 \<Rightarrow>
         (case channel_recv ch0 of
            (Inl why, ch1) \<Rightarrow> give_up (''COORD HELLO read failed '' @ why)
          | (Inr f, ch1) \<Rightarrow>
              if fr_kind f \<noteq> HELLO then give_up ''COORD expected HELLO''
              else (case dec_boot_name (fr_payload f) of
                None \<Rightarrow> give_up ''COORD HELLO decode failed''
              | Some (boot, name) \<Rightarrow>
                  (case channel_recv ch1 of
                     (Inl why, ch2) \<Rightarrow> give_up (''COORD JOIN read failed '' @ why)
                   | (Inr j, ch2) \<Rightarrow>
                       if fr_kind j \<noteq> JOIN_GROUP then give_up ''COORD expected JOIN_GROUP''
                       else
                         seq (add_worker ch2 boot name) (\<lambda>_.
                         logline (''COORD accepted worker name='' @ name @ '' boot='' @ to_string boot))))))"

text \<open>The replacement worker: the results of \<open>recv\<close> and of the decoder are not looked at. A HELLO
  without a boot id leaves the variable uninitialised; a frame that did not come leaves the last one.\<close>

definition default_frame :: Frame where
  "default_frame = frame ERROR_MSG []"

definition accept_replacement :: "unit act" where
  "accept_replacement =
     seq accept_client (\<lambda>s.
     case s of
       None \<Rightarrow> give_up (''COORD accept A'' @ [CHR 0x27] @ '' failed'')
     | Some ch0 \<Rightarrow>
         (let (r, ch1) = channel_recv ch0;
              f = (case r of Inl why \<Rightarrow> default_frame | Inr f \<Rightarrow> f)
          in if fr_kind f \<noteq> HELLO then give_up (''COORD expected HELLO from A'' @ [CHR 0x27])
             else case r_u64 (new_reader (fr_payload f)) of
               None \<Rightarrow> halt (Throws Undefined)
             | Some (boot, rest) \<Rightarrow>
                 let name = (case r_string rest of None \<Rightarrow> [] | Some (name, _) \<Rightarrow> name) in
                 seq (add_worker (snd (channel_recv ch1)) boot name) (\<lambda>_.
                 logline (''COORD new worker boot='' @ to_string boot))))"

section \<open>Barrier\<close>

definition barrier_from :: "nat \<Rightarrow> unit act" where
  "barrier_from i =
     seq (recv_from i) (\<lambda>r.
     case r of
       Inl why \<Rightarrow> give_up (''COORD barrier read failed '' @ why)
     | Inr f \<Rightarrow>
         if fr_kind f \<noteq> ProtocolMessageKind.BARRIER then give_up ''COORD expected BARRIER''
         else (case dec_auth (fr_payload f) of
           None \<Rightarrow> give_up ''COORD barrier auth decode failed''
         | Some a \<Rightarrow>
             if ac_group_gen a \<noteq> 1 \<or> ac_epoch a \<noteq> 1 then give_up ''COORD barrier stale auth rejected''
             else give ()))"

definition run_barrier :: "unit act" where
  "run_barrier =
     seq worker_indices (\<lambda>is.
     seq (for_each barrier_from is) (\<lambda>_.
     seq (for_each (\<lambda>i. send_to i (frame COMPLETE (enc_simple 1 1))) is) (\<lambda>_.
     logline ''PHASE_BARRIER_DONE'')))"


section \<open>All-reduce over the connections\<close>

definition request :: "u64 \<Rightarrow> bool \<Rightarrow> Desc" where
  "request gen expect_loss =
     \<lparr>ds_kind = collective_kind_to_u8 ALL_REDUCE, ds_datatype = datatype_to_u8 FLOAT32,
      ds_reduction = reduction_op_to_u8 ReductionOp.SUM, ds_element_count = 4, ds_root = 0, ds_rank_count = 2,
      ds_group_id = 1, ds_group_gen = gen, ds_collective_gen = 1, ds_epoch = (if expect_loss then 1 else 2),
      ds_attempt_gen = 1, ds_dispatch_gen = 1\<rparr>"

datatype collected = Collected "bytes list" | Lost | Refused

fun collect_inputs :: "string \<Rightarrow> nat list \<Rightarrow> bytes list \<Rightarrow> collected act" where
  "collect_inputs label [] inputs = give (Collected inputs)"
| "collect_inputs label (i # is) inputs =
     seq (recv_from i) (\<lambda>r.
     case r of
       Inl why \<Rightarrow>
         seq (boot_of i) (\<lambda>boot.
         seq (logline (label @ '' LOSS_DETECTED boot='' @ to_string boot @ '' reason='' @ why)) (\<lambda>_.
         give Lost))
     | Inr f \<Rightarrow>
         if fr_kind f \<noteq> CONTRIBUTION then seq (logline (label @ '' expected CONTRIBUTION'')) (\<lambda>_. give Refused)
         else if dec_auth (fr_payload f) = None
         then seq (logline (label @ '' contribution auth decode failed'')) (\<lambda>_. give Refused)
         else (case dec_blob (fr_payload f) of
           None \<Rightarrow> seq (logline (label @ '' contribution blob decode failed'')) (\<lambda>_. give Refused)
         | Some (_, data) \<Rightarrow>
             seq (logline (label @ '' rank='' @ to_string (of_nat i) @ '' contribution bytes='' @
                           to_string (of_nat (length data)))) (\<lambda>_.
             collect_inputs label is (inputs @ [data]))))"

definition result_claim :: "u64 \<Rightarrow> u64 \<Rightarrow> AuthClaim" where
  "result_claim boot gen =
     \<lparr>ac_epoch = 2, ac_boot = boot, ac_group_gen = gen, ac_collective_gen = 1, ac_attempt_gen = 1, ac_dispatch_gen = 1\<rparr>"

definition send_result :: "u64 \<Rightarrow> bytes \<Rightarrow> nat \<Rightarrow> unit act" where
  "send_result gen data i =
     seq (boot_of i) (\<lambda>boot. send_to i (frame RESULT (enc_blob (result_claim boot gen) data)))"

fun await_complete :: "string \<Rightarrow> nat list \<Rightarrow> bool act" where
  "await_complete label [] = give True"
| "await_complete label (i # is) =
     seq (recv_from i) (\<lambda>r.
     case r of
       Inl why \<Rightarrow>
         seq (boot_of i) (\<lambda>boot.
         seq (logline (label @ '' COMPLETE lost boot='' @ to_string boot @ '' reason='' @ why)) (\<lambda>_.
         give False))
     | Inr f \<Rightarrow> await_complete label is)"

definition exchange_measurement :: "u64 \<Rightarrow> TopologyGeneration \<Rightarrow> u64 \<Rightarrow> Source \<Rightarrow> CollectiveMeasurement" where
  "exchange_measurement gen topo now src = new_measurement
     \<lparr>cm_id := StrongId (1000 + gen), cm_collective := StrongId 1, cm_collective_generation := Generation gen,
      cm_group_generation := Generation gen, cm_algorithm := RING, cm_backend := StrongId 1,
      cm_rank_count := 2, cm_payload_bytes := 4 * 4, cm_wall_time_us := 1, cm_success := True,
      cm_topology_generation := topo, cm_provenance := MeasurementProvenance.MEASURED,
      cm_freshness := MeasurementFreshness.CURRENT, cm_timestamp_utc_ns := now,
      cm_measurement_generation := Generation gen, cm_source := src\<rparr>"

definition run_allreduce :: "surroundings \<Rightarrow> TopologyGeneration \<Rightarrow> u64 \<Rightarrow> string \<Rightarrow> bool \<Rightarrow> bool act" where
  "run_allreduce w topo gen label expect_loss =
     seq worker_indices (\<lambda>is.
     seq (for_each (\<lambda>i. send_to i (frame REQUEST_COLLECTIVE (enc_desc (request gen expect_loss)))) is) (\<lambda>_.
     if length is < 2 then halt (Throws Undefined)
     else seq (collect_inputs label [0, 1] []) (\<lambda>collected.
     case collected of
       Lost \<Rightarrow> give True
     | Refused \<Rightarrow> give False
     | Collected inputs \<Rightarrow>
         seq (try_sum (execute (sr_floats w) ALL_REDUCE ReductionOp.SUM FLOAT32 4 0 2 inputs)) (\<lambda>outputs.
         seq (for_each (send_result gen (outputs ! 0)) is) (\<lambda>_.
         seq (await_complete label is) (\<lambda>all_done.
         if \<not> all_done then give False
         else
           seq (logline (label @ '' DONE sum='' @ sr_float_string w (take 4 (outputs ! 0)))) (\<lambda>_.
           seq (wall_ns w) (\<lambda>now.
           seq (new_source w ''host-staged tcp'' ProvenanceKind.MEASURED) (\<lambda>src.
           seq (on_runtime (ingest_measurement (exchange_measurement gen topo now src))) (\<lambda>_.
           give False))))))))))"

section \<open>Saving\<close>

definition export_participant :: "Participant \<Rightarrow> PersistedParticipant" where
  "export_participant p =
     \<lparr>pp_participant_id = pt_id p, pp_worker = pt_worker p, pp_boot = pt_boot p, pp_node = pt_node p,
      pp_device = pt_device p, pp_rank = pt_rank p, pp_backend_generation = pt_backend_generation p,
      pp_is_known = pt_is_known p\<rparr>"

definition export_group :: "CollectiveGroup \<Rightarrow> PersistedGroup" where
  "export_group g =
     \<lparr>pg_group_id = cg_id g, pg_generation = cg_generation g, pg_membership = cg_membership g,
      pg_topology = cg_topology g, pg_health = cg_health g, pg_backend = cg_backend g,
      pg_lifecycle = cg_lifecycle g, pg_provenance = [],
      pg_participants = map export_participant (cg_participants g)\<rparr>"

definition export_measurement :: "CollectiveMeasurement \<Rightarrow> PersistedMeasurement" where
  "export_measurement m =
     \<lparr>pm_id = cm_id m, pm_collective = cm_collective m, pm_collective_generation = cm_collective_generation m,
      pm_group_generation = cm_group_generation m, pm_algorithm = cm_algorithm m, pm_backend = cm_backend m,
      pm_rank_count = cm_rank_count m, pm_payload_bytes = cm_payload_bytes m, pm_wall_time_us = cm_wall_time_us m,
      pm_provenance = cm_provenance m, pm_freshness = cm_freshness m, pm_timestamp_ns = cm_timestamp_utc_ns m,
      pm_measurement_generation = cm_measurement_generation m, pm_success = cm_success m\<rparr>"

text \<open>Only generation 1 of group 1 is exported, whatever has been registered since.\<close>

definition build_state :: "u64 \<Rightarrow> Runtime \<Rightarrow> PersistentState" where
  "build_state now rt =
     \<lparr>ps_format_version = 1, ps_epoch = gt_epoch (rt_authority rt), ps_live_boot = live_boot (rt_authority rt),
      ps_groups = (case find_group (StrongId 1) (Generation 1) rt of None \<Rightarrow> [] | Some g \<Rightarrow> [export_group g]),
      ps_measurements = map export_measurement (List.map_filter (\<lambda>i. measurement i rt) (measurement_ids rt)),
      ps_health = None, ps_backends = [], ps_policy_count = 0, ps_saved_ns = now\<rparr>"

definition save_state :: "surroundings \<Rightarrow> string \<Rightarrow> unit act" where
  "save_state w path =
     seq (wall_ns w) (\<lambda>now.
     seq (look (\<lambda>c. store_save (sr_disk w (co_saves c)) path (build_state now (co_runtime c)) (co_files c))) (\<lambda>(r, fs).
     seq (change (\<lambda>c. c\<lparr>co_files := fs, co_saves := co_saves c + 1\<rparr>)) (\<lambda>_.
     seq (try_sum r) (\<lambda>_.
     give ()))))"


section \<open>Loss of a worker\<close>

text \<open>A connection counts as dead when it has been closed on this side.\<close>

definition drop_dead_workers :: "unit act" where
  "drop_dead_workers =
     seq (look co_workers) (\<lambda>ws.
     seq (for_each (\<lambda>s. logline (''COORD dropping dead worker boot='' @ to_string (ws_boot s)))
            (filter (\<lambda>s. \<not> fc_valid (ws_channel s)) ws)) (\<lambda>_.
     change (\<lambda>c. c\<lparr>co_workers := filter (\<lambda>s. fc_valid (ws_channel s)) ws\<rparr>)))"

section \<open>Replay of stale claims\<close>

definition replay_truth :: "u64 \<Rightarrow> AuthorityGroundTruth" where
  "replay_truth live =
     \<lparr>gt_epoch = Generation 2, live_boot = StrongId live, gt_group_generation = Generation 2,
      gt_collective_generation = Generation 1, gt_attempt_generation = Generation 2,
      gt_dispatch_generation = Generation 2\<rparr>"

definition claim_at :: "u64 \<Rightarrow> u64 \<Rightarrow> u64 \<Rightarrow> u64 \<Rightarrow> u64 \<Rightarrow> u64 \<Rightarrow> bool \<Rightarrow> AuthorityClaim" where
  "claim_at epoch boot group_gen collective_gen attempt_gen dispatch_gen completion =
     \<lparr>cl_boot = StrongId boot, cl_epoch = Generation epoch, cl_group_generation = Generation group_gen,
      cl_collective_generation = Generation collective_gen, cl_attempt_generation = Generation attempt_gen,
      cl_dispatch_generation = Generation dispatch_gen, is_completion = completion\<rparr>"

definition replay_claims :: "u64 \<Rightarrow> AuthorityClaim list" where
  "replay_claims live =
     [claim_at 1 live 2 1 2 2 False, claim_at 2 999 2 1 2 2 False, claim_at 2 live 1 1 2 2 False,
      claim_at 2 live 2 0 2 2 False, claim_at 2 live 2 1 1 2 False, claim_at 2 live 2 1 2 1 False,
      claim_at 2 live 2 1 2 2 True, claim_at 2 live 2 1 2 2 False]"

definition is_rejected :: "AuthorityDecision \<Rightarrow> bool" where
  "is_rejected d = (verdict d = AuthorityVerdict.STALE \<or> verdict d = DUPLICATE)"

definition replay_line :: "AuthorityDecision \<Rightarrow> string" where
  "replay_line d =
     (if is_rejected d then ''PHASE_STALE_REJECT class='' else ''PHASE_STALE_NOT_REJECTED class='') @
     authority_verdict_to_string (verdict d) @ '' '' @ reason d"

definition replay_decisions :: "u64 \<Rightarrow> AuthorityDecision list" where
  "replay_decisions live = map (evaluate_authority (replay_truth live)) (replay_claims live)"

definition stale_replay :: "unit act" where
  "stale_replay =
     seq (boot_of 0) (\<lambda>live.
     let ds = replay_decisions live in
     seq (for_each (\<lambda>d. logline (replay_line d)) ds) (\<lambda>_.
     logline (''PHASE_STALE_REPLAY rejected='' @ to_string (of_nat (length (filter is_rejected ds))) @
       '' accepted='' @ to_string (of_nat (length (filter (\<lambda>d. \<not> is_rejected d) ds))))))"

section \<open>The closure scenario\<close>

definition set_authority :: "unit act" where
  "set_authority =
     seq (boot_of 0) (\<lambda>boot.
     seq (on_runtime (set_live_boot (StrongId boot))) (\<lambda>_.
     change (\<lambda>c. c\<lparr>co_runtime := (co_runtime c)\<lparr>rt_authority := (rt_authority (co_runtime c))
       \<lparr>gt_group_generation := Generation 2, gt_collective_generation := Generation 1,
        gt_attempt_generation := Generation 2, gt_dispatch_generation := Generation 2\<rparr>\<rparr>\<rparr>)))"

definition synthetic_link :: "NodeId \<Rightarrow> DeviceId \<Rightarrow> DeviceId \<Rightarrow> TopologyLink" where
  "synthetic_link n d0 d1 =
     \<lparr>tl_source_node = n, tl_dest_node = n, tl_source_device = d0, tl_dest_device = d1,
      tl_class = LinkClass.SHARED_MEMORY, tl_nominal = no_capability, tl_measured = no_capability,
      tl_provenance = ProvenanceKind.SYNTHETIC, tl_health = HealthState.UNKNOWN, tl_snapshot = null_gen,
      tl_degraded = False\<rparr>"

definition build_topology :: "u64 \<Rightarrow> fault + Topology" where
  "build_topology now =
     (let (n1, t) = add_node ''localhost'' (new_topology (Generation 1) now) in
      sbind (add_device n1 ''dev0'' False 0 t) (\<lambda>(d0, t).
      sbind (add_device n1 ''dev1'' False 0 t) (\<lambda>(d1, t).
      sbind (add_link (synthetic_link n1 d0 d1) t) (\<lambda>t.
      Inr (set_provenance TopologyProvenance.SYNTHETIC t)))))"

definition start :: "surroundings \<Rightarrow> u64 \<Rightarrow> Topology act" where
  "start w port =
     seq (case sr_listen_error w of
            Some err \<Rightarrow> give_up (''COORD ERROR listen '' @ err)
          | None \<Rightarrow> logline (''COORD listening port='' @ to_string port)) (\<lambda>_.
     seq (change (\<lambda>c. c\<lparr>co_runtime := new_runtime\<rparr>)) (\<lambda>_.
     seq (on_runtime (register_backend (Some (reference_backend (StrongId 1) (Generation 1))))) (\<lambda>_.
     seq (on_runtime advance_epoch) (\<lambda>_.
     seq (wall_ns w) (\<lambda>now.
     seq (try_sum (build_topology now)) (\<lambda>topo.
     seq (on_runtime (adopt_topology topo)) (\<lambda>_.
     give topo)))))))"

definition first_phases :: "surroundings \<Rightarrow> string \<Rightarrow> TopologyGeneration \<Rightarrow> unit act" where
  "first_phases w path topo =
     seq accept_worker (\<lambda>_.
     seq accept_worker (\<lambda>_.
     seq (form_group w 1 1 topo) (\<lambda>_.
     seq (announce ''COORD '' 1 1) (\<lambda>_.
     seq (logline ''PHASE_GROUP_READY gen=1 ranks=2'') (\<lambda>_.
     seq run_barrier (\<lambda>_.
     seq (run_allreduce w topo 1 ''PHASE_ALLREDUCE'' False) (\<lambda>_.
     seq (logline ''PHASE_ALLREDUCE_DONE gen=1'') (\<lambda>_.
     seq (save_state w path) (\<lambda>_.
     logline (''PHASE_SAVED path='' @ path))))))))))"

definition loss_phases :: "surroundings \<Rightarrow> TopologyGeneration \<Rightarrow> unit act" where
  "loss_phases w topo =
     seq (logline ''PHASE_BEGIN_LIVE_COLLECTIVE'') (\<lambda>_.
     seq (run_allreduce w topo 1 ''PHASE_LOSS'' True) (\<lambda>_.
     seq (logline ''PHASE_LOSS_DETECTED'') (\<lambda>_.
     seq (on_runtime advance_epoch) (\<lambda>_.
     seq drop_dead_workers (\<lambda>_.
     logline ''PHASE_RECONFIGURE epoch=2'')))))"

definition regroup_phases :: "surroundings \<Rightarrow> TopologyGeneration \<Rightarrow> unit act" where
  "regroup_phases w topo =
     seq accept_replacement (\<lambda>_.
     seq (form_group w 1 2 topo) (\<lambda>_.
     seq (announce ''COORD REGEN '' 1 2) (\<lambda>_.
     seq set_authority (\<lambda>_.
     logline ''PHASE_REGROUP gen=2''))))"

definition final_phases :: "surroundings \<Rightarrow> string \<Rightarrow> TopologyGeneration \<Rightarrow> unit act" where
  "final_phases w path topo =
     seq (save_state w (path @ ''.before2'')) (\<lambda>_.
     seq (run_allreduce w topo 2 ''PHASE_ALLREDUCE2'' False) (\<lambda>_.
     seq (logline ''PHASE_ALLREDUCE_DONE gen=2'') (\<lambda>_.
     seq (save_state w path) (\<lambda>_.
     seq (logline ''PHASE_SAVED_FINAL'') (\<lambda>_.
     logline ''PHASE_DONE'')))))"

definition closing_phases :: "surroundings \<Rightarrow> string \<Rightarrow> TopologyGeneration \<Rightarrow> unit act" where
  "closing_phases w path topo =
     seq (loss_phases w topo) (\<lambda>_. seq (regroup_phases w topo) (\<lambda>_. seq stale_replay (\<lambda>_. final_phases w path topo)))"

definition run_coordinator :: "surroundings \<Rightarrow> u64 \<Rightarrow> string \<Rightarrow> unit act" where
  "run_coordinator w port path =
     seq (start w port) (\<lambda>topo.
     seq (first_phases w path (tp_generation topo)) (\<lambda>_.
     closing_phases w path (tp_generation topo)))"


section \<open>Recovery in a new process\<close>

definition restore_member :: "PersistedParticipant \<Rightarrow> GroupBuilder \<Rightarrow> GroupBuilder" where
  "restore_member p = add_participant (pp_participant_id p) (pp_worker p) (pp_boot p) (pp_node p) (pp_device p)
     (pp_backend_generation p) (pp_rank p)"

definition restored_builder :: "PersistedGroup \<Rightarrow> Source \<Rightarrow> GroupBuilder" where
  "restored_builder g src = fold restore_member (pg_participants g)
     ((new_group_builder (pg_group_id g) (pg_generation g))
       \<lparr>gb_membership := pg_membership g, gb_topology := pg_topology g, gb_health := pg_health g,
        gb_backend := pg_backend g, gb_lifecycle := pg_lifecycle g, gb_provenance := src\<rparr>)"

definition rebuild_group :: "surroundings \<Rightarrow> PersistedGroup \<Rightarrow> unit act" where
  "rebuild_group w g =
     seq (new_source w ''recovered group'' ProvenanceKind.DERIVED) (\<lambda>src.
     seq (try_sum (fst (build (restored_builder g src)))) (\<lambda>g.
     seq (on_runtime (register_group g)) (\<lambda>_.
     give ())))"

definition rebuild_runtime :: "surroundings \<Rightarrow> PersistentState \<Rightarrow> unit act" where
  "rebuild_runtime w s = for_each (rebuild_group w) (ps_groups s)"

definition forced_revalidations :: "PersistentState \<Rightarrow> nat" where
  "forced_revalidations s = length (filter (\<lambda>m. pm_freshness m = MeasurementFreshness.CURRENT) (ps_measurements s))"

definition recover_state :: "surroundings \<Rightarrow> string \<Rightarrow> PersistentState act" where
  "recover_state w path =
     seq (look (\<lambda>c. store_load path (co_files c))) (\<lambda>r.
     seq (try_sum r) (\<lambda>(s, _).
     seq (logline (''RECOVERY loaded groups='' @ to_string (of_nat (length (ps_groups s))) @ '' measurements='' @
                   to_string (of_nat (length (ps_measurements s))))) (\<lambda>_.
     if ps_groups s = [] then give_up ''RECOVERY_DONE''
     else
       seq (change (\<lambda>c. c\<lparr>co_runtime := new_runtime\<rparr>)) (\<lambda>_.
       seq (on_runtime (register_backend (Some (reference_backend (StrongId 1) (Generation 1))))) (\<lambda>_.
       seq (change (\<lambda>c. c\<lparr>co_runtime := (co_runtime c)\<lparr>rt_authority :=
              (rt_authority (co_runtime c))\<lparr>gt_epoch := ps_epoch s\<rparr>\<rparr>\<rparr>)) (\<lambda>_.
       seq (on_runtime (set_live_boot null_id)) (\<lambda>_.
       seq (rebuild_runtime w s) (\<lambda>_.
       seq (logline (''RECOVERY_MEASUREMENTS_REVALIDATION_REQUIRED forced='' @
                     to_string (of_nat (forced_revalidations s)))) (\<lambda>_.
       seq (logline ''RECOVERY_AUTHORITY_CLEARED'') (\<lambda>_.
       give s))))))))))"

text \<open>A connection of the recovery phase: kinds are not checked and the boot id is read unchecked.\<close>

definition recover_worker :: "unit act" where
  "recover_worker =
     seq accept_client (\<lambda>s.
     case s of
       None \<Rightarrow> give_up ''RECOVERY recv failed''
     | Some ch0 \<Rightarrow>
         (case channel_recv ch0 of
            (Inl why, ch1) \<Rightarrow> give_up ''RECOVERY recv failed''
          | (Inr f, ch1) \<Rightarrow>
              (case channel_recv ch1 of
                 (Inl why, ch2) \<Rightarrow> halt (Exit 1)
               | (Inr j, ch2) \<Rightarrow>
                   (case r_u64 (new_reader (fr_payload f)) of
                      None \<Rightarrow> halt (Throws Undefined)
                    | Some (boot, rest) \<Rightarrow>
                        seq (logline (''RECOVERY worker boot='' @ to_string boot)) (\<lambda>_.
                        add_worker ch2 boot [])))))"

definition recovery_request :: "CoordinatorEpoch \<Rightarrow> Desc" where
  "recovery_request epoch =
     \<lparr>ds_kind = collective_kind_to_u8 ALL_REDUCE, ds_datatype = datatype_to_u8 FLOAT32,
      ds_reduction = reduction_op_to_u8 ReductionOp.SUM, ds_element_count = 4, ds_root = 0, ds_rank_count = 2,
      ds_group_id = 7, ds_group_gen = 3, ds_collective_gen = 1, ds_epoch = gen_value epoch,
      ds_attempt_gen = 1, ds_dispatch_gen = 1\<rparr>"

definition ignore_frame :: "nat \<Rightarrow> unit act" where
  "ignore_frame i = seq (recv_from i) (\<lambda>_. give ())"

text \<open>The contribution of a worker; a payload that does not decode counts as an empty blob.\<close>

fun recover_inputs :: "nat list \<Rightarrow> bytes list \<Rightarrow> bytes list act" where
  "recover_inputs [] held = give held"
| "recover_inputs (i # is) held =
     seq (recv_from i) (\<lambda>r.
     case r of
       Inl why \<Rightarrow> give_up ''RECOVERY contrib recv failed''
     | Inr f \<Rightarrow> recover_inputs is (held @ [case dec_blob (fr_payload f) of None \<Rightarrow> [] | Some (_, data) \<Rightarrow> data]))"

definition recover_collective :: "surroundings \<Rightarrow> CoordinatorEpoch \<Rightarrow> unit act" where
  "recover_collective w epoch =
     seq (for_each (\<lambda>i. send_to i (frame REQUEST_COLLECTIVE (enc_desc (recovery_request epoch)))) [0, 1]) (\<lambda>_.
     seq (recover_inputs [0, 1] []) (\<lambda>inputs.
     seq (try_sum (execute (sr_floats w) ALL_REDUCE ReductionOp.SUM FLOAT32 4 0 2 inputs)) (\<lambda>outputs.
     seq (for_each (\<lambda>i. send_to i (frame RESULT (enc_blob no_claim (outputs ! 0)))) [0, 1]) (\<lambda>_.
     seq (for_each ignore_frame [0, 1]) (\<lambda>_.
     seq (logline (''RECOVERY_ALLREDUCE_DONE sum='' @ sr_float_string w (take 4 (outputs ! 0)))) (\<lambda>_.
     logline ''RECOVERY_DONE''))))))"

definition recover_group :: "surroundings \<Rightarrow> unit act" where
  "recover_group w =
     seq (boot_of 0) (\<lambda>boot0.
     seq (boot_of 1) (\<lambda>boot1.
     let (a, b, boot_a, boot_b) = (if boot1 < boot0 then (1, 0, boot1, boot0) else (0, 1, boot0, boot1)) in
     seq (new_source w ''recovered fresh group'' ProvenanceKind.DERIVED) (\<lambda>src.
     seq (try_sum (fst (build (add_member 901 boot_b 1 (add_member 900 boot_a 0
            (group_builder 7 3 (Generation 1) src)))))) (\<lambda>g.
     seq (on_runtime (register_group g)) (\<lambda>_.
     seq (send_to a (frame GROUP_ACCEPT (enc_rank_accept 0 2 7 3))) (\<lambda>_.
     send_to b (frame GROUP_ACCEPT (enc_rank_accept 1 2 7 3))))))))"

definition recovery :: "surroundings \<Rightarrow> string \<Rightarrow> unit act" where
  "recovery w path =
     seq (recover_state w path) (\<lambda>s.
     seq recover_worker (\<lambda>_.
     seq recover_worker (\<lambda>_.
     seq (recover_group w) (\<lambda>_.
     seq (for_each ignore_frame [0, 1]) (\<lambda>_.
     seq (for_each (\<lambda>i. send_to i (frame COMPLETE (enc_simple 1 1))) [0, 1]) (\<lambda>_.
     recover_collective w (ps_epoch s)))))))"

text \<open>An exception of the recovery is logged, and the program returns 0 all the same.\<close>

definition run_recover :: "surroundings \<Rightarrow> string \<Rightarrow> unit act" where
  "run_recover w path c =
     (case recovery w path c of
        (Inl (Throws (Error k what)), c') \<Rightarrow> logline (''RECOVERY_ERROR '' @ what) c'
      | (Inl (Foreign what), c') \<Rightarrow> logline (''RECOVERY_ERROR '' @ what) c'
      | r \<Rightarrow> r)"

end
