(* ===== verification/CF_Recovery.thy ===== *)
theory CF_Recovery
  imports CF_Coordinator
begin

text \<open>
  Recovery in a new process and the replay of stale claims (\<open>tools/coordinator.cpp\<close>): what comes back from
  a saved state, and which replayed claims the authority evaluator refuses.
\<close>

lemmas [act_simps] = on_runtime_def logline_def give_up_def wall_ns_def new_source_def make_source_def

section \<open>Recovery restores the group\<close>

lemma restore_members:
  "gb_participants (fold restore_member (map export_participant ps) b) =
     gb_participants b @ map (\<lambda>p. p\<lparr>pt_is_known := True\<rparr>) ps"
  "gb_id (fold restore_member qs b) = gb_id b" "gb_generation (fold restore_member qs b) = gb_generation b"
  "gb_membership (fold restore_member qs b) = gb_membership b" "gb_topology (fold restore_member qs b) = gb_topology b"
  "gb_health (fold restore_member qs b) = gb_health b" "gb_backend (fold restore_member qs b) = gb_backend b"
  "gb_lifecycle (fold restore_member qs b) = gb_lifecycle b" "gb_provenance (fold restore_member qs b) = gb_provenance b"
  by (induction ps arbitrary: b)
    (simp_all add: restore_member_def add_participant_def export_participant_def,
     (induction qs arbitrary: b; simp add: restore_member_def add_participant_def)+)

lemma group_of_known: 
  assumes "\<forall>p \<in> set (cg_participants g). pt_is_known p"
  shows "map (\<lambda>p. p\<lparr>pt_is_known := True\<rparr>) (cg_participants g) = cg_participants g"
  using assms by (simp add: map_idI)

lemma ranked_again: "dense ps \<Longrightarrow> ranked ps = ps"
proof (rule nth_equalityI)
  fix i assume d: "dense ps" and i: "i < length (ranked ps)"
  then have "StrongId (of_nat i) = pt_rank (ps ! i)" by (metis StrongId_raw dense_def length_ranked)
  then show "ranked ps ! i = ps ! i" using i by simp
qed simp

lemma restored_builds:
  assumes "fst (build b) = Inr g" "\<forall>p \<in> set (cg_participants g). pt_is_known p"
  shows "fst (build (restored_builder (export_group g) src)) = Inr (g\<lparr>cg_provenance := src\<rparr>)"
proof -
  let ?r = "restored_builder (export_group g) src"
  have g: "builder_ok b" "g = group_of b" using assms(1) by (simp_all add: build_ok_iff)
  have wf: "group_wf g" using assms(1) by (rule build_wf)
  have ps: "gb_participants ?r = cg_participants g"
    using group_of_known [OF assms(2)] by (simp add: restored_builder_def restore_members export_group_def new_group_builder_def)
  have sorted: "sort_key pt_id (cg_participants g) = cg_participants g"
    by (rule sort_key_id_if_sorted) (simp add: g(2) group_of_def map_ranked)
  have len: "length (cg_participants g) \<le> 2 ^ 64"
    using g by (simp add: builder_ok_def group_of_def)
  have "builder_ok ?r"
    using wf len dense_has_null [of "cg_participants g"]
    by (simp add: builder_ok_def ps group_wf_def list_all_iff)
      (simp add: restored_builder_def restore_members export_group_def new_group_builder_def)
  moreover have "group_of ?r = g\<lparr>cg_provenance := src\<rparr>"
    using wf sorted ranked_again [of "cg_participants g"]
    by (simp add: group_of_def ps group_wf_def)
      (simp add: restored_builder_def restore_members export_group_def new_group_builder_def)
  ultimately show ?thesis by (simp add: build_ok_iff)
qed

lemma save_then_load:
  assumes "storable s" "length (store_encode s) < 2 ^ 64" "store_save io path s fs = (Inr res, fs')"
  shows "\<exists>res. store_load path fs' = Inr (s, res)"
  using assms(3) load_store_frame [OF assms(1,2)] by (cases io) (auto simp: store_load_def)


section \<open>A saved group of two\<close>

definition pair_builder :: GroupBuilder where
  "pair_builder = add_member 200 200 1 (add_member 100 100 0 (group_builder 1 1 (Generation 1) null_source))"

definition pair_group :: CollectiveGroup where
  "pair_group = group_of pair_builder"

definition pair_runtime :: Runtime where
  "pair_runtime = new_runtime\<lparr>rt_groups := [((StrongId 1, Generation 1), pair_group)]\<rparr>"

lemma pair_builds: "fst (build pair_builder) = Inr pair_group"
  by (simp add: build_ok_iff pair_group_def builder_ok_def pair_builder_def add_member_def add_participant_def
      group_builder_def new_group_builder_def gen_is_null_def id_is_null_def)

lemma pair_group_fields:
  "cg_id pair_group = StrongId 1" "cg_generation pair_group = Generation 1" "length (cg_participants pair_group) = 2"
  "\<forall>p \<in> set (cg_participants pair_group). pt_is_known p"
  by (simp_all add: pair_group_def group_of_def pair_builder_def add_member_def add_participant_def
      group_builder_def new_group_builder_def ranked_def upt_rec)

lemma pair_group_wf: "group_wf pair_group"
  using pair_builds by (rule build_wf)

lemma pair_state:
  "storable (build_state now pair_runtime)" "length (store_encode (build_state now pair_runtime)) < 2 ^ 64"
proof -
  have g: "ps_groups (build_state now pair_runtime) = [export_group pair_group]"
    "ps_measurements (build_state now pair_runtime) = []"
    by (simp_all add: build_state_def pair_runtime_def find_group_def new_runtime_def measurement_ids_def om_keys_def List.map_filter_def)
  have "group_ok (export_group pair_group)"
    using pair_group_wf pair_group_fields(3)
    by (simp add: group_ok_def export_group_def group_wf_def comp_def export_participant_def)
  then show "storable (build_state now pair_runtime)"
    using g by (simp add: storable_def health_ok_def) (simp add: build_state_def kFormatVersion_def)
  have "length (concat (map write_participant (map export_participant (cg_participants pair_group)))) = 57 * 2"
    by (simp add: pair_group_def group_of_def pair_builder_def add_member_def add_participant_def
      group_builder_def new_group_builder_def ranked_def upt_rec write_participant_def)
  then show "length (store_encode (build_state now pair_runtime)) < 2 ^ 64"
    by (simp add: store_encode_def g write_group_def) (simp add: export_group_def build_state_def)
qed

definition calm :: surroundings where
  "calm = \<lparr>sr_clock = of_nat, sr_disk = (\<lambda>_. Io_ok), sr_floats = zero_floats, sr_float_string = (\<lambda>_. ''0.000000''),
     sr_listen_error = None\<rparr>"

section \<open>Properties\<close>

text \<open>C12: a coordinator that comes back from a saved state has the group it saved, participant by
  participant and rank by rank, and the saved epoch; the live incarnation is cleared, and neither
  measurements nor executions come back.\<close>

theorem recovery_restores_group:
  assumes "find_group (StrongId 1) (Generation 1) rt = Some g" "fst (build b) = Inr g"
    and "\<forall>p \<in> set (cg_participants g). pt_is_known p"
    and "storable (build_state now rt)" "length (store_encode (build_state now rt)) < 2 ^ 64"
    and "store_save io path (build_state now rt) fs = (Inr res, fs')"
    and "cg_id g = StrongId 1" "cg_generation g = Generation 1"
  shows "\<exists>src c'. recover_state w path (c\<lparr>co_files := fs'\<rparr>) = (Inr (build_state now rt), c') \<and>
    find_group (StrongId 1) (Generation 1) (co_runtime c') = Some (g\<lparr>cg_provenance := src\<rparr>) \<and>
    gt_epoch (rt_authority (co_runtime c')) = gt_epoch (rt_authority rt) \<and>
    live_boot (rt_authority (co_runtime c')) = null_id \<and>
    rt_measurements (co_runtime c') = [] \<and> rt_executions (co_runtime c') = []"
proof -
  let ?s = "build_state now rt"
  obtain r where load: "store_load path fs' = Inr (?s, r)"
    using save_then_load [OF assms(4-6)] by blast
  have groups: "ps_groups ?s = [export_group g]" "ps_epoch ?s = gt_epoch (rt_authority rt)"
    using assms(1) by (simp_all add: build_state_def)
  note built = restored_builds [OF assms(2,3)]
  show ?thesis
    using assms(7,8)
    by (simp add: recover_state_def act_simps load groups rebuild_runtime_def rebuild_group_def built
        register_backend_def op_simps set_live_boot_def new_runtime_def register_group_def group_key_of_def find_group_def) blast
qed

theorem recovery_restores_group_witness:
  "\<exists>src c'. recover_state calm ''s''
      ((new_process [] Map.empty)\<lparr>co_files := [''s'' \<mapsto> store_frame (build_state 3 pair_runtime)]\<rparr>) =
      (Inr (build_state 3 pair_runtime), c') \<and>
    find_group (StrongId 1) (Generation 1) (co_runtime c') = Some (pair_group\<lparr>cg_provenance := src\<rparr>)"
proof -
  have f: "find_group (StrongId 1) (Generation 1) pair_runtime = Some pair_group"
    by (simp add: find_group_def pair_runtime_def)
  have "store_save Io_ok ''s'' (build_state 3 pair_runtime) Map.empty =
      (Inr \<lparr>sr_digest = sha256 (store_encode (build_state 3 pair_runtime)),
        sr_bytes = length (store_frame (build_state 3 pair_runtime))\<rparr>,
       [''s'' \<mapsto> store_frame (build_state 3 pair_runtime)])" by (auto simp: fun_eq_iff)
  from recovery_restores_group [OF f pair_builds pair_group_fields(4) pair_state this pair_group_fields(1,2)]
  show ?thesis by blast
qed

text \<open>The replay of stale claims rejects the seven stale classes and accepts the current claim exactly
  when the first worker's boot id is neither null nor the id 999 that the scenario uses for a foreign
  incarnation.\<close>

theorem replay_rejects_stale_claims:
  "(map is_rejected (replay_decisions live) = replicate 7 True @ [False]) = (live \<noteq> 0 \<and> live \<noteq> 999)"
  by (simp add: replay_decisions_def replay_claims_def claim_at_def replay_truth_def evaluate_authority_def
      is_rejected_def id_is_null_def eval_nat_numeral)

end
