(* ===== verification/CF_Exchange.thy ===== *)
theory CF_Exchange
  imports CF_Recovery
begin

text \<open>
  The all-reduce that the coordinator drives over two connections: what it does when both workers
  contribute, and what it does when one of the connections has died.
\<close>

section \<open>An all-reduce over two connections\<close>

lemma recv_from_eq:
  "recv_from i c =
     (let (r, ch) = channel_recv (ws_channel (co_workers c ! i))
      in (Inr r, c\<lparr>co_workers := (co_workers c)[i := (co_workers c ! i)\<lparr>ws_channel := ch\<rparr>]\<rparr>))"
  by (simp add: recv_from_def on_worker_def act_simps split: prod.split)

lemmas run_simps = act_simps worker_indices_def boot_of_def recv_from_eq send_to_def on_worker_def send_result_def
  case_prod_beta Let_def

abbreviation contribution :: "AuthClaim \<Rightarrow> bytes \<Rightarrow> Frame" where
  "contribution a data \<equiv> frame CONTRIBUTION (enc_blob a data)"

text \<open>What two workers look like after an exchange: the frames they were sent, and what is left to receive.\<close>

definition exchanged :: "WorkerState \<Rightarrow> WorkerState \<Rightarrow> Frame list \<Rightarrow> Frame list \<Rightarrow> bool" where
  "exchanged w w' sent rest \<longleftrightarrow>
     ws_boot w' = ws_boot w \<and> ws_name w' = ws_name w \<and>
     fc_sent (ws_channel w') = fc_sent (ws_channel w) @ map encode sent \<and>
     fc_valid (ws_channel w') = fc_valid (ws_channel w) \<and> delivers (ws_channel w') rest"

definition unchanged_process :: "Coordinator \<Rightarrow> Coordinator \<Rightarrow> bool" where
  "unchanged_process c c' \<longleftrightarrow>
     co_pending c' = co_pending c \<and> co_files c' = co_files c \<and> co_saves c' = co_saves c \<and>
     rt_groups (co_runtime c') = rt_groups (co_runtime c) \<and>
     rt_authority (co_runtime c') = rt_authority (co_runtime c) \<and>
     rt_executions (co_runtime c') = rt_executions (co_runtime c)"

abbreviation request_frame :: "u64 \<Rightarrow> bool \<Rightarrow> Frame" where
  "request_frame gen loss \<equiv> frame REQUEST_COLLECTIVE (enc_desc (request gen loss))"

abbreviation result_frame :: "u64 \<Rightarrow> u64 \<Rightarrow> bytes \<Rightarrow> Frame" where
  "result_frame boot gen data \<equiv> frame RESULT (enc_blob (result_claim boot gen) data)"

lemma run_allreduce_result:
  assumes "co_workers c = [w0, w1]"
    and "delivers (ws_channel w0) (contribution a0 d0 # g0 # fs0)"
    and "delivers (ws_channel w1) (contribution a1 d1 # g1 # fs1)"
    and "length d0 < 2 ^ 64" "length d1 < 2 ^ 64"
    and "execute (sr_floats w) ALL_REDUCE ReductionOp.SUM FLOAT32 4 0 2 [d0, d1] = Inr outs"
  shows "\<exists>c' w0' w1' now src. run_allreduce w topo gen label loss c = (Inr False, c') \<and> co_workers c' = [w0', w1'] \<and>
    exchanged w0 w0' [request_frame gen loss, result_frame (ws_boot w0) gen (outs ! 0)] fs0 \<and>
    exchanged w1 w1' [request_frame gen loss, result_frame (ws_boot w1) gen (outs ! 0)] fs1 \<and>
    unchanged_process c c' \<and>
    rt_measurements (co_runtime c') =
      om_put (StrongId (1000 + gen)) (exchange_measurement gen topo now src) (rt_measurements (co_runtime c))"
  using assms
  by (simp add: run_allreduce_def run_simps delivers_Cons upt_rec exchanged_def unchanged_process_def
      ingest_measurement_def op_simps exchange_measurement_def) blast

section \<open>A lost connection\<close>

text \<open>A connection is dead when the next receive fails and no empty block is waiting; it stays dead.\<close>

definition dead :: "FrameChannel \<Rightarrow> bool" where
  "dead ch \<longleftrightarrow> (\<exists>why. fst (channel_recv ch) = Inl why) \<and> [] \<notin> set (fc_incoming ch)"

lemma recv_frame_fails_again:
  "recv_frame d net = (Inl why, d', net') \<Longrightarrow> [] \<notin> set net \<Longrightarrow>
   (\<exists>d'' net''. recv_frame d' net' = (Inl why, d'', net'')) \<and> [] \<notin> set net'"
proof (induction d net arbitrary: d' net' rule: recv_frame.induct)
  case (1 d net)
  show ?case
  proof (cases "next_frame d")
    case (Pair r e)
    then have e: "r = NEED_MORE \<or> (\<exists>m. r = REJECT m) \<Longrightarrow> e = d"
      by (auto simp: next_frame_def split: DecodeResult.splits)
    show ?thesis
    proof (cases r)
      case NEED_MORE
      then have ed: "e = d" using e by simp
      show ?thesis
      proof (cases net)
        case Nil
        then show ?thesis using "1.prems" Pair NEED_MORE ed by (auto simp: recv_frame.simps [where net = "[]"])
      next
        case (Cons blk rest)
        then have "blk \<noteq> []" "[] \<notin> set rest" using "1.prems"(2) by auto
        moreover have "recv_frame (feed blk e) rest = (Inl why, d', net')"
          using "1.prems"(1) Pair NEED_MORE Cons calculation(1) by (simp add: recv_frame.simps [of d "blk # rest"])
        ultimately show ?thesis using "1.IH" [OF Pair [symmetric] NEED_MORE Cons] by auto
      qed
    next
      case (REJECT m)
      then have "e = d" using e by simp
      with REJECT show ?thesis using "1.prems" Pair
        by (simp add: recv_frame.simps [of d net]) (auto simp: recv_frame.simps [of d' net'])
    next
      case (FRAME f n)
      then show ?thesis using "1.prems" Pair by (simp add: recv_frame.simps [of d net])
    qed
  qed
qed

lemma dead_recv:
  assumes "dead ch"
  obtains why ch' where "channel_recv ch = (Inl why, ch')" "dead ch'"
proof -
  obtain why d net where r: "recv_frame (fc_decoder ch) (fc_incoming ch) = (Inl why, d, net)"
    using assms by (auto simp: dead_def channel_recv_def split: prod.splits)
  from recv_frame_fails_again [OF this] assms
  have "dead (ch\<lparr>fc_decoder := d, fc_incoming := net\<rparr>)"
    by (auto simp: dead_def channel_recv_def)
  then show ?thesis using that r by (simp add: channel_recv_def)
qed

lemma dead_send [simp]: "dead (channel_send f ch) = dead ch"
  by (simp add: dead_def) (simp add: channel_send_def)

lemma dead_again: "dead ch \<Longrightarrow> dead (snd (channel_recv ch))"
  by (metis dead_recv snd_conv)

lemma dead_fails: "dead ch \<Longrightarrow> fst (channel_recv ch) \<noteq> Inr f"
  by (metis dead_recv fst_conv Inl_Inr_False)

text \<open>What an exchange keeps of the workers when one of the first two is dead.\<close>

definition alike :: "WorkerState \<Rightarrow> WorkerState \<Rightarrow> bool" where
  "alike w w' \<longleftrightarrow> ws_boot w' = ws_boot w \<and> fc_valid (ws_channel w') = fc_valid (ws_channel w) \<and>
     (dead (ws_channel w) \<longrightarrow> dead (ws_channel w'))"

lemma alike_trans: "alike a b \<Longrightarrow> alike b c \<Longrightarrow> alike a c"
  by (auto simp: alike_def)

lemma collect_inputs_dead:
  assumes "2 \<le> length (co_workers c)"
    and "dead (ws_channel (co_workers c ! 0)) \<or> dead (ws_channel (co_workers c ! 1))"
  shows "\<exists>r c'. collect_inputs label [0, 1] [] c = (Inr r, c') \<and> (\<forall>inputs. r \<noteq> Collected inputs) \<and>
    list_all2 alike (co_workers c) (co_workers c') \<and> unchanged_process c c' \<and>
    rt_measurements (co_runtime c') = rt_measurements (co_runtime c)"
proof -
  obtain w0 w1 ws where ws: "co_workers c = w0 # w1 # ws"
    using assms(1) by (metis Suc_le_length_iff numeral_2_eq_2)
  have refl: "list_all2 alike ws ws" by (simp add: alike_def list_all2_refl)
  have 0: "alike w (w\<lparr>ws_channel := snd (channel_recv (ws_channel w))\<rparr>)" for w
    by (simp add: alike_def dead_again)
  show ?thesis
  proof (cases "fst (channel_recv (ws_channel w0))")
    case (Inl why)
    then show ?thesis
      using ws refl 0 by (simp add: run_simps unchanged_process_def case_prod_beta alike_def)
  next
    case (Inr f)
    then obtain why where why: "fst (channel_recv (ws_channel w1)) = Inl why"
      using assms(2) dead_fails [of "ws_channel w0"] ws by (auto simp: dead_def)
    show ?thesis
      using ws refl 0 Inr why 
      by (auto simp: run_simps unchanged_process_def alike_def split: option.split)
  qed
qed

lemma for_each_send:
  "for_each (\<lambda>i. send_to i f) [0..<length (co_workers c)] c =
     (Inr (), c\<lparr>co_workers := map (\<lambda>w. w\<lparr>ws_channel := channel_send f (ws_channel w)\<rparr>) (co_workers c)\<rparr>)"
proof -
  have "for_each (\<lambda>i. send_to i f) [n..<n + length ws] (c\<lparr>co_workers := us @ ws\<rparr>) =
      (Inr (), c\<lparr>co_workers := us @ map (\<lambda>w. w\<lparr>ws_channel := channel_send f (ws_channel w)\<rparr>) ws\<rparr>)"
    if "length us = n" for n us ws
    using that
  proof (induction ws arbitrary: n "us")
    case Nil
    then show ?case by (simp add: give_def)
  next
    case (Cons w ws)
    let ?w = "w\<lparr>ws_channel := channel_send f (ws_channel w)\<rparr>"
    have "for_each (\<lambda>i. send_to i f) [n..<n + length (w # ws)] (c\<lparr>co_workers := us @ w # ws\<rparr>) =
        for_each (\<lambda>i. send_to i f) [Suc n..<Suc n + length ws] (c\<lparr>co_workers := (us @ [?w]) @ ws\<rparr>)"
      unfolding Cons.prems [symmetric]
      by (simp add: upt_rec [of "length us"] send_to_def on_worker_def act_simps del: upt_Suc)
    also have "\<dots> = (Inr (), c\<lparr>co_workers := (us @ [?w]) @ map (\<lambda>w. w\<lparr>ws_channel := channel_send f (ws_channel w)\<rparr>) ws\<rparr>)"
      by (rule Cons.IH) (simp add: Cons.prems)
    finally show ?case by simp
  qed
  from this [of "[]" 0 "co_workers c"] show ?thesis by simp
qed

lemma alikes_trans: "list_all2 alike us vs \<Longrightarrow> list_all2 alike vs ws \<Longrightarrow> list_all2 alike us ws"
  by (rule list_all2_trans [where ?P1.0 = alike and ?P2.0 = alike]) (rule alike_trans)

lemma alike_send: "alike w (w\<lparr>ws_channel := channel_send f (ws_channel w)\<rparr>)"
  by (simp add: alike_def)

lemma run_allreduce_dead:
  assumes "2 \<le> length (co_workers c)"
    and "dead (ws_channel (co_workers c ! 0)) \<or> dead (ws_channel (co_workers c ! 1))"
  shows "\<exists>b c'. run_allreduce w topo gen label loss c = (Inr b, c') \<and>
    list_all2 alike (co_workers c) (co_workers c') \<and> unchanged_process c c' \<and>
    rt_measurements (co_runtime c') = rt_measurements (co_runtime c)"
proof -
  let ?send = "\<lambda>w. w\<lparr>ws_channel := channel_send (request_frame gen loss) (ws_channel w)\<rparr>"
  let ?c = "c\<lparr>co_workers := map ?send (co_workers c)\<rparr>"
  have "0 < length (co_workers c)" "1 < length (co_workers c)" using assms(1) by auto
  then have "dead (ws_channel (co_workers ?c ! 0)) \<or> dead (ws_channel (co_workers ?c ! 1))"
    using assms by (auto simp: nth_map)
  then obtain r c' where r: "collect_inputs label [0, 1] [] ?c = (Inr r, c')" "\<forall>inputs. r \<noteq> Collected inputs"
    and c': "list_all2 alike (co_workers ?c) (co_workers c')" "unchanged_process ?c c'"
      "rt_measurements (co_runtime c') = rt_measurements (co_runtime ?c)"
    using collect_inputs_dead [of ?c label] assms(1) by auto
  have "list_all2 alike (co_workers c) (co_workers ?c)"
    by (simp add: list_all2_conv_all_nth alike_send)
  then have "list_all2 alike (co_workers c) (co_workers c')"
    using c'(1) by (rule alikes_trans)
  moreover have "unchanged_process c c'" using c'(2) by (simp add: unchanged_process_def)
  moreover have "run_allreduce w topo gen label loss c = (Inr (r = Lost), c')"
    using r assms(1) by (cases r) (simp_all add: run_allreduce_def for_each_send worker_indices_def act_simps)
  ultimately show ?thesis using c'(3) by auto
qed

section \<open>The sum of two contributions\<close>

definition float_sum :: "float_ops \<Rightarrow> bytes \<Rightarrow> bytes \<Rightarrow> bytes" where
  "float_sum F d0 d1 =
     store_elems 4 (map (\<lambda>i. fp_add (fp32 F) (le_load (element 4 i d0)) (le_load (element 4 i d1))) [0..<4])"

lemma length_float_sum [simp]: "length (float_sum F d0 d1) = 16"
  by (simp add: float_sum_def)

lemma float_sums:
  assumes "length d0 = 16" "length d1 = 16"
  shows "execute F ALL_REDUCE ReductionOp.SUM FLOAT32 4 0 2 [d0, d1] = Inr [float_sum F d0 d1, float_sum F d0 d1]"
proof -
  have w: "well_sized FLOAT32 4 2 (unat (4 :: u64) * dt_size FLOAT32) [d0, d1]"
    using assms by (intro well_sizedI) simp_all
  have "reduced F FLOAT32 ReductionOp.SUM [d0, d1] 2 4 (float_sum F d0 d1)"
    by (simp add: reduced_def float_sum_def rank_fold_def on_bytes_def reduce_f32_def upt_rec [of 0 2] upt_rec [of "Suc 0" 2])
  moreover have "replicate 2 x = [x, x]" for x :: bytes by (simp add: numeral_2_eq_2)
  ultimately show ?thesis
    using execute_all_reduce_iff [OF _ w, of F ReductionOp.SUM 0] by simp
qed

section \<open>The exchange\<close>

text \<open>C22: when both workers contribute, each connection is sent the request and then the reduced bytes, and
  one current, measured measurement is recorded; this holds whatever the authority claims of the contributions
  say: they are decoded and never compared with anything.\<close>

theorem contributions_are_not_authorised:
  assumes "co_workers c = [w0, w1]"
    and "delivers (ws_channel w0) [frame CONTRIBUTION (enc_blob a0 d0), g0]"
    and "delivers (ws_channel w1) [frame CONTRIBUTION (enc_blob a1 d1), g1]"
    and "length d0 < 2 ^ 64" "length d1 < 2 ^ 64"
    and "execute (sr_floats w) ALL_REDUCE ReductionOp.SUM FLOAT32 4 0 2 [d0, d1] = Inr outs"
  shows "\<exists>c' w0' w1' m. run_allreduce w topo gen label loss c = (Inr False, c') \<and> co_workers c' = [w0', w1'] \<and>
    fc_sent (ws_channel w0') = fc_sent (ws_channel w0) @
      [encode (request_frame gen loss), encode (result_frame (ws_boot w0) gen (outs ! 0))] \<and>
    fc_sent (ws_channel w1') = fc_sent (ws_channel w1) @
      [encode (request_frame gen loss), encode (result_frame (ws_boot w1) gen (outs ! 0))] \<and>
    rt_measurements (co_runtime c') = om_put (StrongId (1000 + gen)) m (rt_measurements (co_runtime c)) \<and>
    cm_freshness m = MeasurementFreshness.CURRENT \<and> cm_provenance m = MeasurementProvenance.MEASURED"
proof -
  obtain c' w0' w1' now src where "run_allreduce w topo gen label loss c = (Inr False, c')" "co_workers c' = [w0', w1']"
    "exchanged w0 w0' [request_frame gen loss, result_frame (ws_boot w0) gen (outs ! 0)] []"
    "exchanged w1 w1' [request_frame gen loss, result_frame (ws_boot w1) gen (outs ! 0)] []"
    "rt_measurements (co_runtime c') =
      om_put (StrongId (1000 + gen)) (exchange_measurement gen topo now src) (rt_measurements (co_runtime c))"
    using run_allreduce_result [OF assms] by blast
  then show ?thesis
    by (intro exI [of _ c'] exI [of _ w0'] exI [of _ w1'] exI [of _ "exchange_measurement gen topo now src"])
      (simp add: exchanged_def exchange_measurement_def)
qed

definition sample_worker :: "u64 \<Rightarrow> bytes list \<Rightarrow> WorkerState" where
  "sample_worker boot net =
     \<lparr>ws_channel = new_channel net, ws_boot = boot, ws_name = ''w'', ws_rank = 0, ws_group_gen = 0, ws_joined = True\<rparr>"

theorem contributions_are_not_authorised_witness:
  "\<exists>c' w0' w1'. run_allreduce calm (Generation 1) 2 ''L'' False
      ((new_process [] Map.empty)\<lparr>co_workers :=
        [sample_worker 100 (map encode [contribution no_claim (replicate 16 0), frame COMPLETE []]),
         sample_worker 200 (map encode [contribution no_claim (replicate 16 0), frame COMPLETE []])]\<rparr>) = (Inr False, c') \<and>
    co_workers c' = [w0', w1'] \<and>
    fc_sent (ws_channel w0') = [encode (request_frame 2 False),
      encode (result_frame 100 2 (float_sum zero_floats (replicate 16 0) (replicate 16 0)))]"
proof -
  let ?fs = "[contribution no_claim (replicate 16 0), frame COMPLETE []]"
  let ?w = "\<lambda>b. sample_worker b (map encode ?fs)"
  let ?c = "(new_process [] Map.empty)\<lparr>co_workers := [?w 100, ?w 200]\<rparr>"
  have "delivers (new_channel (map encode ?fs)) ?fs"
    by (rule delivers_new [where rest = "[]"]) (auto simp: encodable_def)
  then have d: "delivers (ws_channel (?w b)) ?fs" for b by (simp add: sample_worker_def)
  have w: "co_workers ?c = [?w 100, ?w 200]" by simp
  have s: "execute (sr_floats calm) ALL_REDUCE ReductionOp.SUM FLOAT32 4 0 2 [replicate 16 0, replicate 16 0] =
      Inr [float_sum zero_floats (replicate 16 0) (replicate 16 0), float_sum zero_floats (replicate 16 0) (replicate 16 0)]"
    by (simp add: calm_def float_sums)
  have len: "length (replicate 16 (0 :: u8)) < 2 ^ 64" by simp
  have "fc_sent (ws_channel (?w 100)) = []" "ws_boot (?w 100) = 100" by (simp_all add: sample_worker_def new_channel_def)
  with contributions_are_not_authorised [OF w d d len len s, of "Generation 1" 2 "''L''" False] show ?thesis
    by (simp only: append_Nil nth_Cons_0) blast
qed

end
