(* ===== verification/CF_Closure.thy ===== *)
theory CF_Closure
  imports CF_Exchange
begin

text \<open>
  The loss of a worker and what the coordinator makes of it: dropping, regrouping, the replay and the second
  all-reduce. A step is described by the state it leaves: the workers (up to what arrives on their
  connections), the runtime and the files.
\<close>

section \<open>Steps of the closing phases\<close>

lemma seq_look: "seq (look f) k c = k (f c) c"
  by (simp add: seq_def look_def)

lemma for_each_log:
  "for_each (\<lambda>x. logline (f x)) xs c = (Inr (), c\<lparr>co_log := co_log c @ map f xs\<rparr>)"
  by (induction xs arbitrary: c) (simp_all add: act_simps)

lemma drop_none:
  assumes "\<forall>s \<in> set (co_workers c). fc_valid (ws_channel s)"
  shows "drop_dead_workers c = (Inr (), c)"
  using assms by (simp add: drop_dead_workers_def act_simps filter_id_conv)

lemma alike_valid:
  "list_all2 alike ws ws' \<Longrightarrow> \<forall>s \<in> set ws. fc_valid (ws_channel s) \<Longrightarrow> \<forall>s \<in> set ws'. fc_valid (ws_channel s)"
  by (induction rule: list_all2_induct) (simp_all add: alike_def)

lemma alike_nth:
  assumes "list_all2 alike ws ws'" "i < length ws"
  shows "ws_boot (ws' ! i) = ws_boot (ws ! i)" "dead (ws_channel (ws ! i)) \<Longrightarrow> dead (ws_channel (ws' ! i))"
  using list_all2_nthD [OF assms] by (auto simp: alike_def)

text \<open>The regroup is over the first two workers, the dead one included.\<close>

lemma loss_phases_result:
  assumes "co_workers c = [w0, w1]" "fc_valid (ws_channel w0)" "fc_valid (ws_channel w1)"
    and "dead (ws_channel w0) \<or> dead (ws_channel w1)"
  shows "\<exists>c' w0' w1'. loss_phases w topo c = (Inr (), c') \<and> co_workers c' = [w0', w1'] \<and>
    alike w0 w0' \<and> alike w1 w1' \<and> co_pending c' = co_pending c \<and>
    rt_groups (co_runtime c') = rt_groups (co_runtime c) \<and>
    gt_epoch (rt_authority (co_runtime c')) = gen_next (gt_epoch (rt_authority (co_runtime c))) \<and>
    rt_measurements (co_runtime c') = rt_measurements (co_runtime c)"
proof -
  let ?c = "c\<lparr>co_log := co_log c @ [''PHASE_BEGIN_LIVE_COLLECTIVE'']\<rparr>"
  obtain b c1 where c1: "run_allreduce w topo 1 ''PHASE_LOSS'' True ?c = (Inr b, c1)"
    "list_all2 alike (co_workers ?c) (co_workers c1)" "unchanged_process ?c c1"
    "rt_measurements (co_runtime c1) = rt_measurements (co_runtime ?c)"
    using run_allreduce_dead [of ?c w topo 1 "''PHASE_LOSS''" True] assms by auto
  then obtain w0' w1' where ws: "co_workers c1 = [w0', w1']" "alike w0 w0'" "alike w1 w1'"
    using assms(1) by (auto simp: list_all2_Cons1)
  have "\<forall>s \<in> set (co_workers c1). fc_valid (ws_channel s)"
    using ws assms(2,3) by (auto simp: alike_def)
  then show ?thesis
    using c1 ws by (simp add: loss_phases_def act_simps drop_none advance_epoch_def op_simps unchanged_process_def)
qed

definition boots :: "CollectiveGroup \<Rightarrow> WorkerBootId set" where
  "boots g = set (map pt_boot (cg_participants g))"

text \<open>A group of two, as a builder makes it.\<close>

definition pair_of :: "u64 \<Rightarrow> u64 \<Rightarrow> CollectiveGroup \<Rightarrow> bool" where
  "pair_of gid gen g \<longleftrightarrow> (\<exists>b. fst (build b) = Inr g) \<and> cg_id g = StrongId gid \<and> cg_generation g = Generation gen \<and>
     length (cg_participants g) = 2 \<and> (\<forall>p \<in> set (cg_participants g). pt_is_known p)"

lemma pair_builder_builds:
  assumes "a \<noteq> b" "a \<noteq> 0" "b \<noteq> 0" "gen \<noteq> 0" "\<not> gen_is_null topo"
  shows "\<exists>g. fst (build (add_member b b 1 (add_member a a 0 (group_builder gid gen topo src)))) = Inr g \<and>
    boots g = {StrongId a, StrongId b} \<and> pair_of gid gen g \<and> cg_id g = StrongId gid \<and> cg_generation g = Generation gen \<and>
    cg_rank_count g = 2 \<and>
    (a < b \<longrightarrow> rank_of_boot g a = StrongId 0 \<and> rank_of_boot g b = StrongId 1)"
proof -
  let ?b = "add_member b b 1 (add_member a a 0 (group_builder gid gen topo src))"
  have ok: "builder_ok ?b"
    using assms by (simp add: builder_ok_def add_member_def add_participant_def group_builder_def new_group_builder_def
        gen_is_null_def id_is_null_def)
  have "map pt_boot (cg_participants (group_of ?b)) = map pt_boot (sort_key pt_id (gb_participants ?b))"
    by (simp add: group_of_def map_ranked)
  then have "boots (group_of ?b) = {StrongId a, StrongId b}"
    by (simp add: boots_def del: map_eq_conv)
      (auto simp: add_member_def add_participant_def group_builder_def new_group_builder_def)
  moreover have "rank_of_boot (group_of ?b) a = StrongId 0 \<and> rank_of_boot (group_of ?b) b = StrongId 1" if "a < b"
    using that by (simp add: less_imp_le group_of_def add_member_def add_participant_def group_builder_def
        new_group_builder_def ranked_def upt_rec rank_of_boot_def)
  moreover have "map pt_is_known (cg_participants (group_of ?b)) = map pt_is_known (sort_key pt_id (gb_participants ?b))"
    by (simp add: group_of_def map_ranked)
  then have "pt_is_known ` set (cg_participants (group_of ?b)) = pt_is_known ` set (gb_participants ?b)"
    by (metis list.set_map set_sort)
  then have "\<forall>p \<in> set (cg_participants (group_of ?b)). pt_is_known p"
    by (auto simp: add_member_def add_participant_def group_builder_def new_group_builder_def)
  moreover have "length (cg_participants (group_of ?b)) = 2"
    by (simp add: group_of_def add_member_def add_participant_def group_builder_def new_group_builder_def)
  moreover have "cg_id (group_of ?b) = StrongId gid" "cg_generation (group_of ?b) = Generation gen"
    by (simp_all add: group_of_def add_member_def add_participant_def group_builder_def new_group_builder_def)
  moreover have built: "fst (build ?b) = Inr (group_of ?b)" using ok by (simp add: build_ok_iff)
  ultimately show ?thesis
    by (intro exI [of _ "group_of ?b"]) (auto simp: pair_of_def cg_rank_count_def)
qed

definition same_books :: "Coordinator \<Rightarrow> Coordinator \<Rightarrow> bool" where
  "same_books c c' \<longleftrightarrow> co_runtime c' = co_runtime c \<and> co_files c' = co_files c \<and> co_saves c' = co_saves c"

lemma accept_replacement_result:
  assumes "co_pending c = Some ch # rest" "fst (channel_recv ch) = Inr (frame HELLO (enc_boot_name boot name))"
    and "length name < 2 ^ 64"
  shows "\<exists>wn c'. accept_replacement c = (Inr (), c') \<and> co_workers c' = co_workers c @ [wn] \<and> same_books c c' \<and>
    ws_boot wn = boot"
proof -
  have "r_u64 (new_reader (enc_boot_name boot name)) = Some (boot, reader_at (w_u64 boot) (w_string name))"
    using r_u64_enc [of "[]" boot "w_string name"] by (simp add: new_reader_at enc_boot_name_def)
  moreover obtain ch1 where "channel_recv ch = (Inr (frame HELLO (enc_boot_name boot name)), ch1)"
    using assms(2) by (metis prod.collapse)
  ultimately show ?thesis
    using assms(1) by (simp add: accept_replacement_def accept_client_def act_simps Let_def add_worker_def same_books_def)
qed

lemma form_group_result:
  assumes "co_workers c = w0 # w1 # ws"
    and "ws_boot w0 \<noteq> ws_boot w1" "ws_boot w0 \<noteq> 0" "ws_boot w1 \<noteq> 0" "gen \<noteq> 0" "\<not> gen_is_null topo"
    and "find_group (StrongId gid) (Generation gen) (co_runtime c) = None"
  shows "\<exists>g c' w0' w1'. form_group w gid gen topo c = (Inr (), c') \<and>
    find_group (StrongId gid) (Generation gen) (co_runtime c') = Some g \<and>
    boots g = {StrongId (ws_boot w0), StrongId (ws_boot w1)} \<and> pair_of gid gen g \<and> cg_rank_count g = 2 \<and>
    raw (rank_of_boot g (ws_boot w0)) = (if ws_boot w1 < ws_boot w0 then 1 else 0) \<and>
    raw (rank_of_boot g (ws_boot w1)) = (if ws_boot w1 < ws_boot w0 then 0 else 1) \<and>
    co_workers c' = w0' # w1' # ws \<and> alike w0 w0' \<and> alike w1 w1' \<and>
    ws_channel w0' = ws_channel w0 \<and> ws_channel w1' = ws_channel w1 \<and> co_pending c' = co_pending c \<and>
    co_files c' = co_files c \<and> co_saves c' = co_saves c \<and>
    rt_groups (co_runtime c') = om_put (StrongId gid, Generation gen) g (rt_groups (co_runtime c)) \<and>
    rt_authority (co_runtime c') = rt_authority (co_runtime c) \<and>
    rt_measurements (co_runtime c') = rt_measurements (co_runtime c)"
proof -
  have reg: "register_group g rt = (Inr g, rt\<lparr>rt_groups := om_put (StrongId gid, Generation gen) g (rt_groups rt)\<rparr>)"
    if "cg_id g = StrongId gid" "cg_generation g = Generation gen"
      "om_find (rt_groups rt) (StrongId gid, Generation gen) = None" for g rt
    using that by (simp add: register_group_def group_key_of_def)
  let ?src = "fst (make_source (rt_source_counter (co_runtime c)) (sr_clock w (co_readings c)) ''multiprocess group'' ProvenanceKind.DERIVED)"
  show ?thesis
  proof (cases "ws_boot w1 < ws_boot w0")
    case True
    obtain g where "fst (build (add_member (ws_boot w0) (ws_boot w0) 1 (add_member (ws_boot w1) (ws_boot w1) 0
        (group_builder gid gen topo ?src)))) = Inr g"
      "boots g = {StrongId (ws_boot w1), StrongId (ws_boot w0)}" "pair_of gid gen g" "cg_id g = StrongId gid" "cg_generation g = Generation gen"
      "cg_rank_count g = 2" "rank_of_boot g (ws_boot w1) = StrongId 0" "rank_of_boot g (ws_boot w0) = StrongId 1"
      using True pair_builder_builds [of "ws_boot w1" "ws_boot w0" gen topo gid ?src] assms by auto
    with True show ?thesis
      using assms by (auto simp: form_group_def run_simps reg find_group_def alike_def)
  next
    case False
    then have lt: "ws_boot w0 < ws_boot w1" using assms(2) by simp
    obtain g where "fst (build (add_member (ws_boot w1) (ws_boot w1) 1 (add_member (ws_boot w0) (ws_boot w0) 0
        (group_builder gid gen topo ?src)))) = Inr g"
      "boots g = {StrongId (ws_boot w0), StrongId (ws_boot w1)}" "pair_of gid gen g" "cg_id g = StrongId gid" "cg_generation g = Generation gen"
      "cg_rank_count g = 2" "rank_of_boot g (ws_boot w0) = StrongId 0" "rank_of_boot g (ws_boot w1) = StrongId 1"
      using lt pair_builder_builds [of "ws_boot w0" "ws_boot w1" gen topo gid ?src] assms by auto
    with False show ?thesis
      using assms by (auto simp: form_group_def run_simps reg find_group_def alike_def)
  qed
qed


lemma announce_result:
  assumes "find_group (StrongId gid) (Generation gen) (co_runtime c) = Some g"
  shows "\<exists>c'. announce tag gid gen c = (Inr (), c') \<and> list_all2 alike (co_workers c) (co_workers c') \<and> same_books c c'"
proof -
  have one: "\<exists>c2. announce_to tag gid gen i c1 = (Inr (), c2) \<and> list_all2 alike (co_workers c1) (co_workers c2) \<and> same_books c1 c2"
    if "co_runtime c1 = co_runtime c" for i c1
    using that assms
    by (cases "i < length (co_workers c1)")
      (auto simp: announce_to_def run_simps same_books_def list_all2_conv_all_nth alike_def nth_list_update list_update_beyond)
  have "\<exists>c2. for_each (announce_to tag gid gen) is c1 = (Inr (), c2) \<and> list_all2 alike (co_workers c1) (co_workers c2) \<and> same_books c1 c2"
    if "co_runtime c1 = co_runtime c" for "is" c1
    using that
  proof (induction "is" arbitrary: c1)
    case Nil
    then show ?case by (simp add: give_def alike_def list_all2_refl same_books_def)
  next
    case (Cons i "is")
    obtain c2 where 1: "announce_to tag gid gen i c1 = (Inr (), c2)" "list_all2 alike (co_workers c1) (co_workers c2)" "same_books c1 c2"
      using one [OF Cons.prems] by blast
    have "co_runtime c2 = co_runtime c" using 1(3) Cons.prems by (simp add: same_books_def)
    from Cons.IH [OF this] obtain c3 where 2: "for_each (announce_to tag gid gen) is c2 = (Inr (), c3)" "list_all2 alike (co_workers c2) (co_workers c3)" "same_books c2 c3"
      by blast
    have "for_each (announce_to tag gid gen) (i # is) c1 = (Inr (), c3)"
      unfolding for_each.simps by (subst seq_def) (simp only: 1 2 prod.case sum.case)
    then show ?case using alikes_trans [OF 1(2) 2(2)] 1(3) 2(3) by (auto simp: same_books_def)
  qed
  from this [of c] show ?thesis by (simp add: announce_def worker_indices_def seq_look)
qed

lemma save_state_result:
  assumes "sr_disk w (co_saves c) = Io_ok"
  shows "\<exists>c'. save_state w path c = (Inr (), c') \<and> co_runtime c' = co_runtime c \<and> co_workers c' = co_workers c \<and>
    co_log c' = co_log c \<and> co_files c' path = Some (store_frame (build_state (sr_clock w (co_readings c)) (co_runtime c)))"
  using assms by (simp add: save_state_def act_simps)

lemma stale_replay_result:
  "\<exists>c'. stale_replay c = (Inr (), c') \<and> co_workers c' = co_workers c \<and> same_books c c'"
  unfolding stale_replay_def boot_of_def seq_look Let_def seq_def for_each_log
  by (simp add: logline_def change_def look_def same_books_def)

lemma regroup_phases_result:
  assumes "co_workers c = [w0, w1]" "co_pending c = Some ch # rest"
    and "fst (channel_recv ch) = Inr (frame HELLO (enc_boot_name boot name))" "length name < 2 ^ 64"
    and "ws_boot w0 \<noteq> ws_boot w1" "ws_boot w0 \<noteq> 0" "ws_boot w1 \<noteq> 0" "\<not> gen_is_null topo"
    and "find_group (StrongId 1) (Generation 2) (co_runtime c) = None"
  shows "\<exists>c' g. regroup_phases w topo c = (Inr (), c') \<and> find_group (StrongId 1) (Generation 2) (co_runtime c') = Some g \<and>
    boots g = {StrongId (ws_boot w0), StrongId (ws_boot w1)} \<and>
    rt_groups (co_runtime c') = om_put (StrongId 1, Generation 2) g (rt_groups (co_runtime c)) \<and>
    gt_epoch (rt_authority (co_runtime c')) = gt_epoch (rt_authority (co_runtime c)) \<and>
    2 \<le> length (co_workers c') \<and> alike w0 (co_workers c' ! 0) \<and> alike w1 (co_workers c' ! 1) \<and>
    rt_measurements (co_runtime c') = rt_measurements (co_runtime c)"
proof -
  obtain wn c1 where 1: "accept_replacement c = (Inr (), c1)" "co_workers c1 = [w0, w1, wn]" "same_books c c1"
    using accept_replacement_result [OF assms(2-4)] assms(1) by auto
  have new: "find_group (StrongId 1) (Generation 2) (co_runtime c1) = None" using 1(3) assms(9) by (simp add: same_books_def)
  obtain g c2 w0' w1' where 2: "form_group w 1 2 topo c1 = (Inr (), c2)"
    "find_group (StrongId 1) (Generation 2) (co_runtime c2) = Some g" "boots g = {StrongId (ws_boot w0), StrongId (ws_boot w1)}"
    "co_workers c2 = [w0', w1', wn]" "alike w0 w0'" "alike w1 w1'"
    "rt_groups (co_runtime c2) = om_put (StrongId 1, Generation 2) g (rt_groups (co_runtime c1))"
    "rt_authority (co_runtime c2) = rt_authority (co_runtime c1)"
    "rt_measurements (co_runtime c2) = rt_measurements (co_runtime c1)"
    using form_group_result [OF 1(2) assms(5-7) _ assms(8) new, of w] by auto
  obtain c3 where 3: "announce ''COORD REGEN '' 1 2 c2 = (Inr (), c3)" "list_all2 alike (co_workers c2) (co_workers c3)" "same_books c2 c3"
    using announce_result [OF 2(2)] by blast
  have len: "length (co_workers c3) = 3" using 3(2) 2(4) by (auto dest: list_all2_lengthD)
  have al: "alike w0 (co_workers c3 ! 0)" "alike w1 (co_workers c3 ! 1)"
    using list_all2_nthD [OF 3(2), of 0] list_all2_nthD [OF 3(2), of 1] 2(4-6) alike_trans by auto
  show ?thesis
    using 1 2 3 len al
    by (simp add: regroup_phases_def set_authority_def same_books_def seq_def boot_of_def look_def on_runtime_def
        set_live_boot_def op_simps change_def logline_def find_group_def)
qed

lemma final_phases_result:
  assumes "2 \<le> length (co_workers c)" "dead (ws_channel (co_workers c ! 0)) \<or> dead (ws_channel (co_workers c ! 1))"
    and "\<And>n. sr_disk w n = Io_ok"
  shows "\<exists>c' now. final_phases w path topo c = (Inr (), c') \<and> rt_groups (co_runtime c') = rt_groups (co_runtime c) \<and>
    rt_authority (co_runtime c') = rt_authority (co_runtime c) \<and>
    rt_measurements (co_runtime c') = rt_measurements (co_runtime c) \<and>
    co_files c' path = Some (store_frame (build_state now (co_runtime c'))) \<and>
    {''PHASE_ALLREDUCE_DONE gen=2'', ''PHASE_DONE''} \<subseteq> set (co_log c')"
proof -
  obtain c1 where 1: "save_state w (path @ ''.before2'') c = (Inr (), c1)" "co_runtime c1 = co_runtime c" "co_workers c1 = co_workers c"
    using save_state_result [of w c "path @ ''.before2''"] assms(3) by blast
  obtain b c2 where 2: "run_allreduce w topo 2 ''PHASE_ALLREDUCE2'' False c1 = (Inr b, c2)" "unchanged_process c1 c2"
    "rt_measurements (co_runtime c2) = rt_measurements (co_runtime c1)"
    using run_allreduce_dead [of c1 w topo 2 "''PHASE_ALLREDUCE2''" False] assms(1,2) 1(3) by auto
  let ?c2 = "c2\<lparr>co_log := co_log c2 @ [''PHASE_ALLREDUCE_DONE gen=2'']\<rparr>"
  obtain c3 where 3: "save_state w path ?c2 = (Inr (), c3)" "co_runtime c3 = co_runtime ?c2" "co_log c3 = co_log ?c2"
    "co_files c3 path = Some (store_frame (build_state (sr_clock w (co_readings ?c2)) (co_runtime ?c2)))"
    using save_state_result [of w ?c2 path] assms(3) by blast
  show ?thesis
    using 1 2 3 by (auto simp: final_phases_def seq_def logline_def change_def unchanged_process_def)
qed

lemma alike_keeps:
  assumes "alike w w'"
  shows "ws_boot w' = ws_boot w" "fc_valid (ws_channel w') = fc_valid (ws_channel w)" "dead (ws_channel w) \<Longrightarrow> dead (ws_channel w')"
  using assms by (simp_all add: alike_def)

text \<open>From the loss to the end: what the runtime and the file hold.\<close>

lemma closing_phases_result:
  assumes "co_workers c = [w0, w1]" "fc_valid (ws_channel w0)" "fc_valid (ws_channel w1)"
    and "dead (ws_channel w0) \<or> dead (ws_channel w1)"
    and "co_pending c = Some ch # rest"
    and "fst (channel_recv ch) = Inr (frame HELLO (enc_boot_name boot name))" "length name < 2 ^ 64"
    and "ws_boot w0 \<noteq> ws_boot w1" "ws_boot w0 \<noteq> 0" "ws_boot w1 \<noteq> 0" "\<not> gen_is_null topo"
    and "find_group (StrongId 1) (Generation 2) (co_runtime c) = None"
    and "\<And>n. sr_disk w n = Io_ok"
  shows "\<exists>c' g now. closing_phases w path topo c = (Inr (), c') \<and>
    find_group (StrongId 1) (Generation 2) (co_runtime c') = Some g \<and>
    boots g = {StrongId (ws_boot w0), StrongId (ws_boot w1)} \<and>
    rt_groups (co_runtime c') = om_put (StrongId 1, Generation 2) g (rt_groups (co_runtime c)) \<and>
    gt_epoch (rt_authority (co_runtime c')) = gen_next (gt_epoch (rt_authority (co_runtime c))) \<and>
    rt_measurements (co_runtime c') = rt_measurements (co_runtime c) \<and>
    co_files c' path = Some (store_frame (build_state now (co_runtime c'))) \<and>
    {''PHASE_ALLREDUCE_DONE gen=2'', ''PHASE_DONE''} \<subseteq> set (co_log c')"
proof -
  obtain c1 v0 v1 where 1: "loss_phases w topo c = (Inr (), c1)" "co_workers c1 = [v0, v1]" "alike w0 v0" "alike w1 v1"
    "co_pending c1 = co_pending c" "rt_groups (co_runtime c1) = rt_groups (co_runtime c)"
    "gt_epoch (rt_authority (co_runtime c1)) = gen_next (gt_epoch (rt_authority (co_runtime c)))"
    "rt_measurements (co_runtime c1) = rt_measurements (co_runtime c)"
    using loss_phases_result [OF assms(1-4), of w topo] by blast
  note keeps = alike_keeps [OF 1(3)] alike_keeps [OF 1(4)]
  have pending: "co_pending c1 = Some ch # rest" using 1(5) assms(5) by simp
  have no_group: "find_group (StrongId 1) (Generation 2) (co_runtime c1) = None" 
    using 1(6) assms(12) by (simp add: find_group_def)
  obtain c2 g where 2: "regroup_phases w topo c1 = (Inr (), c2)" "find_group (StrongId 1) (Generation 2) (co_runtime c2) = Some g"
    "boots g = {StrongId (ws_boot v0), StrongId (ws_boot v1)}" "2 \<le> length (co_workers c2)"
    "alike v0 (co_workers c2 ! 0)" "alike v1 (co_workers c2 ! 1)"
    "rt_groups (co_runtime c2) = om_put (StrongId 1, Generation 2) g (rt_groups (co_runtime c1))"
    "gt_epoch (rt_authority (co_runtime c2)) = gt_epoch (rt_authority (co_runtime c1))"
    "rt_measurements (co_runtime c2) = rt_measurements (co_runtime c1)"
    using regroup_phases_result [OF 1(2) pending assms(6,7) _ _ _ assms(11) no_group, of w] assms(8-10) keeps by auto
  obtain c3 where 3: "stale_replay c2 = (Inr (), c3)" "co_workers c3 = co_workers c2" "same_books c2 c3"
    using stale_replay_result [of c2] by blast
  have dead3: "dead (ws_channel (co_workers c3 ! 0)) \<or> dead (ws_channel (co_workers c3 ! 1))"
    using assms(4) keeps(3) keeps(6) alike_keeps(3) [OF 2(5)] alike_keeps(3) [OF 2(6)] 3(2) by metis
  obtain c4 now where 4: "final_phases w path topo c3 = (Inr (), c4)" "rt_groups (co_runtime c4) = rt_groups (co_runtime c3)"
    "rt_authority (co_runtime c4) = rt_authority (co_runtime c3)" "rt_measurements (co_runtime c4) = rt_measurements (co_runtime c3)"
    "co_files c4 path = Some (store_frame (build_state now (co_runtime c4)))"
    "{''PHASE_ALLREDUCE_DONE gen=2'', ''PHASE_DONE''} \<subseteq> set (co_log c4)"
    using final_phases_result [OF _ dead3 assms(13), of path topo] 2(4) 3(2) by auto
  have "closing_phases w path topo c = (Inr (), c4)"
    by (simp add: closing_phases_def seq_def 1(1) 2(1) 3(1) 4(1))
  then show ?thesis
    using 1 2 3 4 keeps by (simp add: find_group_def same_books_def) metis
qed

text \<open>When a worker's connection has died but has not been closed on the coordinator's side, the dead
  worker is not dropped: generation 2 of the group is formed over the dead worker and the survivor, the
  replacement is left out, no measurement is added, and the program still reports the second all-reduce done.\<close>

theorem lost_worker_is_regrouped:
  assumes "co_workers c = [w0, w1]" "fc_valid (ws_channel w0)" "fc_valid (ws_channel w1)"
    and "dead (ws_channel w0) \<or> dead (ws_channel w1)"
    and "co_pending c = Some ch # rest"
    and "fst (channel_recv ch) = Inr (frame HELLO (enc_boot_name boot name))" "length name < 2 ^ 64"
    and "ws_boot w0 \<noteq> ws_boot w1" "ws_boot w0 \<noteq> 0" "ws_boot w1 \<noteq> 0" "\<not> gen_is_null topo"
    and "find_group (StrongId 1) (Generation 2) (co_runtime c) = None"
    and "\<And>n. sr_disk w n = Io_ok"
  shows "\<exists>c' g. closing_phases w path topo c = (Inr (), c') \<and>
    find_group (StrongId 1) (Generation 2) (co_runtime c') = Some g \<and>
    boots g = {StrongId (ws_boot w0), StrongId (ws_boot w1)} \<and>
    rt_measurements (co_runtime c') = rt_measurements (co_runtime c) \<and>
    ''PHASE_ALLREDUCE_DONE gen=2'' \<in> set (co_log c')"
  using closing_phases_result [OF assms, of path] by fastforce

lemma closed_connection_is_dead: "dead (new_channel [])"
  by (simp add: dead_def new_channel_def channel_recv_def recv_frame.simps next_frame_def decode_def)

theorem lost_worker_is_regrouped_witness:
  "\<exists>c' g. closing_phases calm ''s'' (Generation 1)
      ((new_process [Some (new_channel [encode (frame HELLO (enc_boot_name 300 ''n''))])] Map.empty)
        \<lparr>co_workers := [sample_worker 100 [], sample_worker 200 []]\<rparr>) = (Inr (), c') \<and>
    find_group (StrongId 1) (Generation 2) (co_runtime c') = Some g \<and> boots g = {StrongId 100, StrongId 200} \<and>
    rt_measurements (co_runtime c') = [] \<and> ''PHASE_ALLREDUCE_DONE gen=2'' \<in> set (co_log c')"
proof -
  let ?f = "frame HELLO (enc_boot_name 300 ''n'')"
  let ?c = "(new_process [Some (new_channel [encode ?f])] Map.empty)\<lparr>co_workers := [sample_worker 100 [], sample_worker 200 []]\<rparr>"
  have "encodable ?f" by (simp add: encodable_def frame_def enc_boot_name_def)
  moreover have "encode ?f \<noteq> []"
    by (rule notI) (use length_encode [of ?f] in \<open>simp del: length_encode\<close>)
  ultimately have "delivers (new_channel [encode ?f]) [?f]"
    by (intro delivers_new [where rest = "[]"]) auto
  then have hello: "fst (channel_recv (new_channel [encode ?f])) = Inr ?f" by (simp add: delivers_Cons)
  have "rt_measurements (co_runtime ?c) = []" "find_group (StrongId 1) (Generation 2) (co_runtime ?c) = None"
    by (simp_all add: new_process_def new_runtime_def find_group_def)
  then show ?thesis
    using lost_worker_is_regrouped [of ?c "sample_worker 100 []" "sample_worker 200 []" "new_channel [encode ?f]" "[]" 300 "''n''"
      "Generation 1" calm "''s''"] hello closed_connection_is_dead
    by (simp add: new_process_def sample_worker_def new_channel_def calm_def gen_is_null_def)
qed

end
