(* ===== verification/CF_Worker.thy ===== *)
theory CF_Worker
  imports CF_Wire CF_Engine "HOL-Library.Sublist"
begin

unbundle bit_operations_syntax

text \<open>
  The worker process (\<open>tools/worker.cpp\<close>): it joins, reports its claim to the barrier, and answers
  collective requests until the connection ends. Its input is its connection; the text it prints is kept.
  The rendering of a float for \<open>%f\<close> is a parameter, as is the clock that gives a default boot id.
\<close>

section \<open>The process\<close>

record Worker =
  wk_channel :: FrameChannel
  wk_output :: "string list"

text \<open>The program returns a code, sleeps for a day (and then returns 0), or runs into undefined behaviour.\<close>

datatype worker_exit = Returned nat | Asleep | Crashed

definition say :: "string \<Rightarrow> Worker \<Rightarrow> Worker" where
  "say s wk = wk\<lparr>wk_output := wk_output wk @ [''WORKER '' @ s]\<rparr>"

definition tell :: "Frame \<Rightarrow> Worker \<Rightarrow> Worker" where
  "tell f wk = wk\<lparr>wk_channel := channel_send f (wk_channel wk)\<rparr>"

definition hear :: "Worker \<Rightarrow> (string + Frame) \<times> Worker" where
  "hear wk = (case channel_recv (wk_channel wk) of (r, ch) \<Rightarrow> (r, wk\<lparr>wk_channel := ch\<rparr>))"

definition exit_with :: "nat \<Rightarrow> string \<Rightarrow> Worker \<Rightarrow> worker_exit \<times> Worker" where
  "exit_with status s wk = (Returned status, say s wk)"

section \<open>Answering a request\<close>

text \<open>The constants 1, 2, 3, 4 and 10, 20, 30, 40 of rank 0 and of every other rank, as the bytes of four floats.\<close>

definition rank_values :: "u64 \<Rightarrow> bytes" where
  "rank_values rank =
     (if rank = 0 then [0, 0, 0x80, 0x3F, 0, 0, 0, 0x40, 0, 0, 0x40, 0x40, 0, 0, 0x80, 0x40]
      else [0, 0, 0x20, 0x41, 0, 0, 0xA0, 0x41, 0, 0, 0xF0, 0x41, 0, 0, 0x20, 0x42])"

definition contribution_claim :: "u64 \<Rightarrow> Desc \<Rightarrow> AuthClaim" where
  "contribution_claim boot d =
     \<lparr>ac_epoch = 1, ac_boot = boot, ac_group_gen = ds_group_gen d, ac_collective_gen = ds_collective_gen d,
      ac_attempt_gen = ds_attempt_gen d, ac_dispatch_gen = ds_dispatch_gen d\<rparr>"

definition await_result :: "(bytes \<Rightarrow> string) \<Rightarrow> Worker \<Rightarrow> worker_exit option \<times> Worker" where
  "await_result show_float wk =
     (case hear wk of
        (Inl why, wk) \<Rightarrow> (Some (Returned 1), say (''result recv failed '' @ why) wk)
      | (Inr f, wk) \<Rightarrow>
          if fr_kind f \<noteq> RESULT then (Some (Returned 1), say ''expected RESULT'' wk)
          else (case dec_blob (fr_payload f) of
            None \<Rightarrow> (Some (Returned 1), say ''result decode failed'' wk)
          | Some (_, blob) \<Rightarrow>
              if length blob < 4 then (Some Crashed, wk)
              else (None, tell (frame COMPLETE (enc_simple 1 1)) (say (''result[0]='' @ show_float (take 4 blob)) wk))))"

text \<open>More than four elements reach past the constants; the count of served requests is an \<open>int\<close>.\<close>

definition serve_request ::
  "(bytes \<Rightarrow> string) \<Rightarrow> u64 \<Rightarrow> u64 \<Rightarrow> u64 \<Rightarrow> nat \<Rightarrow> bytes \<Rightarrow> Worker \<Rightarrow> worker_exit option \<times> Worker" where
  "serve_request show_float boot stall_after rank index payload wk =
     (case dec_desc payload of
        None \<Rightarrow> (Some (Returned 1), say ''desc decode failed'' wk)
      | Some d \<Rightarrow>
          if stall_after \<le> of_nat index
          then (Some Asleep, say (''STALL boot='' @ to_string boot @ '' index='' @ to_string (of_nat index)) wk)
          else if 4 < ds_element_count d \<or> index = 2 ^ 31 - 1 then (Some Crashed, wk)
          else
            let data = take (4 * unat (ds_element_count d)) (rank_values rank) in
            await_result show_float
              (say (''contributed rank='' @ to_string rank @ '' bytes='' @ to_string (of_nat (length data)))
                (tell (frame CONTRIBUTION (enc_blob (contribution_claim boot d) data)) wk)))"

section \<open>The loop ends\<close>

definition waiting :: "FrameChannel \<Rightarrow> nat" where
  "waiting ch = length (buffer (fc_decoder ch)) + length (concat (fc_incoming ch))"

lemma recv_frame_consumes:
  "recv_frame d net = (Inr f, d', net') \<Longrightarrow>
   length (buffer d') + length (concat net') < length (buffer d) + length (concat net)"
proof (induction d net arbitrary: d' net' rule: recv_frame.induct)
  case (1 d net)
  obtain r e where r: "next_frame d = (r, e)" by fastforce
  show ?case
  proof (cases r)
    case NEED_MORE
    then have "e = d" using r by (auto simp: next_frame_def split: DecodeResult.splits)
    moreover obtain blk rest where net: "net = blk # rest" "blk \<noteq> []"
      using "1.prems" r NEED_MORE by (auto simp: recv_frame.simps [of d net] split: list.splits if_splits)
    moreover from this have "recv_frame (feed blk e) rest = (Inr f, d', net')"
      using "1.prems" r NEED_MORE by (simp add: recv_frame.simps [of d "blk # rest"])
    ultimately show ?thesis
      using "1.IH" [OF r [symmetric] NEED_MORE net(1)] by (fastforce simp: feed_def)
  next
    case (FRAME g n)
    then have "decode (buffer d) = FRAME g n" "buffer e = drop n (buffer d)" "d' = e" "net' = net"
      using r "1.prems" by (auto simp: next_frame_def recv_frame.simps [of d net] split: DecodeResult.splits)
    with decode_sound [of "buffer d" g n] show ?thesis by auto
  next
    case (REJECT why)
    then show ?thesis using r "1.prems" by (simp add: recv_frame.simps [of d net])
  qed
qed

lemma hear_consumes: "hear wk = (Inr f, wk') \<Longrightarrow> waiting (wk_channel wk') < waiting (wk_channel wk)"
  by (auto simp: hear_def channel_recv_def waiting_def dest!: recv_frame_consumes split: prod.splits)

lemma waiting_tell [simp]:
  "waiting (wk_channel (tell f wk)) = waiting (wk_channel wk)" "waiting (wk_channel (say s wk)) = waiting (wk_channel wk)"
  by (simp_all add: waiting_def tell_def channel_send_def say_def)

lemma serve_request_consumes:
  "serve_request sf boot st rank i p wk = (None, wk') \<Longrightarrow> waiting (wk_channel wk') < waiting (wk_channel wk)"
  by (auto simp: serve_request_def await_result_def Let_def dest!: hear_consumes
      split: option.splits if_splits prod.splits sum.splits)

function worker_loop ::
  "(bytes \<Rightarrow> string) \<Rightarrow> u64 \<Rightarrow> u64 \<Rightarrow> u64 \<Rightarrow> nat \<Rightarrow> Worker \<Rightarrow> worker_exit \<times> Worker" where
  "worker_loop show_float boot stall_after rank index wk =
     (case hear wk of
        (Inl why, wk1) \<Rightarrow>
          if why = ''connection closed'' \<or> sublist ''closed'' why then exit_with 0 ''coordinator closed'' wk1
          else exit_with 1 (''recv failed '' @ why) wk1
      | (Inr f, wk1) \<Rightarrow>
          if fr_kind f = REQUEST_COLLECTIVE then
            (case serve_request show_float boot stall_after rank index (fr_payload f) wk1 of
               (Some e, wk2) \<Rightarrow> (e, wk2)
             | (None, wk2) \<Rightarrow> worker_loop show_float boot stall_after rank (index + 1) wk2)
          else if fr_kind f = COMPLETE then
            worker_loop show_float boot stall_after rank index (say ''complete ack'' wk1)
          else if fr_kind f = ERROR_MSG then exit_with 1 ''error'' wk1
          else worker_loop show_float boot stall_after rank index wk1)"
  by pat_completeness auto
termination
proof (relation "measure (\<lambda>(_, _, _, _, _, wk). waiting (wk_channel wk))", goal_cases)
  case (2 show_float boot stall_after rank index wk x wk1 f p wk2)
  then have "hear wk = (Inr f, wk1)" "serve_request show_float boot stall_after rank index (fr_payload f) wk1 = (None, wk2)"
    by simp_all
  then show ?case using hear_consumes serve_request_consumes by (fastforce intro: less_trans)
next
  case (3 show_float boot stall_after rank index wk x wk1 f)
  then have "hear wk = (Inr f, wk1)" by simp
  then show ?case by (auto dest: hear_consumes)
next
  case (4 show_float boot stall_after rank index wk x wk1 f)
  then have "hear wk = (Inr f, wk1)" by simp
  then show ?case by (auto dest: hear_consumes)
qed simp

declare worker_loop.simps [simp del]

section \<open>The program\<close>

definition run_worker ::
  "(bytes \<Rightarrow> string) \<Rightarrow> string option \<Rightarrow> string \<Rightarrow> u64 \<Rightarrow> u64 \<Rightarrow> Worker \<Rightarrow> worker_exit \<times> Worker" where
  "run_worker show_float connect_error name boot stall_after wk =
     (case connect_error of
        Some err \<Rightarrow> exit_with 1 (''connect failed '' @ err) wk
      | None \<Rightarrow>
          let wk1 = tell (frame JOIN_GROUP (enc_auth (no_claim\<lparr>ac_epoch := 1, ac_boot := boot, ac_group_gen := 1\<rparr>)))
                (tell (frame HELLO (enc_boot_name boot name)) wk)
          in case hear wk1 of
            (Inl why, wk2) \<Rightarrow> exit_with 1 (''group_accept failed '' @ why) wk2
          | (Inr acc, wk2) \<Rightarrow>
              (case dec_rank_accept (fr_payload acc) of
                 None \<Rightarrow> exit_with 1 ''accept decode failed'' wk2
               | Some (rank, rank_count, group_id, group_gen) \<Rightarrow>
                   let wk3 = tell (frame ProtocolMessageKind.BARRIER
                           (enc_auth (no_claim\<lparr>ac_epoch := 1, ac_boot := boot, ac_group_gen := group_gen\<rparr>)))
                         (say (''boot='' @ to_string boot @ '' rank='' @ to_string rank @ '' rank_count='' @
                               to_string rank_count @ '' gen='' @ to_string group_gen) wk2);
                       (ack, wk4) = hear wk3;
                       wk5 = (case ack of
                           Inr f \<Rightarrow> if fr_kind f = COMPLETE then say ''barrier done'' wk4 else wk4
                         | Inl why \<Rightarrow> wk4)
                   in worker_loop show_float boot stall_after rank 0 wk5))"

text \<open>The boot id: the one given, or the clock mixed with the FNV-1a hash of the name.\<close>

definition name_hash :: "string \<Rightarrow> u64" where
  "name_hash name = foldl (\<lambda>h b. (h XOR ucast b) * 1099511628211) 1469598103934665603 (string_bytes name)"

definition pick_boot :: "u64 \<Rightarrow> string \<Rightarrow> u64 \<Rightarrow> u64" where
  "pick_boot boot name clock = (if boot = 0 then clock XOR name_hash name else boot)"

section \<open>Connections that end\<close>

fun ends_after :: "FrameChannel \<Rightarrow> Frame list \<Rightarrow> bool" where
  "ends_after ch [] = (fst (channel_recv ch) = Inl ''connection closed'')"
| "ends_after ch (f # fs) = (fst (channel_recv ch) = Inr f \<and> ends_after (snd (channel_recv ch)) fs)"

lemma ends_after_send [simp]: "ends_after (channel_send f ch) fs = ends_after ch fs"
  by (induction fs arbitrary: ch) simp_all

lemma ends_after_delivers: "ends_after ch fs \<Longrightarrow> delivers ch fs"
  by (induction fs arbitrary: ch) (simp add: delivers_def, simp add: delivers_Cons)

lemma ends_after_stream:
  assumes "buffer (fc_decoder ch) @ concat (fc_incoming ch) = concat (map encode fs)"
    and "[] \<notin> set (fc_incoming ch)" "\<forall>f \<in> set fs. encodable f"
  shows "ends_after ch fs"
  using assms
proof (induction fs arbitrary: ch)
  case Nil
  then have "buffer (fc_decoder ch) = []" "fc_incoming ch = []" by (cases "fc_incoming ch"; auto)+
  then show ?case by (simp add: channel_recv_def recv_frame.simps next_frame_def decode_def)
next
  case (Cons f fs)
  then obtain d net where r: "recv_frame (fc_decoder ch) (fc_incoming ch) = (Inr f, d, net)"
    "buffer d @ concat net = concat (map encode fs)" "[] \<notin> set net"
    using recv_frame_ok [of f "fc_decoder ch" "fc_incoming ch" "concat (map encode fs)"] by auto
  then have "channel_recv ch = (Inr f, ch\<lparr>fc_decoder := d, fc_incoming := net\<rparr>)" by (simp add: channel_recv_def)
  moreover have "ends_after (ch\<lparr>fc_decoder := d, fc_incoming := net\<rparr>) fs"
    using r Cons.prems(3) by (intro Cons.IH) simp_all
  ultimately show ?case by simp
qed

section \<open>A worker in service\<close>

named_theorems worker_simps "one step of the worker"

lemma hear_eq [worker_simps]:
  "hear wk = (fst (channel_recv (wk_channel wk)), wk\<lparr>wk_channel := snd (channel_recv (wk_channel wk))\<rparr>)"
  by (simp add: hear_def split: prod.split)

lemmas [worker_simps] = say_def tell_def exit_with_def

type_synonym exchange = "Desc \<times> AuthClaim \<times> bytes"

text \<open>What a worker hears and what it says in one collective.\<close>

definition heard :: "exchange \<Rightarrow> Frame list" where
  "heard = (\<lambda>(d, a, blob). [frame REQUEST_COLLECTIVE (enc_desc d), frame RESULT (enc_blob a blob)])"

definition contribution_of :: "u64 \<Rightarrow> u64 \<Rightarrow> Desc \<Rightarrow> Frame" where
  "contribution_of boot rank d = frame CONTRIBUTION
     (enc_blob (contribution_claim boot d) (take (4 * unat (ds_element_count d)) (rank_values rank)))"

definition said :: "u64 \<Rightarrow> u64 \<Rightarrow> exchange \<Rightarrow> Frame list" where
  "said boot rank = (\<lambda>(d, a, blob). [contribution_of boot rank d, frame COMPLETE (enc_simple 1 1)])"

definition joining :: "string \<Rightarrow> u64 \<Rightarrow> u64 \<Rightarrow> Frame list" where
  "joining name boot gen =
     [frame HELLO (enc_boot_name boot name), frame JOIN_GROUP (enc_auth (no_claim\<lparr>ac_epoch := 1, ac_boot := boot, ac_group_gen := 1\<rparr>)),
      frame ProtocolMessageKind.BARRIER (enc_auth (no_claim\<lparr>ac_epoch := 1, ac_boot := boot, ac_group_gen := gen\<rparr>))]"

definition answerable :: "exchange \<Rightarrow> bool" where
  "answerable = (\<lambda>(d, a, blob). ds_element_count d \<le> 4 \<and> 4 \<le> length blob \<and> length blob < 2 ^ 64)"

lemma serve_request_ok:
  assumes "delivers (wk_channel wk) [frame RESULT (enc_blob a blob)]" "answerable (d, a, blob)" "i < unat st" "i < 2 ^ 31 - 1"
  shows "\<exists>wk'. serve_request sf boot st rank i (enc_desc d) wk = (None, wk') \<and>
    fc_sent (wk_channel wk') = fc_sent (wk_channel wk) @ map encode (said boot rank (d, a, blob)) \<and>
    (\<forall>fs. ends_after (wk_channel wk') fs = ends_after (snd (channel_recv (wk_channel wk))) fs)"
proof -
  have "\<not> st \<le> of_nat i" using assms(3) by (simp add: word_le_nat_alt unat_of_nat_u64 not_le order.strict_trans)
  moreover have "\<not> 4 < ds_element_count d" "4 \<le> length blob" "length blob < 2 ^ 64"
    using assms(2) by (simp_all add: answerable_def not_less)
  ultimately show ?thesis
    using assms(1,4)
    by (simp add: serve_request_def await_result_def worker_simps delivers_Cons said_def contribution_of_def Let_def not_less
        del: One_nat_def)
qed

lemma worker_loop_serves:
  assumes "ends_after (wk_channel wk) (concat (map heard qs))" "list_all answerable qs"
    and "i + length qs \<le> unat st" "i + length qs < 2 ^ 31"
  shows "\<exists>wk'. worker_loop sf boot st rank i wk = (Returned 0, wk') \<and>
    fc_sent (wk_channel wk') = fc_sent (wk_channel wk) @ map encode (concat (map (said boot rank) qs))"
  using assms
proof (induction qs arbitrary: i wk)
  case Nil
  then show ?case by (simp add: worker_loop.simps [of _ _ _ _ _ wk] worker_simps)
next
  case (Cons q qs)
  obtain d a blob where q: "q = (d, a, blob)" by (metis prod_cases3)
  let ?wk = "wk\<lparr>wk_channel := snd (channel_recv (wk_channel wk))\<rparr>"
  have 1: "fst (channel_recv (wk_channel wk)) = Inr (frame REQUEST_COLLECTIVE (enc_desc d))"
    "ends_after (wk_channel ?wk) (frame RESULT (enc_blob a blob) # concat (map heard qs))"
    using Cons.prems(1) by (simp_all add: q heard_def)
  then have "delivers (wk_channel ?wk) [frame RESULT (enc_blob a blob)]" by (simp add: delivers_Cons)
  then obtain wk' where 2: "serve_request sf boot st rank i (enc_desc d) ?wk = (None, wk')"
    "fc_sent (wk_channel wk') = fc_sent (wk_channel ?wk) @ map encode (said boot rank q)"
    "ends_after (wk_channel wk') (concat (map heard qs))"
    using serve_request_ok [of ?wk a blob d i st sf boot rank] Cons.prems 1(2) by (auto simp: q)
  obtain wk'' where "worker_loop sf boot st rank (i + 1) wk' = (Returned 0, wk'')"
    "fc_sent (wk_channel wk'') = fc_sent (wk_channel wk') @ map encode (concat (map (said boot rank) qs))"
    using Cons.IH [OF 2(3), of "i + 1"] Cons.prems by auto
  with 1 2 show ?case by (simp add: worker_loop.simps [of _ _ _ _ _ wk] worker_simps)
qed

lemma run_worker_joins:
  assumes "ends_after (wk_channel wk) (frame GROUP_ACCEPT (enc_rank_accept rank n gid gen) # frame COMPLETE p # fs)"
  shows "\<exists>wk1. run_worker show_float None name boot stall_after wk = worker_loop show_float boot stall_after rank 0 wk1 \<and>
    fc_sent (wk_channel wk1) = fc_sent (wk_channel wk) @ map encode (joining name boot gen) \<and> ends_after (wk_channel wk1) fs"
proof -
  let ?c2 = "fold channel_send (joining name boot gen) (snd (channel_recv (snd (channel_recv (wk_channel wk)))))"
  obtain out where "run_worker show_float None name boot stall_after wk = worker_loop show_float boot stall_after rank 0
      (wk\<lparr>wk_channel := ?c2, wk_output := out\<rparr>)"
    using assms by (simp add: run_worker_def worker_simps joining_def Let_def)
  moreover have "ends_after ?c2 fs" "fc_sent ?c2 = fc_sent (wk_channel wk) @ map encode (joining name boot gen)"
    using assms by (simp_all add: joining_def)
  ultimately show ?thesis by (intro exI [of _ "wk\<lparr>wk_channel := ?c2, wk_output := out\<rparr>"]) simp
qed

section \<open>Properties\<close>

text \<open>C23: a worker that is accepted at a rank and whose requests ask for at most four elements joins, enters the
  barrier with its boot id and the group generation it was given, answers every request of the connection in
  turn with the constants of its rank under the claim of the request, acknowledges each result, and returns 0
  when the connection is closed.\<close>

theorem worker_answers_requests:
  assumes "ends_after (wk_channel wk) (frame GROUP_ACCEPT (enc_rank_accept rank n gid gen) # frame COMPLETE p #
      concat (map heard qs))"
    and "list_all answerable qs" "length qs \<le> unat stall_after" "length qs < 2 ^ 31"
  shows "\<exists>wk'. run_worker show_float None name boot stall_after wk = (Returned 0, wk') \<and>
    fc_sent (wk_channel wk') = fc_sent (wk_channel wk) @
      map encode (joining name boot gen @ concat (map (said boot rank) qs))"
proof -
  obtain wk1 where wk1: "run_worker show_float None name boot stall_after wk = worker_loop show_float boot stall_after rank 0 wk1"
    "fc_sent (wk_channel wk1) = fc_sent (wk_channel wk) @ map encode (joining name boot gen)"
    "ends_after (wk_channel wk1) (concat (map heard qs))"
    using run_worker_joins [OF assms(1)] by blast
  with worker_loop_serves [OF wk1(3) assms(2), of 0 stall_after show_float boot rank] assms(3,4) show ?thesis by auto
qed

definition new_worker :: "bytes list \<Rightarrow> Worker" where
  "new_worker net = \<lparr>wk_channel = new_channel net, wk_output = []\<rparr>"

definition sample_desc :: Desc where
  "sample_desc =
     \<lparr>ds_kind = 3, ds_datatype = 3, ds_reduction = 0, ds_element_count = 1, ds_root = 0, ds_rank_count = 2,
      ds_group_id = 1, ds_group_gen = 1, ds_collective_gen = 1, ds_epoch = 2, ds_attempt_gen = 1, ds_dispatch_gen = 1\<rparr>"

theorem worker_answers_requests_witness:
  "\<exists>wk'. run_worker (\<lambda>_. []) None ''A'' 5 9 (new_worker (map encode
       [frame GROUP_ACCEPT (enc_rank_accept 0 2 1 1), frame COMPLETE [], frame REQUEST_COLLECTIVE (enc_desc sample_desc),
        frame RESULT (enc_blob no_claim [0, 0, 0x80, 0x3F])])) = (Returned 0, wk') \<and>
    fc_sent (wk_channel wk') = map encode (joining ''A'' 5 1 @ said 5 0 (sample_desc, no_claim, [0, 0, 0x80, 0x3F]))"
proof -
  let ?q = "(sample_desc, no_claim, [0, 0, 0x80, 0x3F])"
  have "ends_after (wk_channel (new_worker (map encode (frame GROUP_ACCEPT (enc_rank_accept 0 2 1 1) # frame COMPLETE [] #
      concat (map heard [?q]))))) (frame GROUP_ACCEPT (enc_rank_accept 0 2 1 1) # frame COMPLETE [] # concat (map heard [?q]))"
    by (rule ends_after_stream) (auto simp: new_worker_def new_channel_def heard_def encodable_def)
  from worker_answers_requests [OF this, of 9 "\<lambda>_. []" "''A''" 5] show ?thesis
    by (simp add: answerable_def sample_desc_def heard_def new_worker_def new_channel_def)
qed

text \<open>A worker that has contributed and is then told of a regrouping instead of the result gives up with
  code 1: it never learns its new rank.\<close>

theorem regrouping_ends_a_contributor:
  assumes "delivers (wk_channel wk) [frame GROUP_ACCEPT (enc_rank_accept rank n gid gen), frame COMPLETE p,
      frame REQUEST_COLLECTIVE (enc_desc d), frame GROUP_ACCEPT q]"
    and "ds_element_count d \<le> 4" "0 < stall_after"
  shows "\<exists>wk'. run_worker show_float None name boot stall_after wk = (Returned 1, wk') \<and>
    last (wk_output wk') = ''WORKER expected RESULT''"
  using assms by (simp add: run_worker_def worker_loop.simps [of _ _ _ _ _ "_ :: Worker"] serve_request_def await_result_def worker_simps delivers_Cons Let_def not_less)

theorem regrouping_ends_a_contributor_witness:
  "\<exists>wk'. run_worker (\<lambda>_. []) None ''B'' 5 9 (new_worker (map encode
       [frame GROUP_ACCEPT (enc_rank_accept 1 2 1 1), frame COMPLETE [], frame REQUEST_COLLECTIVE (enc_desc sample_desc),
        frame GROUP_ACCEPT (enc_rank_accept 0 2 1 2)])) = (Returned 1, wk') \<and>
    last (wk_output wk') = ''WORKER expected RESULT''"
proof -
  let ?fs = "[frame GROUP_ACCEPT (enc_rank_accept 1 2 1 1), frame COMPLETE [], frame REQUEST_COLLECTIVE (enc_desc sample_desc),
    frame GROUP_ACCEPT (enc_rank_accept 0 2 1 2)]"
  have "delivers (wk_channel (new_worker (map encode ?fs))) ?fs"
    unfolding new_worker_def by (simp del: list.map) (rule delivers_new [where rest = "[]"], auto simp: encodable_def)
  from regrouping_ends_a_contributor [OF this, of 9 "\<lambda>_. []" "''B''" 5] show ?thesis
    by (simp add: sample_desc_def)
qed

end
