(* ===== verification/CF_Waiting.thy ===== *)
theory CF_Waiting
  imports CF_Worker CF_Closure
begin

text \<open>
  The coordinator's first phases over connections that hold only some of the frames of their workers: how far
  each phase gets and what has been sent by then.
\<close>

section \<open>Connections that run dry\<close>

text \<open>Exactly these frames are still to come; after them a receive finds nothing and changes nothing.\<close>

fun drains :: "FrameChannel \<Rightarrow> Frame list \<Rightarrow> bool" where
  "drains ch [] = (buffer (fc_decoder ch) = [] \<and> fc_incoming ch = [])"
| "drains ch (f # fs) = (fst (channel_recv ch) = Inr f \<and> drains (snd (channel_recv ch)) fs)"

lemma recv_dry [simp]:
  "buffer (fc_decoder ch) = [] \<Longrightarrow> fc_incoming ch = [] \<Longrightarrow> channel_recv ch = (Inl ''connection closed'', ch)"
  by (simp add: channel_recv_def recv_frame.simps next_frame_def decode_def)

lemma send_keeps [simp]: "fc_decoder (channel_send f ch) = fc_decoder ch" "fc_incoming (channel_send f ch) = fc_incoming ch"
  by (simp_all add: channel_send_def)

lemma drains_send [simp]: "drains (channel_send f ch) fs = drains ch fs"
  by (induction fs arbitrary: ch) simp_all

lemma drains_stream:
  assumes "buffer (fc_decoder ch) @ concat (fc_incoming ch) = concat (map encode fs)"
    and "[] \<notin> set (fc_incoming ch)" "\<forall>f \<in> set fs. encodable f"
  shows "drains ch fs"
  using assms
proof (induction fs arbitrary: ch)
  case Nil
  then show ?case by (cases "fc_incoming ch"; auto)
next
  case (Cons f fs)
  then obtain d net where r: "recv_frame (fc_decoder ch) (fc_incoming ch) = (Inr f, d, net)"
    "buffer d @ concat net = concat (map encode fs)" "[] \<notin> set net"
    using recv_frame_ok [of f "fc_decoder ch" "fc_incoming ch" "concat (map encode fs)"] by auto
  then have "channel_recv ch = (Inr f, ch\<lparr>fc_decoder := d, fc_incoming := net\<rparr>)" by (simp add: channel_recv_def)
  moreover have "drains (ch\<lparr>fc_decoder := d, fc_incoming := net\<rparr>) fs"
    using r Cons.prems(3) by (intro Cons.IH) simp_all
  ultimately show ?case by simp
qed

lemma drains_new: "\<forall>f \<in> set fs. encodable f \<Longrightarrow> drains (new_channel (map encode fs)) fs"
  by (rule drains_stream) (auto simp: new_channel_def)

section \<open>The scripts of the first phases\<close>

text \<open>The frames a worker of the scenario sends until the first all-reduce is acknowledged.\<close>

definition first_desc :: Desc where
  "first_desc = request 1 False"

definition worker_script :: "u64 \<Rightarrow> string \<Rightarrow> u64 \<Rightarrow> Frame list" where
  "worker_script boot name rank = joining name boot 1 @ said boot rank (first_desc, no_claim, [])"

definition reply_script :: "u64 \<Rightarrow> u64 \<Rightarrow> bytes \<Rightarrow> Frame list" where
  "reply_script boot rank result =
     [frame GROUP_ACCEPT (enc_rank_accept rank 2 1 1), frame COMPLETE (enc_simple 1 1),
      request_frame 1 False, result_frame boot 1 result]"

lemma length_rank_values [simp]: "length (rank_values r) = 16"
  by (simp add: rank_values_def)

abbreviation barrier_claim :: "u64 \<Rightarrow> AuthClaim" where
  "barrier_claim boot \<equiv> no_claim\<lparr>ac_epoch := 1, ac_boot := boot, ac_group_gen := 1\<rparr>"

definition exchange_script :: "u64 \<Rightarrow> u64 \<Rightarrow> Frame list" where
  "exchange_script boot rank =
     [contribution (contribution_claim boot first_desc) (rank_values rank), frame COMPLETE (enc_simple 1 1)]"

lemma worker_script_eq:
  "worker_script boot name rank =
     frame HELLO (enc_boot_name boot name) # frame JOIN_GROUP (enc_auth (barrier_claim boot)) #
     frame ProtocolMessageKind.BARRIER (enc_auth (barrier_claim boot)) # exchange_script boot rank"
  by (simp add: worker_script_def joining_def said_def exchange_script_def contribution_of_def first_desc_def request_def)

lemma script_encodable:
  "length name < 2 ^ 16 \<Longrightarrow> \<forall>f \<in> set (worker_script boot name rank). encodable f"
  "length result = 16 \<Longrightarrow> \<forall>f \<in> set (reply_script boot rank result). encodable f"
  by (auto simp: worker_script_eq exchange_script_def reply_script_def encodable_def)

section \<open>One phase after the other\<close>

text \<open>What is left of the first phases once the group is announced, and once the barrier is complete.\<close>

definition after_barrier :: "surroundings \<Rightarrow> string \<Rightarrow> TopologyGeneration \<Rightarrow> unit act" where
  "after_barrier w path topo =
     seq (run_allreduce w topo 1 ''PHASE_ALLREDUCE'' False) (\<lambda>_.
     seq (logline ''PHASE_ALLREDUCE_DONE gen=1'') (\<lambda>_.
     seq (save_state w path) (\<lambda>_.
     logline (''PHASE_SAVED path='' @ path))))"

definition after_group :: "surroundings \<Rightarrow> string \<Rightarrow> TopologyGeneration \<Rightarrow> unit act" where
  "after_group w path topo = seq run_barrier (\<lambda>_. after_barrier w path topo)"

text \<open>Two workers whose connections still hold the given frames, and what has been sent to each of them.\<close>

definition serving :: "Coordinator \<Rightarrow> u64 \<Rightarrow> u64 \<Rightarrow> bytes list \<times> bytes list \<Rightarrow> Frame list \<Rightarrow> Frame list \<Rightarrow> bool" where
  "serving c b0 b1 sent fs0 fs1 \<longleftrightarrow> (\<exists>v0 v1. co_workers c = [v0, v1] \<and> ws_boot v0 = b0 \<and> ws_boot v1 = b1 \<and>
     fc_valid (ws_channel v0) \<and> fc_valid (ws_channel v1) \<and>
     sent = (fc_sent (ws_channel v0), fc_sent (ws_channel v1)) \<and> drains (ws_channel v0) fs0 \<and> drains (ws_channel v1) fs1)"

text \<open>What the coordinator has sent on its two connections; a connection that it has not taken in yet has none.\<close>

definition sent_on :: "nat \<Rightarrow> Coordinator \<Rightarrow> bytes list" where
  "sent_on i c = (if i < length (co_workers c) then fc_sent (ws_channel (co_workers c ! i)) else [])"

lemma serving_sent: "serving c b0 b1 sent fs0 fs1 \<Longrightarrow> (sent_on 0 c, sent_on 1 c) = sent"
  by (auto simp: serving_def sent_on_def)

lemma announce_pair:
  assumes "co_workers c = [w0, w1]" "find_group (StrongId gid) (Generation gen) (co_runtime c) = Some g"
  shows "\<exists>c'. announce tag gid gen c = (Inr (), c') \<and> same_books c c' \<and> co_pending c' = co_pending c \<and>
    co_workers c' = map (\<lambda>v. v\<lparr>ws_channel := channel_send (frame GROUP_ACCEPT
      (enc_rank_accept (raw (rank_of_boot g (ws_boot v))) (group_size g) gid gen)) (ws_channel v)\<rparr>) [w0, w1]"
  using assms by (simp add: announce_def announce_to_def run_simps upt_rec same_books_def)

lemma accept_worker_drains:
  assumes "co_pending c = Some ch # rest"
    and "drains ch (frame HELLO (enc_boot_name boot name) # frame JOIN_GROUP p # fs)" "length name < 2 ^ 64"
  shows "\<exists>c' v. accept_worker c = (Inr (), c') \<and> co_workers c' = co_workers c @ [v] \<and> ws_boot v = boot \<and>
    fc_sent (ws_channel v) = fc_sent ch \<and> fc_valid (ws_channel v) = fc_valid ch \<and> drains (ws_channel v) fs \<and> co_pending c' = rest \<and> same_books c c'"
proof -
  obtain ch1 ch2 where "channel_recv ch = (Inr (frame HELLO (enc_boot_name boot name)), ch1)"
    "channel_recv ch1 = (Inr (frame JOIN_GROUP p), ch2)" "drains ch2 fs" "fc_sent ch2 = fc_sent ch" "fc_valid ch2 = fc_valid ch"
    using assms(2) recv_keeps by (metis drains.simps(2) prod.collapse)
  then show ?thesis
    using assms(1,3) by (simp add: accept_worker_def accept_client_def act_simps add_worker_def same_books_def)
qed

lemma accept_worker_waits:
  assumes "co_pending c = Some ch # rest" "drains ch (take n (frame HELLO (enc_boot_name boot name) # frame JOIN_GROUP p # fs))"
    and "n < 2" "length name < 2 ^ 64"
  shows "\<exists>s c'. accept_worker c = (Inl s, c') \<and> co_workers c' = co_workers c"
proof -
  consider "n = 0" | "n = 1" using assms(3) by linarith
  then show ?thesis
  proof cases
    case 1
    then show ?thesis using assms(1,2) by (simp add: accept_worker_def accept_client_def act_simps give_up_def logline_def)
  next
    case 2
    obtain r ch1 where r: "channel_recv ch = (r, ch1)" by fastforce
    have "r = Inr (frame HELLO (enc_boot_name boot name))" "channel_recv ch1 = (Inl ''connection closed'', ch1)"
      using 2 assms(2) r by simp_all
    with r have "channel_recv ch = (Inr (frame HELLO (enc_boot_name boot name)), ch1)" "channel_recv ch1 = (Inl ''connection closed'', ch1)"
      by simp_all
    then show ?thesis
      using assms(1,4) by (simp add: accept_worker_def accept_client_def act_simps give_up_def logline_def)
  qed
qed

lemma barrier_waits:
  assumes "serving c b0 b1 sent (take d0 (frame ProtocolMessageKind.BARRIER (enc_auth a0) # fs0))
      (take d1 (frame ProtocolMessageKind.BARRIER (enc_auth a1) # fs1))"
    and "min d0 d1 < 1" "ac_epoch a0 = 1" "ac_group_gen a0 = 1"
  shows "(sent_on 0 (snd (after_group w path topo c)), sent_on 1 (snd (after_group w path topo c))) = sent"
proof -
  obtain v0 v1 where v: "co_workers c = [v0, v1]" "sent = (fc_sent (ws_channel v0), fc_sent (ws_channel v1))"
    "drains (ws_channel v0) (take d0 (frame ProtocolMessageKind.BARRIER (enc_auth a0) # fs0))"
    "drains (ws_channel v1) (take d1 (frame ProtocolMessageKind.BARRIER (enc_auth a1) # fs1))"
    using assms(1) by (auto simp: serving_def)
  consider "d0 = 0" | k where "d0 = Suc k" "d1 = 0" using assms(2) by (cases d0) auto
  then show ?thesis
  proof cases
    case 1
    then show ?thesis
      using v by (simp add: after_group_def run_barrier_def barrier_from_def run_simps upt_rec give_up_def logline_def sent_on_def)
  next
    case 2
    then show ?thesis
      using v assms(3,4) dec_auth_enc [of a0 "[]"]
      by (simp add: after_group_def run_barrier_def barrier_from_def run_simps upt_rec give_up_def logline_def sent_on_def
          del: dec_auth_enc)
  qed
qed

lemma barrier_drains:
  assumes "serving c b0 b1 (s0, s1) (frame ProtocolMessageKind.BARRIER (enc_auth a0) # fs0)
      (frame ProtocolMessageKind.BARRIER (enc_auth a1) # fs1)"
    and "ac_epoch a0 = 1" "ac_group_gen a0 = 1" "ac_epoch a1 = 1" "ac_group_gen a1 = 1"
  shows "\<exists>c'. after_group w path topo c = after_barrier w path topo c' \<and> same_books c c' \<and> co_pending c' = co_pending c \<and>
    serving c' b0 b1 (s0 @ [encode (frame COMPLETE (enc_simple 1 1))], s1 @ [encode (frame COMPLETE (enc_simple 1 1))]) fs0 fs1"
proof -
  obtain v0 v1 where v: "co_workers c = [v0, v1]" "ws_boot v0 = b0" "ws_boot v1 = b1" "s0 = fc_sent (ws_channel v0)" "s1 = fc_sent (ws_channel v1)"
    "fc_valid (ws_channel v0)" "fc_valid (ws_channel v1)"
    "drains (ws_channel v0) (frame ProtocolMessageKind.BARRIER (enc_auth a0) # fs0)"
    "drains (ws_channel v1) (frame ProtocolMessageKind.BARRIER (enc_auth a1) # fs1)"
    using assms(1) by (auto simp: serving_def)
  have "\<exists>c'. run_barrier c = (Inr (), c') \<and> same_books c c' \<and> co_pending c' = co_pending c \<and>
      serving c' b0 b1 (s0 @ [encode (frame COMPLETE (enc_simple 1 1))], s1 @ [encode (frame COMPLETE (enc_simple 1 1))]) fs0 fs1"
    using v assms(2-5) dec_auth_enc [of a0 "[]"] dec_auth_enc [of a1 "[]"]
    by (simp add: run_barrier_def barrier_from_def run_simps logline_def upt_rec serving_def same_books_def del: dec_auth_enc)
  then show ?thesis by (auto simp: after_group_def seq_def)
qed

lemma save_state_sent: "co_workers (snd (save_state w path c)) = co_workers c"
  by (simp add: save_state_def act_simps case_prod_beta split: sum.split)

lemma after_barrier_sent:
  assumes "run_allreduce w topo 1 ''PHASE_ALLREDUCE'' False c = (Inr r, c1)"
  shows "sent_on i (snd (after_barrier w path topo c)) = sent_on i c1"
proof (cases "save_state w path (c1\<lparr>co_log := co_log c1 @ [''PHASE_ALLREDUCE_DONE gen=1'']\<rparr>)")
  case (Pair x c2)
  then have "co_workers c2 = co_workers c1"
    using save_state_sent [of w path "c1\<lparr>co_log := co_log c1 @ [''PHASE_ALLREDUCE_DONE gen=1'']\<rparr>"] by simp
  then show ?thesis
    using assms Pair by (cases x) (simp_all add: after_barrier_def seq_def logline_def change_def sent_on_def)
qed

lemma exchange_waits:
  assumes "serving c b0 b1 (s0, s1) (take d0 (contribution a0 x0 # fs0)) (take d1 (contribution a1 x1 # fs1))"
    and "min d0 d1 < 1" "length x0 < 2 ^ 64"
  shows "(sent_on 0 (snd (after_barrier w path topo c)), sent_on 1 (snd (after_barrier w path topo c))) =
    (s0 @ [encode (request_frame 1 False)], s1 @ [encode (request_frame 1 False)])"
proof -
  obtain v0 v1 where v: "co_workers c = [v0, v1]" "s0 = fc_sent (ws_channel v0)" "s1 = fc_sent (ws_channel v1)"
    "drains (ws_channel v0) (take d0 (contribution a0 x0 # fs0))" "drains (ws_channel v1) (take d1 (contribution a1 x1 # fs1))"
    using assms(1) by (auto simp: serving_def)
  have "\<exists>r c1. run_allreduce w topo 1 ''PHASE_ALLREDUCE'' False c = (Inr r, c1) \<and>
      sent_on 0 c1 = s0 @ [encode (request_frame 1 False)] \<and> sent_on 1 c1 = s1 @ [encode (request_frame 1 False)]"
  proof -
    consider "d0 = 0" | k where "d0 = Suc k" "d1 = 0" using assms(2) by (cases d0) auto
    then show ?thesis
    proof cases
      case 1
      then show ?thesis using v by (simp add: run_allreduce_def run_simps upt_rec logline_def sent_on_def) (rule exI, rule TrueI)
    next
      case 2
      then show ?thesis using v assms(3) by (simp add: run_allreduce_def run_simps upt_rec logline_def sent_on_def) (rule exI, rule TrueI)
    qed
  qed
  then show ?thesis by (metis after_barrier_sent)
qed

lemma exchange_sends:
  assumes "serving c b0 b1 (s0, s1) (contribution a0 x0 # fs0) (contribution a1 x1 # fs1)"
    and "length x0 < 2 ^ 64" "length x1 < 2 ^ 64"
    and "execute (sr_floats w) ALL_REDUCE ReductionOp.SUM FLOAT32 4 0 2 [x0, x1] = Inr outs"
  shows "(sent_on 0 (snd (after_barrier w path topo c)), sent_on 1 (snd (after_barrier w path topo c))) =
    (s0 @ [encode (request_frame 1 False), encode (result_frame b0 1 (outs ! 0))],
     s1 @ [encode (request_frame 1 False), encode (result_frame b1 1 (outs ! 0))])"
proof -
  obtain v0 v1 where v: "co_workers c = [v0, v1]" "s0 = fc_sent (ws_channel v0)" "s1 = fc_sent (ws_channel v1)"
    "ws_boot v0 = b0" "ws_boot v1 = b1"
    "drains (ws_channel v0) (contribution a0 x0 # fs0)" "drains (ws_channel v1) (contribution a1 x1 # fs1)"
    using assms(1) by (auto simp: serving_def)
  let ?s0 = "s0 @ [encode (request_frame 1 False), encode (result_frame b0 1 (outs ! 0))]"
  let ?s1 = "s1 @ [encode (request_frame 1 False), encode (result_frame b1 1 (outs ! 0))]"
  let ?more = "\<lambda>v. fst (channel_recv (snd (channel_recv (ws_channel v))))"
  have "\<exists>r c1. run_allreduce w topo 1 ''PHASE_ALLREDUCE'' False c = (Inr r, c1) \<and> sent_on 0 c1 = ?s0 \<and> sent_on 1 c1 = ?s1"
  proof -
    consider why where "?more v0 = Inl why" | f why where "?more v0 = Inr f" "?more v1 = Inl why"
      | f g where "?more v0 = Inr f" "?more v1 = Inr g" by (metis sum.exhaust)
    then show ?thesis
    proof cases
      case 1
      then show ?thesis using v assms(2-4) by (simp add: run_allreduce_def run_simps upt_rec logline_def sent_on_def) blast
    next
      case 2
      then show ?thesis using v assms(2-4) by (simp add: run_allreduce_def run_simps upt_rec logline_def sent_on_def) blast
    next
      case 3
      then show ?thesis
        using v assms(2-4) by (simp add: run_allreduce_def run_simps upt_rec logline_def sent_on_def ingest_measurement_def op_simps
          exchange_measurement_def) blast
    qed
  qed
  then show ?thesis by (metis after_barrier_sent)
qed

text \<open>Both workers acknowledge the result: the measurement is recorded and the state saved.\<close>

lemma exchange_completes:
  assumes "serving c b0 b1 (s0, s1) (contribution a0 x0 # g0 # fs0) (contribution a1 x1 # g1 # fs1)"
    and "length x0 < 2 ^ 64" "length x1 < 2 ^ 64"
    and "execute (sr_floats w) ALL_REDUCE ReductionOp.SUM FLOAT32 4 0 2 [x0, x1] = Inr outs"
    and "\<And>n. sr_disk w n = Io_ok"
  shows "\<exists>c' m now. after_barrier w path topo c = (Inr (), c') \<and>
    serving c' b0 b1 (s0 @ [encode (request_frame 1 False), encode (result_frame b0 1 (outs ! 0))],
      s1 @ [encode (request_frame 1 False), encode (result_frame b1 1 (outs ! 0))]) fs0 fs1 \<and>
    co_pending c' = co_pending c \<and> rt_groups (co_runtime c') = rt_groups (co_runtime c) \<and>
    rt_authority (co_runtime c') = rt_authority (co_runtime c) \<and>
    rt_measurements (co_runtime c') = om_put (StrongId 1001) m (rt_measurements (co_runtime c)) \<and>
    cm_freshness m = MeasurementFreshness.CURRENT \<and>
    co_files c' path = Some (store_frame (build_state now (co_runtime c')))"
proof -
  let ?s0 = "s0 @ [encode (request_frame 1 False), encode (result_frame b0 1 (outs ! 0))]"
  let ?s1 = "s1 @ [encode (request_frame 1 False), encode (result_frame b1 1 (outs ! 0))]"
  obtain c1 now src where 1: "run_allreduce w topo 1 ''PHASE_ALLREDUCE'' False c = (Inr False, c1)" "serving c1 b0 b1 (?s0, ?s1) fs0 fs1"
    "unchanged_process c c1" "rt_measurements (co_runtime c1) =
      om_put (StrongId 1001) (exchange_measurement 1 topo now src) (rt_measurements (co_runtime c))"
  proof -
    obtain v0 v1 where v: "co_workers c = [v0, v1]" "s0 = fc_sent (ws_channel v0)" "s1 = fc_sent (ws_channel v1)"
      "ws_boot v0 = b0" "ws_boot v1 = b1" "fc_valid (ws_channel v0)" "fc_valid (ws_channel v1)"
      "drains (ws_channel v0) (contribution a0 x0 # g0 # fs0)" "drains (ws_channel v1) (contribution a1 x1 # g1 # fs1)"
      using assms(1) by (auto simp: serving_def)
    have "\<exists>c1 now src. run_allreduce w topo 1 ''PHASE_ALLREDUCE'' False c = (Inr False, c1) \<and> serving c1 b0 b1 (?s0, ?s1) fs0 fs1 \<and>
      unchanged_process c c1 \<and> rt_measurements (co_runtime c1) =
        om_put (StrongId 1001) (exchange_measurement 1 topo now src) (rt_measurements (co_runtime c))"
      using v assms(2-4)
      by (simp add: run_allreduce_def run_simps upt_rec serving_def unchanged_process_def logline_def ingest_measurement_def op_simps
          exchange_measurement_def) blast
    then show ?thesis using that by blast
  qed
  let ?c1 = "c1\<lparr>co_log := co_log c1 @ [''PHASE_ALLREDUCE_DONE gen=1'']\<rparr>"
  obtain c2 where 2: "save_state w path ?c1 = (Inr (), c2)" "co_runtime c2 = co_runtime ?c1" "co_workers c2 = co_workers ?c1"
    "co_pending c2 = co_pending ?c1" "co_files c2 path = Some (store_frame (build_state (sr_clock w (co_readings ?c1)) (co_runtime ?c1)))"
    using assms(5) by (simp add: save_state_def act_simps)
  let ?c2 = "c2\<lparr>co_log := co_log c2 @ [''PHASE_SAVED path='' @ path]\<rparr>"
  have "after_barrier w path topo c = (Inr (), ?c2)"
    using 1(1) 2(1) by (simp add: after_barrier_def seq_def logline_def change_def)
  moreover have "serving ?c2 b0 b1 (?s0, ?s1) fs0 fs1" using 1(2) 2(3) by (simp add: serving_def)
  moreover have "cm_freshness (exchange_measurement 1 topo now src) = MeasurementFreshness.CURRENT"
    by (simp add: exchange_measurement_def)
  ultimately show ?thesis
    using 1(3,4) 2(2,4,5) by (intro exI [of _ ?c2] exI [of _ "exchange_measurement 1 topo now src"]) (auto simp: unchanged_process_def)
qed

abbreviation admission :: "u64 \<Rightarrow> Frame" where
  "admission rank \<equiv> frame GROUP_ACCEPT (enc_rank_accept rank 2 1 1)"

text \<open>The group of the first phases is registered, and nothing else has changed.\<close>

definition formed :: "u64 \<Rightarrow> u64 \<Rightarrow> Coordinator \<Rightarrow> Coordinator \<Rightarrow> bool" where
  "formed b0 b1 c c' \<longleftrightarrow> (\<exists>g. boots g = {StrongId b0, StrongId b1} \<and> pair_of 1 1 g \<and>
     rt_groups (co_runtime c') = om_put (StrongId 1, Generation 1) g (rt_groups (co_runtime c))) \<and>
     rt_authority (co_runtime c') = rt_authority (co_runtime c) \<and> rt_measurements (co_runtime c') = rt_measurements (co_runtime c)"

lemma group_forms:
  assumes "co_workers c = []" "co_pending c = Some ch0 # Some ch1 # rest"
    and "fc_sent ch0 = []" "fc_sent ch1 = []" "fc_valid ch0" "fc_valid ch1"
    and "drains ch0 (frame HELLO (enc_boot_name b0 n0) # frame JOIN_GROUP p0 # fs0)" "length n0 < 2 ^ 64"
    and "drains ch1 (frame HELLO (enc_boot_name b1 n1) # frame JOIN_GROUP p1 # fs1)" "length n1 < 2 ^ 64"
    and "b0 \<noteq> b1" "b0 \<noteq> 0" "b1 \<noteq> 0" "\<not> gen_is_null topo"
    and "find_group (StrongId 1) (Generation 1) (co_runtime c) = None"
  shows "\<exists>c'. first_phases w path topo c = after_group w path topo c' \<and> formed b0 b1 c c' \<and> co_pending c' = rest \<and>
    serving c' b0 b1 ([encode (admission (if b1 < b0 then 1 else 0))], [encode (admission (if b1 < b0 then 0 else 1))]) fs0 fs1"
proof -
  obtain c1 v0 where 1: "accept_worker c = (Inr (), c1)" "co_workers c1 = [v0]" "ws_boot v0 = b0" "fc_sent (ws_channel v0) = []"
    "drains (ws_channel v0) fs0" "co_pending c1 = Some ch1 # rest" "same_books c c1" "fc_valid (ws_channel v0)"
    using accept_worker_drains [OF assms(2,7,8)] assms(1,3,5) by auto
  obtain c2 v1 where 2: "accept_worker c1 = (Inr (), c2)" "co_workers c2 = [v0, v1]" "ws_boot v1 = b1" "fc_sent (ws_channel v1) = []"
    "drains (ws_channel v1) fs1" "co_pending c2 = rest" "same_books c1 c2" "fc_valid (ws_channel v1)"
    using accept_worker_drains [OF 1(6) assms(9,10)] 1(2) assms(4,6) by auto
  have books: "co_runtime c2 = co_runtime c" using 1(7) 2(7) by (simp add: same_books_def)
  have no_group: "find_group (StrongId 1) (Generation 1) (co_runtime c2) = None"
    using assms(15) books by simp
  obtain g c3 u0 u1 where 3: "form_group w 1 1 topo c2 = (Inr (), c3)"
    "find_group (StrongId 1) (Generation 1) (co_runtime c3) = Some g" "cg_rank_count g = 2"
    "raw (rank_of_boot g b0) = (if b1 < b0 then 1 else 0)" "raw (rank_of_boot g b1) = (if b1 < b0 then 0 else 1)"
    "co_workers c3 = [u0, u1]" "alike v0 u0" "alike v1 u1" "ws_channel u0 = ws_channel v0" "ws_channel u1 = ws_channel v1"
    "boots g = {StrongId b0, StrongId b1}" "co_pending c3 = co_pending c2"
    "pair_of 1 1 g"
    "rt_groups (co_runtime c3) = om_put (StrongId 1, Generation 1) g (rt_groups (co_runtime c2))"
    "rt_authority (co_runtime c3) = rt_authority (co_runtime c2)" "rt_measurements (co_runtime c3) = rt_measurements (co_runtime c2)"
    using form_group_result [OF 2(2) _ _ _ _ assms(14) no_group, of w] 1(3) 2(3) assms(11-13) by auto
  obtain c4 where 4: "announce ''COORD '' 1 1 c3 = (Inr (), c4)" "same_books c3 c4" "co_pending c4 = co_pending c3"
    "co_workers c4 = map (\<lambda>v. v\<lparr>ws_channel := channel_send (frame GROUP_ACCEPT
      (enc_rank_accept (raw (rank_of_boot g (ws_boot v))) (group_size g) 1 1)) (ws_channel v)\<rparr>) [u0, u1]"
    using announce_pair [OF 3(6) 3(2)] by blast
  let ?c4 = "c4\<lparr>co_log := co_log c4 @ [''PHASE_GROUP_READY gen=1 ranks=2'']\<rparr>"
  have "serving ?c4 b0 b1 ([encode (admission (if b1 < b0 then 1 else 0))], [encode (admission (if b1 < b0 then 0 else 1))]) fs0 fs1"
    using 4(4) 1(3-5,8) 2(3-5,8) 3(3-5,9,10) alike_keeps(1) [OF 3(7)] alike_keeps(1) [OF 3(8)]
    by (simp add: serving_def group_size_def)
  moreover have "formed b0 b1 c ?c4"
    unfolding formed_def using 3(11,13-16) 4(2) books by (auto simp: same_books_def)
  moreover have "first_phases w path topo c = after_group w path topo ?c4"
    using 1(1) 2(1) 3(1) 4(1)
    by (simp add: first_phases_def after_group_def after_barrier_def seq_def logline_def change_def)
  moreover have "co_pending ?c4 = rest" using 2(6) 3(12) 4(3) by simp
  ultimately show ?thesis by blast
qed

lemma group_waits:
  assumes "co_workers c = []" "co_pending c = Some ch0 # Some ch1 # rest" "fc_sent ch0 = []"
    and "drains ch0 (take d0 (frame HELLO (enc_boot_name b0 n0) # frame JOIN_GROUP p0 # fs0))" "length n0 < 2 ^ 64"
    and "drains ch1 (take d1 (frame HELLO (enc_boot_name b1 n1) # frame JOIN_GROUP p1 # fs1))" "length n1 < 2 ^ 64"
    and "min d0 d1 < 2"
  shows "sent_on i (snd (first_phases w path topo c)) = []"
proof (cases "d0 < 2")
  case True
  then obtain s c' where "accept_worker c = (Inl s, c')" "co_workers c' = []"
    using accept_worker_waits [OF assms(2,4) _ assms(5)] assms(1) by auto
  then show ?thesis by (simp add: first_phases_def seq_def sent_on_def)
next
  case False
  then have "d1 < 2" using assms(8) by auto
  have "take d0 (x # y # zs) = x # y # take (d0 - 2) zs" for x y :: Frame and zs
    using False by (metis Suc_1 add_2_eq_Suc' le_add_diff_inverse2 linorder_not_less take_Suc_Cons)
  then have "drains ch0 (frame HELLO (enc_boot_name b0 n0) # frame JOIN_GROUP p0 # take (d0 - 2) fs0)"
    using assms(4) by simp
  from accept_worker_drains [OF assms(2) this assms(5)] obtain c1 v0 where
    1: "accept_worker c = (Inr (), c1)" "co_workers c1 = [v0]" "fc_sent (ws_channel v0) = []" "co_pending c1 = Some ch1 # rest"
    using assms(1,3) by auto
  obtain s c2 where "accept_worker c1 = (Inl s, c2)" "co_workers c2 = [v0]"
    using accept_worker_waits [OF 1(4) assms(6) \<open>d1 < 2\<close> assms(7)] 1(2) by auto
  then show ?thesis using 1 by (simp add: first_phases_def seq_def sent_on_def)
qed

end
