(* ===== verification/CF_Scenario.thy ===== *)
theory CF_Scenario
  imports CF_Waiting
begin

text \<open>
  Coordinator and workers together: the frames each side sends are the frames the other side needs, up to the
  first saved state.
\<close>

section \<open>The first phases\<close>

lemma first_phases_result:
  fixes w :: surroundings and b0 b1 :: u64
  assumes "co_workers c = []" "co_pending c = Some ch0 # Some ch1 # rest"
    and "fc_sent ch0 = []" "fc_sent ch1 = []" "fc_valid ch0" "fc_valid ch1"
    and "drains ch0 (worker_script b0 n0 (if b1 < b0 then 1 else 0) @ fs0)" "length n0 < 2 ^ 64"
    and "drains ch1 (worker_script b1 n1 (if b1 < b0 then 0 else 1) @ fs1)" "length n1 < 2 ^ 64"
    and "b0 \<noteq> b1" "b0 \<noteq> 0" "b1 \<noteq> 0" "\<not> gen_is_null topo"
    and "find_group (StrongId 1) (Generation 1) (co_runtime c) = None"
    and "\<And>n. sr_disk w n = Io_ok"
  defines "result \<equiv> float_sum (sr_floats w) (rank_values (if b1 < b0 then 1 else 0)) (rank_values (if b1 < b0 then 0 else 1))"
  shows "\<exists>c' g m now. first_phases w path topo c = (Inr (), c') \<and> co_pending c' = rest \<and>
    serving c' b0 b1 (map encode (reply_script b0 (if b1 < b0 then 1 else 0) result),
      map encode (reply_script b1 (if b1 < b0 then 0 else 1) result)) fs0 fs1 \<and>
    boots g = {StrongId b0, StrongId b1} \<and> pair_of 1 1 g \<and>
    rt_groups (co_runtime c') = om_put (StrongId 1, Generation 1) g (rt_groups (co_runtime c)) \<and>
    rt_authority (co_runtime c') = rt_authority (co_runtime c) \<and>
    rt_measurements (co_runtime c') = om_put (StrongId 1001) m (rt_measurements (co_runtime c)) \<and>
    cm_freshness m = MeasurementFreshness.CURRENT \<and>
    co_files c' path = Some (store_frame (build_state now (co_runtime c')))"
proof -
  let ?r0 = "if b1 < b0 then 1 else 0 :: u64" and ?r1 = "if b1 < b0 then 0 else 1 :: u64"
  obtain c1 where 1: "first_phases w path topo c = after_group w path topo c1" "formed b0 b1 c c1" "co_pending c1 = rest"
    "serving c1 b0 b1 ([encode (admission ?r0)], [encode (admission ?r1)])
       (frame ProtocolMessageKind.BARRIER (enc_auth (barrier_claim b0)) # exchange_script b0 ?r0 @ fs0)
       (frame ProtocolMessageKind.BARRIER (enc_auth (barrier_claim b1)) # exchange_script b1 ?r1 @ fs1)"
    using group_forms [OF assms(1-6) assms(7) [unfolded worker_script_eq append_Cons] assms(8) assms(9) [unfolded worker_script_eq append_Cons] assms(10-15)]
    by blast
  obtain c2 where 2: "after_group w path topo c1 = after_barrier w path topo c2" "same_books c1 c2" "co_pending c2 = rest"
    "serving c2 b0 b1 ([encode (admission ?r0), encode (frame COMPLETE (enc_simple 1 1))],
       [encode (admission ?r1), encode (frame COMPLETE (enc_simple 1 1))]) (exchange_script b0 ?r0 @ fs0) (exchange_script b1 ?r1 @ fs1)"
    using barrier_drains [OF 1(4), of w path topo] 1(3) by auto
  have sums: "execute (sr_floats w) ALL_REDUCE ReductionOp.SUM FLOAT32 4 0 2 [rank_values ?r0, rank_values ?r1] = Inr [result, result]"
    unfolding result_def by (intro float_sums) simp_all
  have len: "length (rank_values r) < 2 ^ 64" for r by simp
  obtain c3 m now where 3: "after_barrier w path topo c2 = (Inr (), c3)" "co_pending c3 = co_pending c2"
    "serving c3 b0 b1 ([encode (admission ?r0), encode (frame COMPLETE (enc_simple 1 1))] @
         [encode (request_frame 1 False), encode (result_frame b0 1 ([result, result] ! 0))],
       [encode (admission ?r1), encode (frame COMPLETE (enc_simple 1 1))] @
         [encode (request_frame 1 False), encode (result_frame b1 1 ([result, result] ! 0))]) fs0 fs1"
    "rt_groups (co_runtime c3) = rt_groups (co_runtime c2)" "rt_authority (co_runtime c3) = rt_authority (co_runtime c2)"
    "rt_measurements (co_runtime c3) = om_put (StrongId 1001) m (rt_measurements (co_runtime c2))"
    "cm_freshness m = MeasurementFreshness.CURRENT" "co_files c3 path = Some (store_frame (build_state now (co_runtime c3)))"
    using exchange_completes [OF 2(4) [unfolded exchange_script_def append_Cons append_Nil] len len sums assms(16), of path topo] by blast
  obtain g where "boots g = {StrongId b0, StrongId b1}" "pair_of 1 1 g"
    "rt_groups (co_runtime c1) = om_put (StrongId 1, Generation 1) g (rt_groups (co_runtime c))"
    "rt_authority (co_runtime c1) = rt_authority (co_runtime c)" "rt_measurements (co_runtime c1) = rt_measurements (co_runtime c)"
    using 1(2) by (auto simp: formed_def)
  moreover have "co_runtime c2 = co_runtime c1" using 2(2) by (simp add: same_books_def)
  moreover have "first_phases w path topo c = (Inr (), c3)" using 1(1) 2(1) 3(1) by simp
  moreover have "serving c3 b0 b1 (map encode (reply_script b0 ?r0 result), map encode (reply_script b1 ?r1 result)) fs0 fs1"
    using 3(3) by (simp add: reply_script_def)
  ultimately show ?thesis using 2(3) 3 by metis
qed

lemma worker_follows_replies:
  assumes "length result = 16" "0 < stall_after"
  shows "\<exists>wk'. run_worker show_float None name boot stall_after (new_worker (map encode (reply_script boot rank result))) =
      (Returned 0, wk') \<and> fc_sent (wk_channel wk') = map encode (worker_script boot name rank)"
proof -
  let ?q = "(first_desc, result_claim boot 1, result)"
  let ?wk = "new_worker (map encode (reply_script boot rank result))"
  have sent: "fc_sent (wk_channel ?wk) = []" by (simp add: new_worker_def new_channel_def)
  have script: "reply_script boot rank result =
      frame GROUP_ACCEPT (enc_rank_accept rank 2 1 1) # frame COMPLETE (enc_simple 1 1) # concat (map heard [?q])"
    by (simp add: reply_script_def heard_def first_desc_def)
  have "ends_after (wk_channel ?wk) (reply_script boot rank result)"
    using script_encodable(2) [OF assms(1)] by (intro ends_after_stream) (auto simp: new_worker_def new_channel_def)
  then have "ends_after (wk_channel ?wk)
      (frame GROUP_ACCEPT (enc_rank_accept rank 2 1 1) # frame COMPLETE (enc_simple 1 1) # concat (map heard [?q]))"
    unfolding script .
  moreover have "list_all answerable [?q]" "length [?q] \<le> unat stall_after" "length [?q] < 2 ^ 31"
    using assms by (simp_all add: answerable_def first_desc_def request_def Suc_le_eq unat_gt_0 word_neq_0_conv)
  moreover obtain wk1 where
    "run_worker show_float None name boot stall_after ?wk = worker_loop show_float boot stall_after rank 0 wk1"
    "fc_sent (wk_channel wk1) = map encode (joining name boot 1)" "ends_after (wk_channel wk1) (concat (map heard [?q]))"
    using run_worker_joins [OF calculation(1), of show_float name boot stall_after]
    unfolding sent append_Nil by blast
  ultimately show ?thesis
    using worker_loop_serves [of wk1 "[?q]" 0 stall_after show_float boot rank]
    by (auto simp: worker_script_def said_def)
qed

text \<open>With everything that arrives, both sides come to an end and have sent what the other has received.\<close>

lemma full_scripts_complete:
  assumes "co_workers c = []" "find_group (StrongId 1) (Generation 1) (co_runtime c) = None"
    and "length n0 < 2 ^ 16" "length n1 < 2 ^ 16" "b0 \<noteq> b1" "b0 \<noteq> 0" "b1 \<noteq> 0" "\<not> gen_is_null topo" "0 < stall_after"
    and "\<And>n. sr_disk w n = Io_ok"
    and "co_pending c = [Some (new_channel (map encode (worker_script b0 n0 (if b1 < b0 then 1 else 0)))),
      Some (new_channel (map encode (worker_script b1 n1 (if b1 < b0 then 0 else 1))))]"
    and "result = float_sum (sr_floats w) (rank_values (if b1 < b0 then 1 else 0)) (rank_values (if b1 < b0 then 0 else 1))"
  shows "\<exists>c' v0 v1 m k0 k1. first_phases w path topo c = (Inr (), c') \<and> co_workers c' = [v0, v1] \<and>
    fc_sent (ws_channel v0) = map encode (reply_script b0 (if b1 < b0 then 1 else 0) result) \<and>
    fc_sent (ws_channel v1) = map encode (reply_script b1 (if b1 < b0 then 0 else 1) result) \<and>
    rt_measurements (co_runtime c') = om_put (StrongId 1001) m (rt_measurements (co_runtime c)) \<and>
    (\<exists>now. co_files c' path = Some (store_frame (build_state now (co_runtime c')))) \<and>
    run_worker show_float None n0 b0 stall_after
      (new_worker (map encode (reply_script b0 (if b1 < b0 then 1 else 0) result))) = (Returned 0, k0) \<and>
    fc_sent (wk_channel k0) = map encode (worker_script b0 n0 (if b1 < b0 then 1 else 0)) \<and>
    run_worker show_float None n1 b1 stall_after
      (new_worker (map encode (reply_script b1 (if b1 < b0 then 0 else 1) result))) = (Returned 0, k1) \<and>
    fc_sent (wk_channel k1) = map encode (worker_script b1 n1 (if b1 < b0 then 0 else 1))"
proof -
  let ?r0 = "if b1 < b0 then 1 else 0 :: u64" and ?r1 = "if b1 < b0 then 0 else 1 :: u64"
  have new: "fc_sent (new_channel net) = []" "fc_valid (new_channel net)" for net by (simp_all add: new_channel_def)
  have lens: "length n0 < 2 ^ 64" "length n1 < 2 ^ 64" "length result = 16" using assms(3,4,12) by simp_all
  have d: "drains (new_channel (map encode (worker_script b0 n0 r))) (worker_script b0 n0 r)"
    "drains (new_channel (map encode (worker_script b1 n1 r))) (worker_script b1 n1 r)" for r
    using script_encodable(1) assms(3,4) by (blast intro: drains_new)+
  obtain c' m now where 1: "first_phases w path topo c = (Inr (), c')"
    "serving c' b0 b1 (map encode (reply_script b0 ?r0 result), map encode (reply_script b1 ?r1 result)) [] []"
    "rt_measurements (co_runtime c') = om_put (StrongId 1001) m (rt_measurements (co_runtime c))"
    "co_files c' path = Some (store_frame (build_state now (co_runtime c')))"
    using first_phases_result [where ?fs0.0 = "[]" and ?fs1.0 = "[]", unfolded append_Nil2, OF assms(1,11) new(1) new(1) new(2) new(2) d(1) lens(1) d(2) lens(2) assms(5-8,2,10), of path]
    unfolding assms(12) by blast
  obtain v0 v1 where "co_workers c' = [v0, v1]" "fc_sent (ws_channel v0) = map encode (reply_script b0 ?r0 result)"
    "fc_sent (ws_channel v1) = map encode (reply_script b1 ?r1 result)"
    using 1(2) by (auto simp: serving_def)
  with 1 worker_follows_replies [OF lens(3) assms(9), of show_float] show ?thesis by metis
qed

text \<open>The two programs fit. A coordinator whose two connections carry what two workers send accepts them,
  forms the group, completes the barrier and the all-reduce, records the measurement and saves its state; and a
  worker that is sent exactly what the coordinator has sent on its connection sends exactly what the coordinator
  received from it, and returns 0 when the connection is closed.\<close>

theorem coordinator_and_workers_fit:
  assumes "co_workers c = []" "find_group (StrongId 1) (Generation 1) (co_runtime c) = None"
    and "co_pending c = [Some (new_channel (map encode (worker_script b0 n0 (if b1 < b0 then 1 else 0)))),
      Some (new_channel (map encode (worker_script b1 n1 (if b1 < b0 then 0 else 1))))]"
    and "length n0 < 2 ^ 16" "length n1 < 2 ^ 16" "b0 \<noteq> b1" "b0 \<noteq> 0" "b1 \<noteq> 0" "\<not> gen_is_null topo" "0 < stall_after"
    and "\<And>n. sr_disk w n = Io_ok"
  shows "\<exists>c' v0 v1 m k0 k1. first_phases w path topo c = (Inr (), c') \<and> co_workers c' = [v0, v1] \<and>
    rt_measurements (co_runtime c') = om_put (StrongId 1001) m (rt_measurements (co_runtime c)) \<and>
    (\<exists>now. co_files c' path = Some (store_frame (build_state now (co_runtime c')))) \<and>
    run_worker show_float None n0 b0 stall_after (new_worker (fc_sent (ws_channel v0))) = (Returned 0, k0) \<and>
    fc_sent (wk_channel k0) = map encode (worker_script b0 n0 (if b1 < b0 then 1 else 0)) \<and>
    run_worker show_float None n1 b1 stall_after (new_worker (fc_sent (ws_channel v1))) = (Returned 0, k1) \<and>
    fc_sent (wk_channel k1) = map encode (worker_script b1 n1 (if b1 < b0 then 0 else 1))"
proof -
  let ?result = "float_sum (sr_floats w) (rank_values (if b1 < b0 then 1 else 0)) (rank_values (if b1 < b0 then 0 else 1))"
  show ?thesis
    using full_scripts_complete [OF assms(1,2,4-11,3), of ?result path show_float] by metis
qed

theorem coordinator_and_workers_fit_witness:
  "\<exists>c' v0 v1 m k0 k1. first_phases calm ''s'' (Generation 1)
      (new_process [Some (new_channel (map encode (worker_script 200 ''A'' 1))),
        Some (new_channel (map encode (worker_script 100 ''B'' 0)))] Map.empty) = (Inr (), c') \<and>
    co_workers c' = [v0, v1] \<and> rt_measurements (co_runtime c') = [(StrongId 1001, m)] \<and>
    run_worker (\<lambda>_. []) None ''A'' 200 9 (new_worker (fc_sent (ws_channel v0))) = (Returned 0, k0) \<and>
    fc_sent (wk_channel k0) = map encode (worker_script 200 ''A'' 1)"
proof -
  let ?c = "new_process [Some (new_channel (map encode (worker_script 200 ''A'' 1))),
    Some (new_channel (map encode (worker_script 100 ''B'' 0)))] Map.empty"
  have "co_workers ?c = []" "find_group (StrongId 1) (Generation 1) (co_runtime ?c) = None" "rt_measurements (co_runtime ?c) = []"
    "co_pending ?c = [Some (new_channel (map encode (worker_script 200 ''A'' 1))), Some (new_channel (map encode (worker_script 100 ''B'' 0)))]"
    by (simp_all add: new_process_def new_runtime_def find_group_def)
  then show ?thesis
    using coordinator_and_workers_fit [of ?c 200 "''A''" 100 "''B''" "Generation 1" 9 calm "''s''" "\<lambda>_. []"]
    by (simp add: calm_def gen_is_null_def) metis
qed

end
