(* ===== verification/CF_Arrivals.thy ===== *)
theory CF_Arrivals
  imports CF_Scenario
begin

text \<open>
  Coordinator and workers as they run side by side: frames arrive one at a time, in any order. A program that
  waits for a frame is one whose connection holds no more, which the model stops there: neither program sends
  anything after a receive that found nothing, so what it has sent by then is what it sends on what it has.
\<close>

section \<open>The coordinator, waiting\<close>

definition coordinator_says :: "surroundings \<Rightarrow> string \<Rightarrow> TopologyGeneration \<Rightarrow> Coordinator \<Rightarrow> bytes list \<Rightarrow> bytes list \<Rightarrow>
    bytes list \<times> bytes list" where
  "coordinator_says w path topo c h0 h1 =
     (let c' = snd (first_phases w path topo (c\<lparr>co_pending := [Some (new_channel h0), Some (new_channel h1)]\<rparr>))
      in (sent_on 0 c', sent_on 1 c'))"

text \<open>How much of its replies the coordinator has sent when it has this many frames of each worker.\<close>

definition due :: "nat \<Rightarrow> nat" where
  "due d = (if d < 2 then 0 else if d < 3 then 1 else if d < 4 then 3 else 4)"

lemma drains_prefix:
  "\<forall>f \<in> set fs. encodable f \<Longrightarrow> drains (new_channel (map encode (take n fs))) (take n fs)"
  by (intro drains_new) (auto dest: in_set_takeD)

lemma take_two: "2 \<le> n \<Longrightarrow> take n (x # y # zs) = x # y # take (n - 2) zs"
  by (metis Suc_1 add_2_eq_Suc' le_add_diff_inverse2 take_Suc_Cons)

lemma take_one: "1 \<le> n \<Longrightarrow> take n (x # xs) = x # take (n - 1) xs"
  by (cases n) simp_all

lemma coordinator_paced:
  fixes w :: surroundings and b0 b1 :: u64
  assumes "co_workers c = []" "find_group (StrongId 1) (Generation 1) (co_runtime c) = None"
    and "length n0 < 2 ^ 16" "length n1 < 2 ^ 16" "b0 \<noteq> b1" "b0 \<noteq> 0" "b1 \<noteq> 0" "\<not> gen_is_null topo"
  defines "r0 \<equiv> if b1 < b0 then 1 else 0" and "r1 \<equiv> if b1 < b0 then 0 else 1"
  defines "result \<equiv> float_sum (sr_floats w) (rank_values r0) (rank_values r1)"
  shows "coordinator_says w path topo c (map encode (take d0 (worker_script b0 n0 r0))) (map encode (take d1 (worker_script b1 n1 r1))) =
    (map encode (take (due (min d0 d1)) (reply_script b0 r0 result)), map encode (take (due (min d0 d1)) (reply_script b1 r1 result)))"
proof -
  let ?bar = "\<lambda>b. frame ProtocolMessageKind.BARRIER (enc_auth (barrier_claim b))"
  let ?hi = "\<lambda>b n. frame HELLO (enc_boot_name b n)" and ?join = "\<lambda>b. frame JOIN_GROUP (enc_auth (barrier_claim b))"
  let ?ch0 = "new_channel (map encode (take d0 (worker_script b0 n0 r0)))"
  let ?ch1 = "new_channel (map encode (take d1 (worker_script b1 n1 r1)))"
  let ?c = "c\<lparr>co_pending := [Some ?ch0, Some ?ch1]\<rparr>"
  have c: "co_workers ?c = []" "co_pending ?c = [Some ?ch0, Some ?ch1]" "fc_sent ?ch0 = []" "fc_sent ?ch1 = []"
    "find_group (StrongId 1) (Generation 1) (co_runtime ?c) = None"
    "fc_valid ?ch0" "fc_valid ?ch1"
    using assms(1,2) by (simp_all add: new_channel_def find_group_def)
  have len: "length n0 < 2 ^ 64" "length n1 < 2 ^ 64" using assms(3,4) by simp_all
  have "drains ?ch0 (take d0 (worker_script b0 n0 r0))" "drains ?ch1 (take d1 (worker_script b1 n1 r1))"
    using script_encodable(1) assms(3,4) by (blast intro: drains_prefix)+
  then have drains: "drains ?ch0 (take d0 (?hi b0 n0 # ?join b0 # ?bar b0 # exchange_script b0 r0))"
      "drains ?ch1 (take d1 (?hi b1 n1 # ?join b1 # ?bar b1 # exchange_script b1 r1))"
    by (simp_all only: worker_script_eq)
  show ?thesis
  proof (cases "min d0 d1 < 2")
    case True
    then show ?thesis
      using group_waits [OF c(1-3) drains(1) len(1) drains(2) len(2) True]
      by (simp add: coordinator_says_def due_def Let_def)
  next
    case False
    then have two: "2 \<le> d0" "2 \<le> d1" by simp_all
    obtain c' where c': "first_phases w path topo ?c = after_group w path topo c'"
      "serving c' b0 b1 ([encode (admission r0)], [encode (admission r1)])
         (take (d0 - 2) (?bar b0 # exchange_script b0 r0)) (take (d1 - 2) (?bar b1 # exchange_script b1 r1))"
      using group_forms [OF c(1-4,6,7) drains(1) [unfolded take_two [OF two(1)]] len(1) drains(2) [unfolded take_two [OF two(2)]] len(2)
        assms(5-8) c(5)] unfolding r0_def r1_def by blast
    have says: "coordinator_says w path topo c (map encode (take d0 (worker_script b0 n0 r0))) (map encode (take d1 (worker_script b1 n1 r1))) =
      (sent_on 0 (snd (after_group w path topo c')), sent_on 1 (snd (after_group w path topo c')))"
      by (simp add: coordinator_says_def c'(1) Let_def)
    show ?thesis
    proof (cases "min d0 d1 < 3")
      case True
      then have "min (d0 - 2) (d1 - 2) < 1" "due (min d0 d1) = 1" using False by (simp_all add: due_def)
      then show ?thesis
        using barrier_waits [OF c'(2)] unfolding says by (simp add: reply_script_def)
    next
      case not3: False
      then have one: "1 \<le> d0 - 2" "1 \<le> d1 - 2" by simp_all
      obtain c'' where c'': "after_group w path topo c' = after_barrier w path topo c''"
        "serving c'' b0 b1 ([encode (admission r0), encode (frame COMPLETE (enc_simple 1 1))],
            [encode (admission r1), encode (frame COMPLETE (enc_simple 1 1))])
           (take (d0 - 2 - 1) (exchange_script b0 r0)) (take (d1 - 2 - 1) (exchange_script b1 r1))"
        using barrier_drains [OF c'(2) [unfolded take_one [OF one(1)] take_one [OF one(2)]], of w path topo] by auto
      show ?thesis
      proof (cases "min d0 d1 < 4")
        case True
        then have "min (d0 - 2 - 1) (d1 - 2 - 1) < 1" "due (min d0 d1) = 3" using not3 by (simp_all add: due_def)
        then show ?thesis
          using exchange_waits [OF c''(2) [unfolded exchange_script_def]] unfolding says c''(1)
          by (simp add: reply_script_def numeral_3_eq_3)
      next
        case not4: False
        then have one': "1 \<le> d0 - 2 - 1" "1 \<le> d1 - 2 - 1" "due (min d0 d1) = 4" by (simp_all add: due_def)
        have sums: "execute (sr_floats w) ALL_REDUCE ReductionOp.SUM FLOAT32 4 0 2 [rank_values r0, rank_values r1] = Inr [result, result]"
          unfolding result_def by (intro float_sums) simp_all
        show ?thesis
          using exchange_sends [OF c''(2) [unfolded exchange_script_def take_one [OF one'(1)] take_one [OF one'(2)]] _ _ sums] one'(3)
          unfolding says c''(1) by (simp add: reply_script_def)
      qed
    qed
  qed
qed

section \<open>A worker, waiting\<close>

definition worker_says :: "(bytes \<Rightarrow> string) \<Rightarrow> string \<Rightarrow> u64 \<Rightarrow> u64 \<Rightarrow> bytes list \<Rightarrow> bytes list" where
  "worker_says show_float name boot stall_after h =
     fc_sent (wk_channel (snd (run_worker show_float None name boot stall_after (new_worker h))))"

text \<open>How much of its script a worker has sent when it has this many frames of the coordinator.\<close>

definition affordable :: "nat \<Rightarrow> nat" where
  "affordable e = (if e < 1 then 2 else if e < 3 then 3 else if e < 4 then 4 else 5)"

lemma length_scripts [simp]: "length (worker_script boot name rank) = 5" "length (reply_script boot rank result) = 4"
  by (simp_all add: worker_script_eq exchange_script_def reply_script_def)

lemma hear_dry [simp]:
  "buffer (fc_decoder (wk_channel wk)) = [] \<Longrightarrow> fc_incoming (wk_channel wk) = [] \<Longrightarrow> hear wk = (Inl ''connection closed'', wk)"
  by (simp add: hear_def)

lemma loop_dry:
  assumes "drains (wk_channel wk) []"
  shows "worker_loop show_float boot stall_after rank i wk = (Returned 0, say ''coordinator closed'' wk)"
  using assms by (simp add: worker_loop.simps [of _ _ _ _ _ wk] exit_with_def)

lemma loop_requested:
  assumes "drains (wk_channel wk) [request_frame 1 False]" "0 < stall_after"
  shows "fc_sent (wk_channel (snd (worker_loop show_float boot stall_after rank 0 wk))) =
    fc_sent (wk_channel wk) @ [encode (contribution (contribution_claim boot first_desc) (rank_values rank))]"
proof -
  let ?wk1 = "wk\<lparr>wk_channel := snd (channel_recv (wk_channel wk))\<rparr>"
  have h: "hear wk = (Inr (request_frame 1 False), ?wk1)" "drains (wk_channel ?wk1) []"
    using assms(1) by (simp_all add: hear_eq)
  have "\<not> stall_after \<le> 0" "\<not> 4 < ds_element_count (request 1 False)" "take (4 * unat (ds_element_count (request 1 False))) (rank_values rank) = rank_values rank"
    using assms(2) by (simp_all add: request_def word_le_nat_alt unat_gt_0)
  then have "\<exists>e wk2. serve_request show_float boot stall_after rank 0 (enc_desc (request 1 False)) ?wk1 = (Some e, wk2) \<and>
      fc_sent (wk_channel wk2) = fc_sent (wk_channel wk) @ [encode (contribution (contribution_claim boot first_desc) (rank_values rank))]"
    using h(2) by (simp add: serve_request_def await_result_def worker_simps first_desc_def Let_def)
  then show ?thesis using h(1) by (auto simp: worker_loop.simps [of _ _ _ _ _ wk])
qed

lemma worker_paced:
  assumes "length result = 16" "0 < stall_after"
  shows "worker_says show_float name boot stall_after (map encode (take e (reply_script boot rank result))) =
    map encode (take (affordable e) (worker_script boot name rank))"
proof -
  let ?wk = "new_worker (map encode (take e (reply_script boot rank result)))"
  have d: "drains (wk_channel ?wk) (take e (reply_script boot rank result))" "fc_sent (wk_channel ?wk) = []"
    using script_encodable(2) [OF assms(1)] drains_prefix by (simp_all add: new_worker_def) (simp add: new_channel_def)
  consider "e = 0" | "e = 1" | "e = 2" | "e = 3" | "4 \<le> e" by linarith
  then show ?thesis
  proof cases
    case 1
    then show ?thesis
      using d by (simp add: worker_says_def run_worker_def worker_simps worker_script_eq affordable_def numeral_2_eq_2 Let_def)
  next
    case 2
    then show ?thesis
      using d by (simp add: worker_says_def run_worker_def worker_simps worker_script_eq affordable_def numeral_3_eq_3 reply_script_def
          Let_def loop_dry)
  next
    case 3
    then show ?thesis
      using d by (simp add: worker_says_def run_worker_def worker_simps worker_script_eq affordable_def numeral_3_eq_3 reply_script_def
          numeral_2_eq_2 Let_def loop_dry)
  next
    case 4
    then show ?thesis
      using d assms(2) by (simp add: worker_says_def run_worker_def worker_simps worker_script_eq affordable_def numeral_3_eq_3 reply_script_def
          eval_nat_numeral Let_def loop_requested exchange_script_def)
  next
    case 5
    then show ?thesis
      using worker_follows_replies [OF assms, of show_float name boot rank]
      by (auto simp: worker_says_def affordable_def)
  qed
qed

section \<open>Frames in flight\<close>

text \<open>The frames that have arrived: from each worker at the coordinator, and from the coordinator at each worker.\<close>

record Arrivals =
  up0 :: "bytes list"
  up1 :: "bytes list"
  down0 :: "bytes list"
  down1 :: "bytes list"

text \<open>One more frame arrives, on any connection and in any order: the next of what its sender has sent on what
  has arrived there. \<open>C\<close> is the coordinator, \<open>W0\<close> and \<open>W1\<close> the workers.\<close>

inductive arrive ::
  "(bytes list \<Rightarrow> bytes list \<Rightarrow> bytes list \<times> bytes list) \<Rightarrow> (bytes list \<Rightarrow> bytes list) \<Rightarrow> (bytes list \<Rightarrow> bytes list) \<Rightarrow>
    Arrivals \<Rightarrow> Arrivals \<Rightarrow> bool"
  for C :: "bytes list \<Rightarrow> bytes list \<Rightarrow> bytes list \<times> bytes list" and W0 W1 :: "bytes list \<Rightarrow> bytes list" where
  from_w0: "W0 (down0 n) = up0 n @ f # fs \<Longrightarrow> arrive C W0 W1 n (n\<lparr>up0 := up0 n @ [f]\<rparr>)"
| from_w1: "W1 (down1 n) = up1 n @ f # fs \<Longrightarrow> arrive C W0 W1 n (n\<lparr>up1 := up1 n @ [f]\<rparr>)"
| to_w0: "fst (C (up0 n) (up1 n)) = down0 n @ f # fs \<Longrightarrow> arrive C W0 W1 n (n\<lparr>down0 := down0 n @ [f]\<rparr>)"
| to_w1: "snd (C (up0 n) (up1 n)) = down1 n @ f # fs \<Longrightarrow> arrive C W0 W1 n (n\<lparr>down1 := down1 n @ [f]\<rparr>)"

text \<open>Programs that send a fixed script, as much of it as the frames they have allow.\<close>

definition paced ::
  "(bytes list \<Rightarrow> bytes list \<Rightarrow> bytes list \<times> bytes list) \<Rightarrow> (bytes list \<Rightarrow> bytes list) \<Rightarrow> (bytes list \<Rightarrow> bytes list) \<Rightarrow>
    Arrivals \<Rightarrow> bool" where
  "paced C W0 W1 z \<longleftrightarrow> length (up0 z) = 5 \<and> length (up1 z) = 5 \<and> length (down0 z) = 4 \<and> length (down1 z) = 4 \<and>
     (\<forall>i j. C (take i (up0 z)) (take j (up1 z)) = (take (due (min i j)) (down0 z), take (due (min i j)) (down1 z))) \<and>
     (\<forall>i. W0 (take i (down0 z)) = take (affordable i) (up0 z)) \<and> (\<forall>i. W1 (take i (down1 z)) = take (affordable i) (up1 z))"

definition nothing_yet :: Arrivals where
  "nothing_yet = \<lparr>up0 = [], up1 = [], down0 = [], down1 = []\<rparr>"

definition cut :: "Arrivals \<Rightarrow> nat \<Rightarrow> nat \<Rightarrow> nat \<Rightarrow> nat \<Rightarrow> Arrivals" where
  "cut z i j k l = \<lparr>up0 = take i (up0 z), up1 = take j (up1 z), down0 = take k (down0 z), down1 = take l (down1 z)\<rparr>"

lemma cut_simps [simp]:
  "up0 (cut z i j k l) = take i (up0 z)" "up1 (cut z i j k l) = take j (up1 z)"
  "down0 (cut z i j k l) = take k (down0 z)" "down1 (cut z i j k l) = take l (down1 z)"
  by (simp_all add: cut_def)

text \<open>More frames never change what has been sent on fewer.\<close>

lemma due_mono: "d \<le> d' \<Longrightarrow> due d \<le> due d'"
  by (simp add: due_def)

lemma affordable_mono: "e \<le> e' \<Longrightarrow> affordable e \<le> affordable e'"
  by (simp add: affordable_def)

lemma take_prefix: "i \<le> i' \<Longrightarrow> prefix (take i xs) (take i' xs)"
  by (metis min.absorb1 take_is_prefix take_take)

lemma paced_causal:
  assumes "paced C W0 W1 z" "i \<le> i'" "j \<le> j'"
  shows "prefix (fst (C (take i (up0 z)) (take j (up1 z)))) (fst (C (take i' (up0 z)) (take j' (up1 z))))"
    and "prefix (snd (C (take i (up0 z)) (take j (up1 z)))) (snd (C (take i' (up0 z)) (take j' (up1 z))))"
    and "prefix (W0 (take i (down0 z))) (W0 (take i' (down0 z)))"
    and "prefix (W1 (take i (down1 z))) (W1 (take i' (down1 z)))"
  using assms by (simp_all add: paced_def take_prefix affordable_mono due_mono [OF min.mono])

lemma take_further:
  assumes "take a s = take d s @ f # fs" "d \<le> length s"
  shows "d < length s \<and> take d s @ [f] = take (Suc d) s"
proof -
  have "d < length s" "d < a"
    using arg_cong [OF assms(1), of length] assms(2) by (auto simp: min_def split: if_splits)
  moreover have "take a s ! d = f" using assms by (simp add: nth_append)
  ultimately show ?thesis by (simp add: take_Suc_conv_app_nth)
qed

lemma further_take: "d < a \<Longrightarrow> d < length s \<Longrightarrow> \<exists>f fs. take a s = take d s @ f # fs"
  by (metis Cons_nth_drop_Suc append_take_drop_id length_take min_less_iff_conj take_take min.strict_order_iff)

lemma arrive_cut:
  assumes "paced C W0 W1 z" "arrive C W0 W1 (cut z i j k l) n" "i \<le> 5" "j \<le> 5" "k \<le> 4" "l \<le> 4"
  shows "\<exists>i' j' k' l'. n = cut z i' j' k' l' \<and> i' \<le> 5 \<and> j' \<le> 5 \<and> k' \<le> 4 \<and> l' \<le> 4 \<and> i' + j' + k' + l' = Suc (i + j + k + l)"
  using assms(2)
proof cases
  case (from_w0 f fs)
  then have "take (affordable k) (up0 z) = take i (up0 z) @ f # fs" using assms(1) by (simp add: paced_def)
  from take_further [OF this] assms(1,3) from_w0 have "i < 5" "n = cut z (Suc i) j k l" by (auto simp: paced_def cut_def)
  then show ?thesis using assms(3-6) by (intro exI [of _ "Suc i"] exI [of _ j] exI [of _ k] exI [of _ l]) simp
next
  case (from_w1 f fs)
  then have "take (affordable l) (up1 z) = take j (up1 z) @ f # fs" using assms(1) by (simp add: paced_def)
  from take_further [OF this] assms(1,4) from_w1 have "j < 5" "n = cut z i (Suc j) k l" by (auto simp: paced_def cut_def)
  then show ?thesis using assms(3-6) by (intro exI [of _ i] exI [of _ "Suc j"] exI [of _ k] exI [of _ l]) simp
next
  case (to_w0 f fs)
  then have "take (due (min i j)) (down0 z) = take k (down0 z) @ f # fs" using assms(1) by (simp add: paced_def)
  from take_further [OF this] assms(1,5) to_w0 have "k < 4" "n = cut z i j (Suc k) l" by (auto simp: paced_def cut_def)
  then show ?thesis using assms(3-6) by (intro exI [of _ i] exI [of _ j] exI [of _ "Suc k"] exI [of _ l]) simp
next
  case (to_w1 f fs)
  then have "take (due (min i j)) (down1 z) = take l (down1 z) @ f # fs" using assms(1) by (simp add: paced_def)
  from take_further [OF this] assms(1,6) to_w1 have "l < 4" "n = cut z i j k (Suc l)" by (auto simp: paced_def cut_def)
  then show ?thesis using assms(3-6) by (intro exI [of _ i] exI [of _ j] exI [of _ k] exI [of _ "Suc l"]) simp
qed

lemma arrived_cut:
  assumes "paced C W0 W1 z" "(arrive C W0 W1 ^^ t) nothing_yet n"
  shows "\<exists>i j k l. n = cut z i j k l \<and> i \<le> 5 \<and> j \<le> 5 \<and> k \<le> 4 \<and> l \<le> 4 \<and> i + j + k + l = t"
  using assms(2)
proof (induction t arbitrary: n)
  case 0
  then show ?case by (intro exI [of _ 0]) (simp add: cut_def nothing_yet_def)
next
  case (Suc t)
  then obtain n' where "(arrive C W0 W1 ^^ t) nothing_yet n'" "arrive C W0 W1 n' n" by (auto elim: relpowp_Suc_E)
  with Suc.IH obtain i j k l where "n' = cut z i j k l" "i \<le> 5" "j \<le> 5" "k \<le> 4" "l \<le> 4" "i + j + k + l = t" by blast
  with arrive_cut [OF assms(1), of i j k l n] \<open>arrive C W0 W1 n' n\<close> show ?case by auto
qed

lemma not_stuck:
  assumes "i \<le> 5" "j \<le> 5" "k \<le> 4" "l \<le> 4" "i + j + k + l < 18"
  shows "i < affordable k \<and> i < 5 \<or> j < affordable l \<and> j < 5 \<or> k < due (min i j) \<and> k < 4 \<or> l < due (min i j) \<and> l < 4"
  using assms unfolding affordable_def due_def by (auto split: if_splits)

lemma one_more_arrives:
  assumes "paced C W0 W1 z" "i \<le> 5" "j \<le> 5" "k \<le> 4" "l \<le> 4" "i + j + k + l < 18"
  shows "\<exists>n. arrive C W0 W1 (cut z i j k l) n"
proof -
  note paced = assms(1) [unfolded paced_def]
  consider "i < affordable k" "i < length (up0 z)" | "j < affordable l" "j < length (up1 z)"
    | "k < due (min i j)" "k < length (down0 z)" | "l < due (min i j)" "l < length (down1 z)"
    using not_stuck [OF assms(2-6)] paced by metis
  then show ?thesis
  proof cases
    case 1
    with further_take [of i "affordable k" "up0 z"] paced show ?thesis by (metis cut_simps(1,3) from_w0)
  next
    case 2
    with further_take [of j "affordable l" "up1 z"] paced show ?thesis by (metis cut_simps(2,4) from_w1)
  next
    case 3
    with further_take [of k "due (min i j)" "down0 z"] paced show ?thesis by (metis cut_simps(1-3) fst_conv to_w0)
  next
    case 4
    with further_take [of l "due (min i j)" "down1 z"] paced show ?thesis by (metis cut_simps(1,2,4) snd_conv to_w1)
  qed
qed

section \<open>Every order of arrival\<close>

text \<open>What arrives in the end. The rank is the order of the boot ids; the last reply carries the sum.\<close>

definition everything :: "float_ops \<Rightarrow> u64 \<Rightarrow> string \<Rightarrow> u64 \<Rightarrow> string \<Rightarrow> Arrivals" where
  "everything F b0 n0 b1 n1 =
     (let r0 = (if b1 < b0 then 1 else 0); r1 = (if b1 < b0 then 0 else 1);
          result = float_sum F (rank_values r0) (rank_values r1)
      in \<lparr>up0 = map encode (worker_script b0 n0 r0), up1 = map encode (worker_script b1 n1 r1),
          down0 = map encode (reply_script b0 r0 result), down1 = map encode (reply_script b1 r1 result)\<rparr>)"

lemma programs_are_paced:
  assumes "co_workers c = []" "find_group (StrongId 1) (Generation 1) (co_runtime c) = None"
    and "length n0 < 2 ^ 16" "length n1 < 2 ^ 16" "b0 \<noteq> b1" "b0 \<noteq> 0" "b1 \<noteq> 0" "\<not> gen_is_null topo" "0 < stall_after"
  shows "paced (coordinator_says w path topo c) (worker_says show_float n0 b0 stall_after) (worker_says show_float n1 b1 stall_after)
    (everything (sr_floats w) b0 n0 b1 n1)"
  unfolding paced_def everything_def Let_def
  using coordinator_paced [OF assms(1-8), of w path] worker_paced [OF length_float_sum assms(9), of show_float]
  by (simp add: take_map del: if_split)

text \<open>C5: two workers and the coordinator, connected. Frames arrive one at a time, on any of the four directions
  and in any order that sending allows, and each program sends what it can on the frames it has. Whatever the
  order, there are exactly 18 arrivals: before the last of them some frame can still arrive, so nothing
  deadlocks, and after it the connections have carried the same frames whatever happened in between, the
  coordinator has recorded the measurement and saved its state, and both workers have returned 0 on the closed
  connection.\<close>

theorem every_order_of_arrival_completes:
  assumes "co_workers c = []" "find_group (StrongId 1) (Generation 1) (co_runtime c) = None"
    and "length n0 < 2 ^ 16" "length n1 < 2 ^ 16" "b0 \<noteq> b1" "b0 \<noteq> 0" "b1 \<noteq> 0" "\<not> gen_is_null topo" "0 < stall_after"
    and "\<And>n. sr_disk w n = Io_ok"
    and "(arrive (coordinator_says w path topo c) (worker_says show_float n0 b0 stall_after)
      (worker_says show_float n1 b1 stall_after) ^^ t) nothing_yet n"
  shows "t \<le> 18 \<and>
    (t < 18 \<longrightarrow> (\<exists>n'. arrive (coordinator_says w path topo c) (worker_says show_float n0 b0 stall_after)
      (worker_says show_float n1 b1 stall_after) n n')) \<and>
    (t = 18 \<longrightarrow> n = everything (sr_floats w) b0 n0 b1 n1 \<and> (\<exists>c' v0 v1 m k0 k1.
      first_phases w path topo (c\<lparr>co_pending := [Some (new_channel (up0 n)), Some (new_channel (up1 n))]\<rparr>) = (Inr (), c') \<and>
      co_workers c' = [v0, v1] \<and> fc_sent (ws_channel v0) = down0 n \<and> fc_sent (ws_channel v1) = down1 n \<and>
      rt_measurements (co_runtime c') = om_put (StrongId 1001) m (rt_measurements (co_runtime c)) \<and>
      (\<exists>now. co_files c' path = Some (store_frame (build_state now (co_runtime c')))) \<and>
      run_worker show_float None n0 b0 stall_after (new_worker (down0 n)) = (Returned 0, k0) \<and>
      fc_sent (wk_channel k0) = up0 n \<and>
      run_worker show_float None n1 b1 stall_after (new_worker (down1 n)) = (Returned 0, k1) \<and>
      fc_sent (wk_channel k1) = up1 n))"
proof -
  let ?z = "everything (sr_floats w) b0 n0 b1 n1"
  note paced = programs_are_paced [OF assms(1-9), of w path show_float]
  obtain i j k l where n: "n = cut ?z i j k l" "i \<le> 5" "j \<le> 5" "k \<le> 4" "l \<le> 4" "i + j + k + l = t"
    using arrived_cut [OF paced assms(11)] by blast
  have "\<exists>n'. arrive (coordinator_says w path topo c) (worker_says show_float n0 b0 stall_after) (worker_says show_float n1 b1 stall_after) n n'"
    if "t < 18"
    using one_more_arrives [OF paced n(2-5)] n(1,6) that by simp
  moreover have "n = ?z" if "t = 18"
  proof -
    have "i = 5" "j = 5" "k = 4" "l = 4" using n(2-6) that by linarith+
    then show ?thesis using n(1) paced by (simp add: cut_def paced_def)
  qed
  moreover have "\<exists>c' v0 v1 m k0 k1.
      first_phases w path topo (c\<lparr>co_pending := [Some (new_channel (up0 ?z)), Some (new_channel (up1 ?z))]\<rparr>) = (Inr (), c') \<and>
      co_workers c' = [v0, v1] \<and> fc_sent (ws_channel v0) = down0 ?z \<and> fc_sent (ws_channel v1) = down1 ?z \<and>
      rt_measurements (co_runtime c') = om_put (StrongId 1001) m (rt_measurements (co_runtime c)) \<and>
      (\<exists>now. co_files c' path = Some (store_frame (build_state now (co_runtime c')))) \<and>
      run_worker show_float None n0 b0 stall_after (new_worker (down0 ?z)) = (Returned 0, k0) \<and>
      fc_sent (wk_channel k0) = up0 ?z \<and>
      run_worker show_float None n1 b1 stall_after (new_worker (down1 ?z)) = (Returned 0, k1) \<and>
      fc_sent (wk_channel k1) = up1 ?z"
    using full_scripts_complete [of "c\<lparr>co_pending := [Some (new_channel (up0 ?z)), Some (new_channel (up1 ?z))]\<rparr>" n0 n1 b0 b1 topo stall_after w _ path show_float]
      assms(1-10) by (simp add: everything_def Let_def find_group_def)
  ultimately show ?thesis using n(2-6) by auto
qed

theorem every_order_of_arrival_completes_witness:
  "\<exists>n c' v0 v1. (arrive (coordinator_says calm ''s'' (Generation 1) (new_process [] Map.empty)) (worker_says (\<lambda>_. []) ''A'' 200 9)
      (worker_says (\<lambda>_. []) ''B'' 100 9) ^^ 18) nothing_yet n \<and>
    n = everything zero_floats 200 ''A'' 100 ''B'' \<and>
    first_phases calm ''s'' (Generation 1) ((new_process [] Map.empty)
      \<lparr>co_pending := [Some (new_channel (up0 n)), Some (new_channel (up1 n))]\<rparr>) = (Inr (), c') \<and>
    co_workers c' = [v0, v1] \<and> fc_sent (ws_channel v0) = down0 n \<and> fc_sent (ws_channel v1) = down1 n"
proof -
  let ?c = "new_process [] Map.empty"
  let ?R = "arrive (coordinator_says calm ''s'' (Generation 1) ?c) (worker_says (\<lambda>_. []) ''A'' 200 9) (worker_says (\<lambda>_. []) ''B'' 100 9)"
  have "co_workers ?c = []" "find_group (StrongId 1) (Generation 1) (co_runtime ?c) = None" "sr_floats calm = zero_floats" "\<And>n. sr_disk calm n = Io_ok"
    by (simp_all add: new_process_def new_runtime_def find_group_def calm_def)
  then have run: "(?R ^^ t) nothing_yet n \<Longrightarrow> (t < 18 \<longrightarrow> (\<exists>n'. ?R n n')) \<and> (t = 18 \<longrightarrow> n = everything zero_floats 200 ''A'' 100 ''B'' \<and>
      (\<exists>c' v0 v1. first_phases calm ''s'' (Generation 1) (?c\<lparr>co_pending := [Some (new_channel (up0 n)), Some (new_channel (up1 n))]\<rparr>) =
         (Inr (), c') \<and> co_workers c' = [v0, v1] \<and> fc_sent (ws_channel v0) = down0 n \<and> fc_sent (ws_channel v1) = down1 n))" for t n
    using every_order_of_arrival_completes [of ?c "''A''" "''B''" 200 100 "Generation 1" 9 calm t "''s''" "\<lambda>_. []" n]
    by (simp add: gen_is_null_def) blast
  have "t \<le> 18 \<Longrightarrow> \<exists>n. (?R ^^ t) nothing_yet n" for t
  proof (induction t)
    case (Suc t)
    then show ?case using run [of t] by (meson Suc_le_lessD less_imp_le_nat relpowp_Suc_I)
  qed simp
  then obtain n where "(?R ^^ 18) nothing_yet n" by blast
  with run [of 18 n] show ?thesis by simp blast
qed

end
