(* ===== verification/CF_Program.thy ===== *)
theory CF_Program
  imports CF_Scenario
begin

text \<open>
  The whole run of the coordinator, from the first connection to the last saved state, when one of its two
  workers is lost after the first all-reduce.
\<close>

section \<open>From start to end\<close>

text \<open>A started process has a topology, an epoch and nothing else.\<close>

definition fresh :: "Coordinator \<Rightarrow> bool" where
  "fresh c \<longleftrightarrow> rt_groups (co_runtime c) = [] \<and> rt_measurements (co_runtime c) = [] \<and>
     gt_epoch (rt_authority (co_runtime c)) = Generation 2"

lemma build_topology_works: "\<exists>t. build_topology now = Inr t \<and> tp_generation t = Generation 1"
  by (simp add: build_topology_def new_topology_def add_node_def add_device_def add_link_def synthetic_link_def set_provenance_def
      Let_def sbind_def has_node_def has_device_def)

lemma start_result:
  assumes "sr_listen_error w = None"
  shows "\<exists>t c'. start w port c = (Inr t, c') \<and> tp_generation t = Generation 1 \<and> fresh c' \<and>
    co_workers c' = co_workers c \<and> co_pending c' = co_pending c"
proof -
  have "\<exists>t. build_topology now = Inr t \<and> tp_generation t = Generation 1" for now
    using build_topology_works by blast
  then obtain t where "\<And>now. build_topology now = Inr (t now) \<and> tp_generation (t now) = Generation 1"
    by metis
  then show ?thesis
    using assms by (simp add: start_def run_simps logline_def on_runtime_def register_backend_def op_simps advance_epoch_def wall_ns_def
        adopt_topology_def fresh_def new_runtime_def gen_next_def)
qed

lemma drained_is_dead: "drains ch [] \<Longrightarrow> dead ch"
  by (simp add: dead_def)

text \<open>The keys of the two generations of the group.\<close>

lemma om_put_generations:
  "om_put (StrongId 1, Generation 2) g2 (om_put (StrongId 1, Generation 1) g1 []) =
     [((StrongId 1 :: CollectiveGroupId, Generation 1 :: GroupGeneration), g1), ((StrongId 1, Generation 2), g2)]"
  by simp

section \<open>The run\<close>

lemma whole_run_result:
  assumes "co_workers c = []" "sr_listen_error w = None" "\<And>n. sr_disk w n = Io_ok"
    and "co_pending c = Some (new_channel (map encode (worker_script b0 n0 (if b1 < b0 then 1 else 0) @ more0))) #
      Some (new_channel (map encode (worker_script b1 n1 (if b1 < b0 then 0 else 1) @ more1))) # Some ch # rest"
    and "list_all encodable more0" "list_all encodable more1" "more0 = [] \<or> more1 = []"
    and "fst (channel_recv ch) = Inr (frame HELLO (enc_boot_name boot name))" "length name < 2 ^ 64"
    and "length n0 < 2 ^ 16" "length n1 < 2 ^ 16" "b0 \<noteq> b1" "b0 \<noteq> 0" "b1 \<noteq> 0"
  shows "\<exists>c' g1 g2 m now s. run_coordinator w port path c = (Inr (), c') \<and>
    {''PHASE_ALLREDUCE_DONE gen=2'', ''PHASE_DONE''} \<subseteq> set (co_log c') \<and>
    rt_groups (co_runtime c') = [((StrongId 1, Generation 1), g1), ((StrongId 1, Generation 2), g2)] \<and>
    pair_of 1 1 g1 \<and> boots g1 = {StrongId b0, StrongId b1} \<and> boots g2 = {StrongId b0, StrongId b1} \<and>
    rt_measurements (co_runtime c') = [(StrongId 1001, m)] \<and>
    co_files c' path = Some (store_frame s) \<and> s = build_state now (co_runtime c') \<and>
    ps_epoch s = Generation 3 \<and> ps_groups s = [export_group g1] \<and> ps_measurements s = [export_measurement m]"
proof -
  let ?ch0 = "new_channel (map encode (worker_script b0 n0 (if b1 < b0 then 1 else 0) @ more0))"
  let ?ch1 = "new_channel (map encode (worker_script b1 n1 (if b1 < b0 then 0 else 1) @ more1))"
  have new: "fc_sent (new_channel net) = []" "fc_valid (new_channel net)" for net by (simp_all add: new_channel_def)
  have lens: "length n0 < 2 ^ 64" "length n1 < 2 ^ 64" using assms(10,11) by simp_all
  have d: "drains ?ch0 (worker_script b0 n0 (if b1 < b0 then 1 else 0) @ more0)"
    "drains ?ch1 (worker_script b1 n1 (if b1 < b0 then 0 else 1) @ more1)"
    using script_encodable(1) assms(5,6,10,11) by (intro drains_new; fastforce simp: list_all_iff)+
  obtain t c1 where 1: "start w port c = (Inr t, c1)" "tp_generation t = Generation 1" "fresh c1" "co_workers c1 = []"
    "co_pending c1 = Some ?ch0 # Some ?ch1 # Some ch # rest"
    using start_result [OF assms(2), of port c] assms(1,4) by auto
  have topo: "\<not> gen_is_null (Generation 1 :: TopologyGeneration)" by (simp add: gen_is_null_def)
  have none: "find_group (StrongId 1) (Generation 1) (co_runtime c1) = None" using 1(3) by (simp add: fresh_def find_group_def)
  obtain c2 g1 m now0 sent where 2: "first_phases w path (Generation 1) c1 = (Inr (), c2)" "co_pending c2 = Some ch # rest"
    "serving c2 b0 b1 sent more0 more1" "boots g1 = {StrongId b0, StrongId b1}" "pair_of 1 1 g1"
    "rt_groups (co_runtime c2) = om_put (StrongId 1, Generation 1) g1 (rt_groups (co_runtime c1))"
    "rt_authority (co_runtime c2) = rt_authority (co_runtime c1)"
    "rt_measurements (co_runtime c2) = om_put (StrongId 1001) m (rt_measurements (co_runtime c1))"
    using first_phases_result [OF 1(4,5) new(1) new(1) new(2) new(2) d(1) lens(1) d(2) lens(2) assms(12-14) topo none assms(3), of path]
    by blast
  obtain v0 v1 where v: "co_workers c2 = [v0, v1]" "ws_boot v0 = b0" "ws_boot v1 = b1"
    "fc_valid (ws_channel v0)" "fc_valid (ws_channel v1)" "drains (ws_channel v0) more0" "drains (ws_channel v1) more1"
    using 2(3) by (auto simp: serving_def)
  have lost: "dead (ws_channel v0) \<or> dead (ws_channel v1)" using v(6,7) assms(7) drained_is_dead by auto
  have none2: "find_group (StrongId 1) (Generation 2) (co_runtime c2) = None"
    using 1(3) 2(6) by (simp add: fresh_def find_group_def)
  obtain c3 g2 now where 3: "closing_phases w path (Generation 1) c2 = (Inr (), c3)" "boots g2 = {StrongId b0, StrongId b1}"
    "rt_groups (co_runtime c3) = om_put (StrongId 1, Generation 2) g2 (rt_groups (co_runtime c2))"
    "gt_epoch (rt_authority (co_runtime c3)) = gen_next (gt_epoch (rt_authority (co_runtime c2)))"
    "rt_measurements (co_runtime c3) = rt_measurements (co_runtime c2)"
    "co_files c3 path = Some (store_frame (build_state now (co_runtime c3)))"
    "{''PHASE_ALLREDUCE_DONE gen=2'', ''PHASE_DONE''} \<subseteq> set (co_log c3)"
    using closing_phases_result [OF v(1,4,5) lost 2(2) assms(8,9) _ _ _ topo none2 assms(3), of path] v(2,3) assms(12-14) by metis
  have groups: "rt_groups (co_runtime c3) = [((StrongId 1, Generation 1), g1), ((StrongId 1, Generation 2), g2)]"
    using 1(3) 2(6) 3(3) by (simp add: fresh_def)
  have measured: "rt_measurements (co_runtime c3) = [(StrongId 1001, m)]" using 1(3) 2(8) 3(5) by (simp add: fresh_def)
  have "gt_epoch (rt_authority (co_runtime c3)) = Generation 3" using 1(3) 2(7) 3(4) by (simp add: fresh_def gen_next_def)
  then have saved: "ps_epoch (build_state now (co_runtime c3)) = Generation 3" "ps_groups (build_state now (co_runtime c3)) = [export_group g1]"
    "ps_measurements (build_state now (co_runtime c3)) = [export_measurement m]"
    using groups measured by (simp_all add: build_state_def find_group_def measurement_def measurement_ids_def List.map_filter_def om_keys_def)
  have "run_coordinator w port path c = (Inr (), c3)"
    using 1(1,2) 2(1) 3(1) by (simp add: run_coordinator_def seq_def)
  then show ?thesis using 3(2,6,7) 2(4,5) groups measured saved by blast
qed

text \<open>C9: the whole program, from start to end, when the connection of one of its two workers ends after the
  first all-reduce. The run ends normally and logs PHASE_DONE and the second all-reduce as done; but both
  generations of the group, the second one formed after the loss, are over the same two workers, the lost one
  included; the only measurement is that of the first all-reduce; the epoch has become 3, and the file holds
  the first generation of the group only, with that epoch.\<close>

theorem whole_run_regroups_the_lost:
  assumes "co_workers c = []" "sr_listen_error w = None" "\<And>n. sr_disk w n = Io_ok"
    and "co_pending c = Some (new_channel (map encode (worker_script b0 n0 (if b1 < b0 then 1 else 0) @ more0))) #
      Some (new_channel (map encode (worker_script b1 n1 (if b1 < b0 then 0 else 1) @ more1))) # Some ch # rest"
    and "list_all encodable more0" "list_all encodable more1" "more0 = [] \<or> more1 = []"
    and "fst (channel_recv ch) = Inr (frame HELLO (enc_boot_name boot name))" "length name < 2 ^ 64"
    and "length n0 < 2 ^ 16" "length n1 < 2 ^ 16" "b0 \<noteq> b1" "b0 \<noteq> 0" "b1 \<noteq> 0"
  shows "\<exists>c' g1 g2 m now s. run_coordinator w port path c = (Inr (), c') \<and>
    {''PHASE_ALLREDUCE_DONE gen=2'', ''PHASE_DONE''} \<subseteq> set (co_log c') \<and>
    rt_groups (co_runtime c') = [((StrongId 1, Generation 1), g1), ((StrongId 1, Generation 2), g2)] \<and>
    boots g1 = {StrongId b0, StrongId b1} \<and> boots g2 = {StrongId b0, StrongId b1} \<and>
    rt_measurements (co_runtime c') = [(StrongId 1001, m)] \<and>
    co_files c' path = Some (store_frame s) \<and> s = build_state now (co_runtime c') \<and>
    ps_epoch s = Generation 3 \<and> ps_groups s = [export_group g1] \<and> ps_measurements s = [export_measurement m]"
  using whole_run_result [OF assms, of port path] by (elim exE conjE) (intro exI conjI; assumption)

theorem whole_run_regroups_the_lost_witness:
  "\<exists>c' g1 g2 m. run_coordinator calm 7000 ''s'' (new_process
      [Some (new_channel (map encode (worker_script 200 ''A'' 1))),
       Some (new_channel (map encode (worker_script 100 ''B'' 0 @ [contribution no_claim (rank_values 0)]))),
       Some (new_channel [encode (frame HELLO (enc_boot_name 300 ''C''))])] Map.empty) = (Inr (), c') \<and>
    ''PHASE_DONE'' \<in> set (co_log c') \<and>
    rt_groups (co_runtime c') = [((StrongId 1, Generation 1), g1), ((StrongId 1, Generation 2), g2)] \<and>
    boots g2 = {StrongId 200, StrongId 100} \<and> rt_measurements (co_runtime c') = [(StrongId 1001, m)]"
proof -
  let ?f = "frame HELLO (enc_boot_name 300 ''C'')"
  let ?c = "new_process [Some (new_channel (map encode (worker_script 200 ''A'' 1))),
       Some (new_channel (map encode (worker_script 100 ''B'' 0 @ [contribution no_claim (rank_values 0)]))),
       Some (new_channel [encode ?f])] Map.empty"
  have hello: "fst (channel_recv (new_channel [encode ?f])) = Inr ?f"
    using drains_new [of "[?f]"] by (simp add: encodable_def)
  have "encodable (contribution no_claim (rank_values 0))" by (simp add: encodable_def)
  then show ?thesis
    using whole_run_regroups_the_lost [of ?c calm 200 "''A''" 100 "[]" "''B''" "[contribution no_claim (rank_values 0)]"
      "new_channel [encode ?f]" "[]" 300 "''C''" 7000 "''s''"] hello
    by (simp add: new_process_def calm_def) blast
qed

end
