(* ===== verification/CF_Restart.thy ===== *)
theory CF_Restart
  imports CF_Program
begin

text \<open>
  The second program (\<open>run_recover\<close>) with its two workers: from the file a run has left to the all-reduce over
  the recovered state.
\<close>

section \<open>Phases of the recovery\<close>

lemma recover_state_result:
  assumes "store_load path (co_files c) = Inr (s, r)" "ps_groups s = [export_group g]" "fst (build b) = Inr g"
    and "\<forall>p \<in> set (cg_participants g). pt_is_known p"
  shows "\<exists>src c'. recover_state w path c = (Inr s, c') \<and> co_workers c' = co_workers c \<and> co_pending c' = co_pending c \<and>
    rt_groups (co_runtime c') = [((cg_id g, cg_generation g), g\<lparr>cg_provenance := src\<rparr>)] \<and>
    gt_epoch (rt_authority (co_runtime c')) = ps_epoch s \<and> rt_measurements (co_runtime c') = []"
  using restored_builds [OF assms(3,4)]
  by (simp add: recover_state_def act_simps assms(1,2) rebuild_runtime_def rebuild_group_def
      register_backend_def op_simps set_live_boot_def new_runtime_def register_group_def group_key_of_def) blast

lemma recover_worker_drains:
  assumes "co_pending c = Some ch # rest" "drains ch (frame HELLO (enc_boot_name boot name) # j # fs)"
  shows "\<exists>c' v. recover_worker c = (Inr (), c') \<and> co_workers c' = co_workers c @ [v] \<and> ws_boot v = boot \<and>
    fc_sent (ws_channel v) = fc_sent ch \<and> fc_valid (ws_channel v) = fc_valid ch \<and> drains (ws_channel v) fs \<and>
    co_pending c' = rest \<and> same_books c c'"
proof -
  obtain ch1 ch2 where "channel_recv ch = (Inr (frame HELLO (enc_boot_name boot name)), ch1)"
    "channel_recv ch1 = (Inr j, ch2)" "drains ch2 fs" "fc_sent ch2 = fc_sent ch" "fc_valid ch2 = fc_valid ch"
    using assms(2) recv_keeps by (metis drains.simps(2) prod.collapse)
  moreover have "r_u64 (new_reader (enc_boot_name boot name)) = Some (boot, reader_at (w_u64 boot) (w_string name))"
    using r_u64_enc [of "[]" boot "w_string name"] by (simp add: new_reader_at enc_boot_name_def)
  ultimately show ?thesis
    using assms(1) by (simp add: recover_worker_def accept_client_def act_simps add_worker_def same_books_def)
qed

abbreviation readmission :: "u64 \<Rightarrow> Frame" where
  "readmission rank \<equiv> frame GROUP_ACCEPT (enc_rank_accept rank 2 7 3)"

lemma fresh_pair_builds:
  assumes "a \<noteq> b" "a \<noteq> 0" "b \<noteq> 0"
  shows "\<exists>g. fst (build (add_member 901 b 1 (add_member 900 a 0 (group_builder 7 3 (Generation 1) src)))) = Inr g \<and>
    boots g = {StrongId a, StrongId b} \<and> cg_id g = StrongId 7 \<and> cg_generation g = Generation 3"
proof -
  let ?b = "add_member 901 b 1 (add_member 900 a 0 (group_builder 7 3 (Generation 1) src))"
  have ok: "builder_ok ?b"
    using assms by (simp add: builder_ok_def add_member_def add_participant_def group_builder_def new_group_builder_def
        gen_is_null_def id_is_null_def)
  have "map pt_boot (cg_participants (group_of ?b)) = map pt_boot (sort_key pt_id (gb_participants ?b))"
    by (simp add: group_of_def map_ranked)
  then have "boots (group_of ?b) = {StrongId a, StrongId b}"
    by (simp add: boots_def del: map_eq_conv)
      (auto simp: add_member_def add_participant_def group_builder_def new_group_builder_def)
  with ok show ?thesis
    by (intro exI [of _ "group_of ?b"])
      (simp add: build_ok_iff group_of_def add_member_def add_participant_def group_builder_def new_group_builder_def)
qed

lemma recover_group_result:
  assumes "serving c b0 b1 (s0, s1) fs0 fs1" "b0 \<noteq> b1" "b0 \<noteq> 0" "b1 \<noteq> 0"
    and "find_group (StrongId 7) (Generation 3) (co_runtime c) = None"
  shows "\<exists>c' g. recover_group w c = (Inr (), c') \<and> boots g = {StrongId b0, StrongId b1} \<and>
    serving c' b0 b1 (s0 @ [encode (readmission (if b1 < b0 then 1 else 0))], s1 @ [encode (readmission (if b1 < b0 then 0 else 1))]) fs0 fs1 \<and>
    rt_groups (co_runtime c') = om_put (StrongId 7, Generation 3) g (rt_groups (co_runtime c)) \<and>
    rt_authority (co_runtime c') = rt_authority (co_runtime c) \<and> rt_measurements (co_runtime c') = rt_measurements (co_runtime c)"
proof -
  obtain v0 v1 where v: "co_workers c = [v0, v1]" "ws_boot v0 = b0" "ws_boot v1 = b1" "s0 = fc_sent (ws_channel v0)"
    "s1 = fc_sent (ws_channel v1)" "fc_valid (ws_channel v0)" "fc_valid (ws_channel v1)" "drains (ws_channel v0) fs0" "drains (ws_channel v1) fs1"
    using assms(1) by (auto simp: serving_def)
  have reg: "register_group g rt = (Inr g, rt\<lparr>rt_groups := om_put (StrongId 7, Generation 3) g (rt_groups rt)\<rparr>)"
    if "cg_id g = StrongId 7" "cg_generation g = Generation 3"
      "om_find (rt_groups rt) (StrongId 7, Generation 3) = None" for g rt
    using that by (simp add: register_group_def group_key_of_def)
  let ?src = "fst (make_source (rt_source_counter (co_runtime c)) (sr_clock w (co_readings c)) ''recovered fresh group'' ProvenanceKind.DERIVED)"
  show ?thesis
  proof (cases "b1 < b0")
    case True
    obtain g where "fst (build (add_member 901 b0 1 (add_member 900 b1 0 (group_builder 7 3 (Generation 1) ?src)))) = Inr g"
      "boots g = {StrongId b1, StrongId b0}" "cg_id g = StrongId 7" "cg_generation g = Generation 3"
      using fresh_pair_builds [of b1 b0 ?src] assms(2-4) by auto
    then show ?thesis
      using v True assms(5) by (auto simp: recover_group_def run_simps reg find_group_def serving_def)
  next
    case False
    obtain g where "fst (build (add_member 901 b1 1 (add_member 900 b0 0 (group_builder 7 3 (Generation 1) ?src)))) = Inr g"
      "boots g = {StrongId b0, StrongId b1}" "cg_id g = StrongId 7" "cg_generation g = Generation 3"
      using fresh_pair_builds [of b0 b1 ?src] assms(2-4) by auto
    then show ?thesis
      using v False assms(5) by (auto simp: recover_group_def run_simps reg find_group_def serving_def)
  qed
qed

text \<open>The last phases: the frame of each worker that is ignored, the acknowledgement, and the all-reduce.\<close>

abbreviation recovery_request_frame :: "CoordinatorEpoch \<Rightarrow> Frame" where
  "recovery_request_frame epoch \<equiv> frame REQUEST_COLLECTIVE (enc_desc (recovery_request epoch))"

lemma recover_exchange_result:
  fixes epoch :: CoordinatorEpoch and outs :: "bytes list"
  assumes "serving c b0 b1 (s0, s1) (f0 # contribution a0 x0 # g0 # fs0) (f1 # contribution a1 x1 # g1 # fs1)"
    and "length x0 < 2 ^ 64" "length x1 < 2 ^ 64"
    and "execute (sr_floats w) ALL_REDUCE ReductionOp.SUM FLOAT32 4 0 2 [x0, x1] = Inr outs"
  defines "told \<equiv> [encode (frame COMPLETE (enc_simple 1 1)), encode (recovery_request_frame epoch),
    encode (frame RESULT (enc_blob no_claim (outs ! 0)))]"
  shows "\<exists>c'. seq (for_each ignore_frame [0, 1]) (\<lambda>_.
      seq (for_each (\<lambda>i. send_to i (frame COMPLETE (enc_simple 1 1))) [0, 1]) (\<lambda>_. recover_collective w epoch)) c = (Inr (), c') \<and>
    serving c' b0 b1 (s0 @ told, s1 @ told) fs0 fs1 \<and> co_runtime c' = co_runtime c \<and> last (co_log c') = ''RECOVERY_DONE''"
proof -
  obtain v0 v1 where v: "co_workers c = [v0, v1]" "ws_boot v0 = b0" "ws_boot v1 = b1" "s0 = fc_sent (ws_channel v0)"
    "s1 = fc_sent (ws_channel v1)" "fc_valid (ws_channel v0)" "fc_valid (ws_channel v1)"
    "drains (ws_channel v0) (f0 # contribution a0 x0 # g0 # fs0)" "drains (ws_channel v1) (f1 # contribution a1 x1 # g1 # fs1)"
    using assms(1) by (auto simp: serving_def)
  show ?thesis
    using v assms(2-4)
    by (simp add: recover_collective_def ignore_frame_def run_simps serving_def told_def)
qed

section \<open>The scripts of the recovery\<close>

definition restart_worker_script :: "u64 \<Rightarrow> string \<Rightarrow> u64 \<Rightarrow> CoordinatorEpoch \<Rightarrow> Frame list" where
  "restart_worker_script boot name rank epoch =
     joining name boot 3 @ said boot rank (recovery_request epoch, no_claim, [])"

definition restart_reply_script :: "u64 \<Rightarrow> CoordinatorEpoch \<Rightarrow> bytes \<Rightarrow> Frame list" where
  "restart_reply_script rank epoch result =
     [readmission rank, frame COMPLETE (enc_simple 1 1), recovery_request_frame epoch, frame RESULT (enc_blob no_claim result)]"

lemma restart_worker_script_eq:
  "\<exists>p f a g. restart_worker_script boot name rank epoch =
     frame HELLO (enc_boot_name boot name) # p # f # contribution a (rank_values rank) # [g]"
  by (simp add: restart_worker_script_def joining_def said_def contribution_of_def recovery_request_def) blast

lemma restart_encodable:
  "length name < 2 ^ 16 \<Longrightarrow> \<forall>f \<in> set (restart_worker_script boot name rank epoch). encodable f"
  "length result = 16 \<Longrightarrow> \<forall>f \<in> set (restart_reply_script rank epoch result). encodable f"
  by (auto simp: restart_worker_script_def joining_def said_def contribution_of_def recovery_request_def restart_reply_script_def
      encodable_def)

lemma worker_follows_restart:
  assumes "length result = 16" "0 < stall_after"
  shows "\<exists>wk'. run_worker show_float None name boot stall_after (new_worker (map encode (restart_reply_script rank epoch result))) =
      (Returned 0, wk') \<and> fc_sent (wk_channel wk') = map encode (restart_worker_script boot name rank epoch)"
proof -
  let ?q = "(recovery_request epoch, no_claim, result)"
  let ?wk = "new_worker (map encode (restart_reply_script rank epoch result))"
  have sent: "fc_sent (wk_channel ?wk) = []" by (simp add: new_worker_def new_channel_def)
  have "ends_after (wk_channel ?wk) (restart_reply_script rank epoch result)"
    using restart_encodable(2) [OF assms(1)] by (intro ends_after_stream) (auto simp: new_worker_def new_channel_def)
  then have ends: "ends_after (wk_channel ?wk) (readmission rank # frame COMPLETE (enc_simple 1 1) # concat (map heard [?q]))"
    by (simp add: restart_reply_script_def heard_def)
  have "list_all answerable [?q]" "length [?q] \<le> unat stall_after"
    using assms by (simp_all add: answerable_def recovery_request_def Suc_le_eq unat_gt_0 word_neq_0_conv)
  moreover obtain wk1 where
    "run_worker show_float None name boot stall_after ?wk = worker_loop show_float boot stall_after rank 0 wk1"
    "fc_sent (wk_channel wk1) = map encode (joining name boot 3)" "ends_after (wk_channel wk1) (concat (map heard [?q]))"
    using run_worker_joins [OF ends, of show_float name boot stall_after] unfolding sent append_Nil by blast
  ultimately show ?thesis
    using worker_loop_serves [of wk1 "[?q]" 0 stall_after show_float boot rank]
    by (auto simp: restart_worker_script_def said_def)
qed

section \<open>The recovery program\<close>

lemma run_recover_result:
  fixes w :: surroundings and b0 b1 :: u64 and s :: PersistentState
  assumes "store_load path (co_files c) = Inr (s, r)" "ps_groups s = [export_group g]" "fst (build b) = Inr g"
    and "\<forall>p \<in> set (cg_participants g). pt_is_known p" "cg_id g = StrongId 1" "cg_generation g = Generation 1" "co_workers c = []"
    and "co_pending c = [Some (new_channel (map encode (restart_worker_script b0 n0 (if b1 < b0 then 1 else 0) (ps_epoch s)))),
      Some (new_channel (map encode (restart_worker_script b1 n1 (if b1 < b0 then 0 else 1) (ps_epoch s))))]"
    and "length n0 < 2 ^ 16" "length n1 < 2 ^ 16" "b0 \<noteq> b1" "b0 \<noteq> 0" "b1 \<noteq> 0"
  defines "result \<equiv> float_sum (sr_floats w) (rank_values (if b1 < b0 then 1 else 0)) (rank_values (if b1 < b0 then 0 else 1))"
  shows "\<exists>c' src g'. run_recover w path c = (Inr (), c') \<and> last (co_log c') = ''RECOVERY_DONE'' \<and>
    serving c' b0 b1 (map encode (restart_reply_script (if b1 < b0 then 1 else 0) (ps_epoch s) result),
      map encode (restart_reply_script (if b1 < b0 then 0 else 1) (ps_epoch s) result)) [] [] \<and>
    rt_groups (co_runtime c') = [((StrongId 1, Generation 1), g\<lparr>cg_provenance := src\<rparr>), ((StrongId 7, Generation 3), g')] \<and>
    boots g' = {StrongId b0, StrongId b1} \<and> gt_epoch (rt_authority (co_runtime c')) = ps_epoch s"
proof -
  let ?r0 = "if b1 < b0 then 1 else 0 :: u64" and ?r1 = "if b1 < b0 then 0 else 1 :: u64"
  let ?ch0 = "new_channel (map encode (restart_worker_script b0 n0 ?r0 (ps_epoch s)))"
  let ?ch1 = "new_channel (map encode (restart_worker_script b1 n1 ?r1 (ps_epoch s)))"
  have new: "fc_sent (new_channel net) = []" "fc_valid (new_channel net)" for net by (simp_all add: new_channel_def)
  obtain p0 f0 a0 h0 where s0: "restart_worker_script b0 n0 ?r0 (ps_epoch s) =
      frame HELLO (enc_boot_name b0 n0) # p0 # f0 # contribution a0 (rank_values ?r0) # [h0]"
    using restart_worker_script_eq by metis
  obtain p1 f1 a1 h1 where s1: "restart_worker_script b1 n1 ?r1 (ps_epoch s) =
      frame HELLO (enc_boot_name b1 n1) # p1 # f1 # contribution a1 (rank_values ?r1) # [h1]"
    using restart_worker_script_eq by metis
  have "drains ?ch0 (restart_worker_script b0 n0 ?r0 (ps_epoch s))" "drains ?ch1 (restart_worker_script b1 n1 ?r1 (ps_epoch s))"
    using restart_encodable(1) assms(9,10) by (blast intro: drains_new)+
  then have d: "drains ?ch0 (frame HELLO (enc_boot_name b0 n0) # p0 # f0 # contribution a0 (rank_values ?r0) # [h0])"
    "drains ?ch1 (frame HELLO (enc_boot_name b1 n1) # p1 # f1 # contribution a1 (rank_values ?r1) # [h1])"
    by (simp_all only: s0 s1)
  obtain c1 src where 1: "recover_state w path c = (Inr s, c1)" "co_workers c1 = []" "co_pending c1 = Some ?ch0 # [Some ?ch1]"
    "rt_groups (co_runtime c1) = [((StrongId 1, Generation 1), g\<lparr>cg_provenance := src\<rparr>)]"
    "gt_epoch (rt_authority (co_runtime c1)) = ps_epoch s"
    using recover_state_result [OF assms(1-4), of w] assms(5-8) by auto
  obtain c2 v0 where 2: "recover_worker c1 = (Inr (), c2)" "co_workers c2 = [v0]" "ws_boot v0 = b0" "fc_sent (ws_channel v0) = []"
    "fc_valid (ws_channel v0)" "drains (ws_channel v0) (f0 # contribution a0 (rank_values ?r0) # [h0])"
    "co_pending c2 = Some ?ch1 # []" "same_books c1 c2"
    using recover_worker_drains [OF 1(3) d(1)] 1(2) new by auto
  obtain c3 v1 where 3: "recover_worker c2 = (Inr (), c3)" "co_workers c3 = [v0, v1]" "ws_boot v1 = b1" "fc_sent (ws_channel v1) = []"
    "fc_valid (ws_channel v1)" "drains (ws_channel v1) (f1 # contribution a1 (rank_values ?r1) # [h1])" "same_books c2 c3"
    using recover_worker_drains [OF 2(7) d(2)] 2(2) new by auto
  have rt3: "co_runtime c3 = co_runtime c1" using 2(8) 3(7) by (simp add: same_books_def)
  have sv: "serving c3 b0 b1 ([], []) (f0 # contribution a0 (rank_values ?r0) # [h0]) (f1 # contribution a1 (rank_values ?r1) # [h1])"
    using 2(3-6) 3(2-6) by (simp add: serving_def)
  have none: "find_group (StrongId 7) (Generation 3) (co_runtime c3) = None" using rt3 1(4) by (simp add: find_group_def)
  obtain c4 g' where 4: "recover_group w c3 = (Inr (), c4)" "boots g' = {StrongId b0, StrongId b1}"
    "serving c4 b0 b1 ([encode (readmission ?r0)], [encode (readmission ?r1)])
      (f0 # contribution a0 (rank_values ?r0) # [h0]) (f1 # contribution a1 (rank_values ?r1) # [h1])"
    "rt_groups (co_runtime c4) = om_put (StrongId 7, Generation 3) g' (rt_groups (co_runtime c3))"
    "rt_authority (co_runtime c4) = rt_authority (co_runtime c3)"
    using recover_group_result [OF sv assms(11-13) none, of w] unfolding append_Nil by blast
  have sums: "execute (sr_floats w) ALL_REDUCE ReductionOp.SUM FLOAT32 4 0 2 [rank_values ?r0, rank_values ?r1] = Inr [result, result]"
    unfolding result_def by (intro float_sums) simp_all
  have len: "length (rank_values r) < 2 ^ 64" for r by simp
  obtain c5 where 5: "seq (for_each ignore_frame [0, 1]) (\<lambda>_.
      seq (for_each (\<lambda>i. send_to i (frame COMPLETE (enc_simple 1 1))) [0, 1]) (\<lambda>_. recover_collective w (ps_epoch s))) c4 = (Inr (), c5)"
    "serving c5 b0 b1 ([encode (readmission ?r0)] @ [encode (frame COMPLETE (enc_simple 1 1)), encode (recovery_request_frame (ps_epoch s)),
        encode (frame RESULT (enc_blob no_claim ([result, result] ! 0)))],
      [encode (readmission ?r1)] @ [encode (frame COMPLETE (enc_simple 1 1)), encode (recovery_request_frame (ps_epoch s)),
        encode (frame RESULT (enc_blob no_claim ([result, result] ! 0)))]) [] []"
    "co_runtime c5 = co_runtime c4" "last (co_log c5) = ''RECOVERY_DONE''"
    using recover_exchange_result [OF 4(3) len len sums, of "ps_epoch s"] by blast
  have "recovery w path c = (Inr (), c5)"
    unfolding recovery_def by (simp only: seq_def [of "recover_state w path"] seq_def [of recover_worker] seq_def [of "recover_group w"]
      1(1) 2(1) 3(1) 4(1) 5(1) prod.case sum.case)
  then have "run_recover w path c = (Inr (), c5)" by (simp add: run_recover_def)
  moreover have "serving c5 b0 b1 (map encode (restart_reply_script ?r0 (ps_epoch s) result),
      map encode (restart_reply_script ?r1 (ps_epoch s) result)) [] []"
    using 5(2) by (simp add: restart_reply_script_def)
  moreover have "rt_groups (co_runtime c5) = [((StrongId 1, Generation 1), g\<lparr>cg_provenance := src\<rparr>), ((StrongId 7, Generation 3), g')]"
    using 1(4) 4(4) 5(3) rt3 by simp
  moreover have "gt_epoch (rt_authority (co_runtime c5)) = ps_epoch s" using 1(5) 4(5) 5(3) rt3 by simp
  ultimately show ?thesis using 4(2) 5(4) by blast
qed

section \<open>A restart after the run\<close>

lemma length_write_measurement [simp]: "length (write_measurement m) = 84"
  by (simp add: write_measurement_def)

lemma length_write_participant [simp]: "length (write_participant p) = 57"
  by (simp add: write_participant_def)

lemma saved_pair_loads:
  assumes "pair_of 1 1 g" "s = build_state now rt" "ps_groups s = [export_group g]" "ps_measurements s = [m]"
    and "fs path = Some (store_frame s)"
  shows "\<exists>r. store_load path fs = Inr (s, r)"
proof -
  obtain b where "fst (build b) = Inr g" using assms(1) by (auto simp: pair_of_def)
  then have "group_wf g" by (rule build_wf)
  then have ok: "group_ok (export_group g)"
    using assms(1) by (simp add: group_ok_def export_group_def group_wf_def comp_def export_participant_def pair_of_def)
  have plain: "ps_health s = None" "ps_backends s = []" "ps_format_version s = 1" by (simp_all add: assms(2) build_state_def)
  have "storable s" using ok assms(3,4) plain by (simp add: storable_def health_ok_def kFormatVersion_def)
  moreover have "length (write_group (export_group g)) < 1000"
    using assms(1) by (simp add: write_group_def export_group_def pair_of_def length_concat comp_def sum_list_triv)
  then have "length (store_encode s) < 2 ^ 64" using assms(3,4) plain by (simp add: store_encode_def)
  ultimately obtain r where "load_frame (store_frame s) = Inr (s, r)" using load_store_frame by blast
  then show ?thesis using assms(5) by (simp add: store_load_def)
qed

text \<open>C10: the two programs in sequence. After a run that lost a worker, a new process started on the file the run
  has left, with two new workers connected, recovers the group of the first run with both its members (the lost
  one included) at epoch 3, forms a group over the new workers, carries out the all-reduce and logs
  RECOVERY_DONE; and each worker that is sent what the new process has sent it sends what the process received
  from it and returns 0 when the connection is closed.\<close>

theorem restart_after_the_run:
  assumes "co_workers c = []" "sr_listen_error w = None" "\<And>n. sr_disk w n = Io_ok"
    and "co_pending c = Some (new_channel (map encode (worker_script b0 n0 (if b1 < b0 then 1 else 0) @ more0))) #
      Some (new_channel (map encode (worker_script b1 n1 (if b1 < b0 then 0 else 1) @ more1))) # Some ch # rest"
    and "list_all encodable more0" "list_all encodable more1" "more0 = [] \<or> more1 = []"
    and "fst (channel_recv ch) = Inr (frame HELLO (enc_boot_name boot name))" "length name < 2 ^ 64"
    and "length n0 < 2 ^ 16" "length n1 < 2 ^ 16" "b0 \<noteq> b1" "b0 \<noteq> 0" "b1 \<noteq> 0"
    and "length n2 < 2 ^ 16" "length n3 < 2 ^ 16" "b2 \<noteq> b3" "b2 \<noteq> 0" "b3 \<noteq> 0" "0 < stall_after"
  shows "\<exists>c' c'' g g' src v2 v3 k2 k3. run_coordinator w port path c = (Inr (), c') \<and>
    find_group (StrongId 1) (Generation 1) (co_runtime c') = Some g \<and>
    run_recover w path (new_process
      [Some (new_channel (map encode (restart_worker_script b2 n2 (if b3 < b2 then 1 else 0) (Generation 3)))),
       Some (new_channel (map encode (restart_worker_script b3 n3 (if b3 < b2 then 0 else 1) (Generation 3))))]
      (co_files c')) = (Inr (), c'') \<and> last (co_log c'') = ''RECOVERY_DONE'' \<and>
    rt_groups (co_runtime c'') = [((StrongId 1, Generation 1), g\<lparr>cg_provenance := src\<rparr>), ((StrongId 7, Generation 3), g')] \<and>
    boots g = {StrongId b0, StrongId b1} \<and> boots g' = {StrongId b2, StrongId b3} \<and>
    gt_epoch (rt_authority (co_runtime c'')) = Generation 3 \<and> co_workers c'' = [v2, v3] \<and>
    run_worker show_float None n2 b2 stall_after (new_worker (fc_sent (ws_channel v2))) = (Returned 0, k2) \<and>
    fc_sent (wk_channel k2) = map encode (restart_worker_script b2 n2 (if b3 < b2 then 1 else 0) (Generation 3)) \<and>
    run_worker show_float None n3 b3 stall_after (new_worker (fc_sent (ws_channel v3))) = (Returned 0, k3) \<and>
    fc_sent (wk_channel k3) = map encode (restart_worker_script b3 n3 (if b3 < b2 then 0 else 1) (Generation 3))"
proof -
  let ?r2 = "if b3 < b2 then 1 else 0 :: u64" and ?r3 = "if b3 < b2 then 0 else 1 :: u64"
  let ?result = "float_sum (sr_floats w) (rank_values ?r2) (rank_values ?r3)"
  obtain c' g g2 m now s where 1: "run_coordinator w port path c = (Inr (), c')" "pair_of 1 1 g" "boots g = {StrongId b0, StrongId b1}"
    "rt_groups (co_runtime c') = [((StrongId 1, Generation 1), g), ((StrongId 1, Generation 2), g2)]"
    "co_files c' path = Some (store_frame s)" "s = build_state now (co_runtime c')" "ps_epoch s = Generation 3"
    "ps_groups s = [export_group g]" "ps_measurements s = [export_measurement m]"
    using whole_run_result [OF assms(1-14), of port path] by (elim exE conjE)
  let ?p = "new_process [Some (new_channel (map encode (restart_worker_script b2 n2 ?r2 (ps_epoch s)))),
      Some (new_channel (map encode (restart_worker_script b3 n3 ?r3 (ps_epoch s))))] (co_files c')"
  obtain r where load: "store_load path (co_files ?p) = Inr (s, r)"
    using saved_pair_loads [of g s now _ "export_measurement m" "co_files c'" path] 1(2,5,6,8,9) by (auto simp: new_process_def)
  obtain b where b: "fst (build b) = Inr g" "\<forall>p \<in> set (cg_participants g). pt_is_known p" "cg_id g = StrongId 1" "cg_generation g = Generation 1"
    using 1(2) by (auto simp: pair_of_def)
  have p: "co_workers ?p = []" "co_pending ?p = [Some (new_channel (map encode (restart_worker_script b2 n2 ?r2 (ps_epoch s)))),
      Some (new_channel (map encode (restart_worker_script b3 n3 ?r3 (ps_epoch s))))]"
    by (simp_all add: new_process_def)
  obtain c'' src g' where 2: "run_recover w path ?p = (Inr (), c'')" "last (co_log c'') = ''RECOVERY_DONE''"
    "serving c'' b2 b3 (map encode (restart_reply_script ?r2 (ps_epoch s) ?result), map encode (restart_reply_script ?r3 (ps_epoch s) ?result)) [] []"
    "rt_groups (co_runtime c'') = [((StrongId 1, Generation 1), g\<lparr>cg_provenance := src\<rparr>), ((StrongId 7, Generation 3), g')]"
    "boots g' = {StrongId b2, StrongId b3}" "gt_epoch (rt_authority (co_runtime c'')) = ps_epoch s"
    using run_recover_result [OF load 1(8) b p assms(15-19), of w] by blast
  obtain v2 v3 where v: "co_workers c'' = [v2, v3]" "fc_sent (ws_channel v2) = map encode (restart_reply_script ?r2 (ps_epoch s) ?result)"
    "fc_sent (ws_channel v3) = map encode (restart_reply_script ?r3 (ps_epoch s) ?result)"
    using 2(3) by (auto simp: serving_def)
  obtain k2 k3 where k: "run_worker show_float None n2 b2 stall_after (new_worker (fc_sent (ws_channel v2))) = (Returned 0, k2)"
    "fc_sent (wk_channel k2) = map encode (restart_worker_script b2 n2 ?r2 (ps_epoch s))"
    "run_worker show_float None n3 b3 stall_after (new_worker (fc_sent (ws_channel v3))) = (Returned 0, k3)"
    "fc_sent (wk_channel k3) = map encode (restart_worker_script b3 n3 ?r3 (ps_epoch s))"
    using worker_follows_restart [OF length_float_sum assms(20)] v(2,3) by metis
  have "find_group (StrongId 1) (Generation 1) (co_runtime c') = Some g" using 1(4) by (simp add: find_group_def)
  then show ?thesis
    using 1(1,3) 2(1,2,4-6) v(1) k unfolding 1(7) by - (intro exI conjI; assumption)
qed

theorem restart_after_the_run_witness:
  "\<exists>c' c'' g g' src. run_coordinator calm 7000 ''s'' (new_process
      [Some (new_channel (map encode (worker_script 200 ''A'' 1))), Some (new_channel (map encode (worker_script 100 ''B'' 0))),
       Some (new_channel [encode (frame HELLO (enc_boot_name 300 ''C''))])] Map.empty) = (Inr (), c') \<and>
    run_recover calm ''s'' (new_process
      [Some (new_channel (map encode (restart_worker_script 400 ''D'' 0 (Generation 3)))),
       Some (new_channel (map encode (restart_worker_script 500 ''E'' 1 (Generation 3))))] (co_files c')) = (Inr (), c'') \<and>
    last (co_log c'') = ''RECOVERY_DONE'' \<and>
    rt_groups (co_runtime c'') = [((StrongId 1, Generation 1), g\<lparr>cg_provenance := src\<rparr>), ((StrongId 7, Generation 3), g')] \<and>
    boots g = {StrongId 200, StrongId 100} \<and> boots g' = {StrongId 400, StrongId 500}"
proof -
  let ?f = "frame HELLO (enc_boot_name 300 ''C'')"
  let ?c = "new_process [Some (new_channel (map encode (worker_script 200 ''A'' 1))), Some (new_channel (map encode (worker_script 100 ''B'' 0))),
       Some (new_channel [encode ?f])] Map.empty"
  have "fst (channel_recv (new_channel [encode ?f])) = Inr ?f"
    using drains_new [of "[?f]"] by (simp add: encodable_def)
  then show ?thesis
    using restart_after_the_run [of ?c calm 200 "''A''" 100 "[]" "''B''" "[]" "new_channel [encode ?f]" "[]" 300 "''C''"
      "''D''" "''E''" 400 500 9 7000 "''s''" "\<lambda>_. []"]
    by (simp add: new_process_def calm_def) blast
qed

end
