(* ===== verification/CF_Clock.thy ===== *)
theory CF_Clock
  imports CF_Foundation
begin

text \<open>
  The clock readings (\<open>foundation/clock.hpp\<close>). What the system clock and the steady clock answer, a signed
  count of nanoseconds since their epoch, is the argument; the code casts it to 64 bits without a check.
\<close>

definition clock_wall_ns :: "int \<Rightarrow> u64" where
  "clock_wall_ns count = word_of_int count"

definition clock_steady_ns :: "int \<Rightarrow> u64" where
  "clock_steady_ns count = word_of_int count"

definition clock_wall_us :: "int \<Rightarrow> u64" where
  "clock_wall_us count = clock_wall_ns count div 1000"

definition clock_steady_us :: "int \<Rightarrow> u64" where
  "clock_steady_us count = clock_steady_ns count div 1000"

lemma uint_steady_us: "0 \<le> count \<Longrightarrow> count < 2 ^ 63 \<Longrightarrow> uint (clock_steady_us count) = count div 1000"
  by (simp add: clock_steady_us_def clock_steady_ns_def uint_div uint_word_of_int)

text \<open>The steady clock does not go back, so an interval of microseconds does not wrap; it is the true interval
  up to one microsecond.\<close>

lemma steady_interval:
  assumes "0 \<le> a" "a \<le> b" "b < 2 ^ 63"
  shows "clock_steady_us a \<le> clock_steady_us b"
    and "\<bar>1000 * uint (clock_steady_us b - clock_steady_us a) - (b - a)\<bar> < 1000"
proof -
  have u: "uint (clock_steady_us a) = a div 1000" "uint (clock_steady_us b) = b div 1000"
    using assms by (simp_all add: uint_steady_us)
  show le: "clock_steady_us a \<le> clock_steady_us b"
    using assms(2) by (simp add: word_le_def u zdiv_mono1)
  then have "uint (clock_steady_us b - clock_steady_us a) = b div 1000 - a div 1000"
    by (simp add: uint_minus_simple_alt u)
  then show "\<bar>1000 * uint (clock_steady_us b - clock_steady_us a) - (b - a)\<bar> < 1000"
    by linarith
qed

end
