(* ===== verification/CF_Arguments.thy ===== *)
theory CF_Arguments
  imports CF_Numbers CF_Coordinator CF_Worker
begin

text \<open>
  The programs \<open>main\<close> of the coordinator and of the worker (\<open>tools/coordinator.cpp\<close>, \<open>tools/worker.cpp\<close>): the
  loop over the command line and the choice of what to run.
\<close>

record Args =
  ar_port :: u16
  ar_statefile :: string
  ar_phases :: string
  ar_logfile :: string
  ar_name :: string

definition no_args :: Args where
  "no_args = \<lparr>ar_port = 0, ar_statefile = [], ar_phases = [], ar_logfile = [], ar_name = []\<rparr>"

text \<open>\<open>next\<close>: the argument after a flag, which is skipped then; \<open>""\<close> when the flag is the last.\<close>

definition next_arg :: "string list \<Rightarrow> string" where
  "next_arg rest = (case rest of [] \<Rightarrow> [] | v # _ \<Rightarrow> v)"

function coordinator_args :: "string list \<Rightarrow> Args \<Rightarrow> fault + Args" where
  "coordinator_args [] a = Inr a"
| "coordinator_args (arg # rest) a =
     (if arg = ''--port'' then sbind (atoi (next_arg rest)) (\<lambda>p. coordinator_args (tl rest) (a\<lparr>ar_port := of_int p\<rparr>))
      else if arg = ''--statefile'' then coordinator_args (tl rest) (a\<lparr>ar_statefile := next_arg rest\<rparr>)
      else if arg = ''--logfile'' then coordinator_args (tl rest) (a\<lparr>ar_logfile := next_arg rest\<rparr>)
      else if arg = ''--scenario'' then coordinator_args (tl rest) (a\<lparr>ar_phases := next_arg rest\<rparr>)
      else coordinator_args rest a)"
  by pat_completeness auto
termination by (relation "Wellfounded.measure (\<lambda>(xs, a). length xs)") auto

function worker_args :: "string list \<Rightarrow> Args \<Rightarrow> u64 \<Rightarrow> u64 \<Rightarrow> fault + Args \<times> u64 \<times> u64" where
  "worker_args [] a boot stall = Inr (a, boot, stall)"
| "worker_args (arg # rest) a boot stall =
     (if arg = ''--port'' then sbind (atoi (next_arg rest)) (\<lambda>p. worker_args (tl rest) (a\<lparr>ar_port := of_int p\<rparr>) boot stall)
      else if arg = ''--name'' then worker_args (tl rest) (a\<lparr>ar_name := next_arg rest\<rparr>) boot stall
      else if arg = ''--boot'' then worker_args (tl rest) a (strtoull (next_arg rest)) stall
      else if arg = ''--stall-after'' then worker_args (tl rest) a boot (strtoull (next_arg rest))
      else worker_args rest a boot stall)"
  by pat_completeness auto
termination by (relation "Wellfounded.measure (\<lambda>(xs, a, b, s). length xs)") auto

text \<open>\<open>main\<close> of the coordinator: what comes back is 0 unless the run stopped before its end.\<close>

definition coordinator_main :: "surroundings \<Rightarrow> string list \<Rightarrow> unit act" where
  "coordinator_main w args =
     seq (try_sum (coordinator_args args no_args)) (\<lambda>a.
     if ar_phases a = ''recover'' then run_recover w (ar_statefile a)
     else run_coordinator w (ucast (ar_port a)) (ar_statefile a))"

definition worker_main ::
  "(bytes \<Rightarrow> string) \<Rightarrow> string option \<Rightarrow> u64 \<Rightarrow> string list \<Rightarrow> Worker \<Rightarrow> fault + worker_exit \<times> Worker" where
  "worker_main show_float connect_error clock args wk =
     sbind (worker_args args no_args 0 999) (\<lambda>(a, boot, stall).
     Inr (run_worker show_float connect_error (ar_name a) (pick_boot boot (ar_name a) clock) stall wk))"

section \<open>Properties\<close>

text \<open>A command line is read back as it was written, whatever the file names and names are (also when one of
  them looks like a flag): the port of the coordinator and of the worker, and a boot id of any 64-bit value.\<close>

theorem command_lines_round_trip:
  "coordinator_args [''--port'', digits (unat p), ''--statefile'', f, ''--logfile'', l, ''--scenario'', s] no_args =
     Inr \<lparr>ar_port = p, ar_statefile = f, ar_phases = s, ar_logfile = l, ar_name = []\<rparr> \<and>
   worker_args [''--port'', digits (unat p), ''--name'', n, ''--boot'', to_string boot, ''--stall-after'', to_string k] no_args 0 999 =
     Inr (no_args\<lparr>ar_port := p, ar_name := n\<rparr>, boot, k)"
proof -
  have "unat p < 2 ^ 16" using unsigned_less [of p] by simp
  then have "atoi (digits (unat p)) = Inr (int (unat p))" by (intro atoi_digits) simp
  moreover have "of_nat (unat p) = p" by simp
  ultimately show ?thesis
    by (simp add: next_arg_def no_args_def strtoull_to_string err_simps)
qed

end
