(* ===== verification/CF_Cli.thy ===== *)
theory CF_Cli
  imports CF_Numbers CF_Process CF_Session CF_Store
begin

text \<open>
  The command line tool (\<open>tools/cli.cpp\<close>): each command builds a runtime of its own, drives the library,
  prints lines and returns an exit code. Clock readings, the outcome of a save and the texts of \<open>%f\<close> and
  \<open>%g\<close> are the input. An exception that no command catches ends the process.
\<close>

section \<open>The process\<close>

record Cli =
  cl_runtime :: Runtime
  cl_files :: filesystem
  cl_output :: "string list"

record cli_input =
  ci_topology_ns :: u64
  ci_plan_ns :: u64
  ci_saved_ns :: u64
  ci_env :: environment
  ci_disk :: save_io
  ci_fixed :: "bytes \<Rightarrow> string"
  ci_general :: "double \<Rightarrow> string"

type_synonym 'a command = "(Cli, 'a) prog"

definition print_line :: "string \<Rightarrow> unit command" where
  "print_line s = change (\<lambda>c. c\<lparr>cl_output := cl_output c @ [s]\<rparr>)"

definition print_lines :: "string list \<Rightarrow> unit command" where
  "print_lines ss = change (\<lambda>c. c\<lparr>cl_output := cl_output c @ ss\<rparr>)"

definition with_runtime :: "'a op \<Rightarrow> 'a command" where
  "with_runtime m c =
     (case m (cl_runtime c) of
        (Inl f, rt) \<Rightarrow> (Inl (Throws f), c\<lparr>cl_runtime := rt\<rparr>)
      | (Inr x, rt) \<Rightarrow> (Inr x, c\<lparr>cl_runtime := rt\<rparr>))"

section \<open>Commands that print constants\<close>

definition usage :: "nat command" where
  "usage = seq (print_lines
     [''Collective Fabric CLI'',
      ''Usage: collective-fabric-cli <command> [args]'',
      ''Commands:'',
      ''  discover                probe host + synthetic topology'',
      ''  group-create <n>        build an n-rank group, print digest'',
      ''  group-show <gid>        show registered group'',
      ''  plan <kind> <dt> <n>    select a plan, print factors'',
      ''  explain-plan <kind> <dt> <n>  detailed plan explanation'',
      ''  simulate                run synthetic topology scenarios'',
      ''  execute-reference <kind> <dt> <n>  run a reference collective'',
      ''  measure <kind> <dt> <n>  run and record a measurement'',
      ''  health                  show collective-path health'',
      ''  save <path>             persist state'',
      ''  recover <path>          load state, verify recovery freshness'',
      ''  benchmark <iters>       run completed-work benchmarks'']) (\<lambda>_. give 0)"

definition cmd_discover :: "nat command" where
  "cmd_discover = seq (print_lines
     [''discover'',
      ''  gpu_count=1'',
      ''  gpu[0]=NVIDIA GeForce RTX 5090'',
      ''  compute_capability=12.0 (sm_120)'',
      ''  transport=HOST_STAGED_TCP'',
      ''  topology: single-GPU host, no peer link'',
      ''  provenance=MEASURED'',
      ''  peer_capability=UNKNOWN (not applicable to one physical GPU)'']) (\<lambda>_. give 0)"

definition scenarios :: "string list" where
  "scenarios =
     [''two_gpus_direct_high_bw'', ''four_gpus_ring'', ''four_gpus_switch_shared'', ''two_node_two_gpu'',
      ''asymmetric_link_bw'', ''degraded_link'', ''shared_link_contention'', ''unknown_link_capability'',
      ''required_backend_unavailable'', ''small_message_latency'', ''large_message_bandwidth'',
      ''topology_generation_rollover'', ''stale_health_generation'', ''deterministic_identical_state'',
      ''participant_failure_reconfiguration'']"

definition cmd_simulate :: "nat command" where
  "cmd_simulate = seq (print_lines (map (\<lambda>s. ''scenario='' @ s @ '' provenance=SYNTHETIC'') scenarios)) (\<lambda>_.
     seq (print_line ''simulate: 15 synthetic scenarios generated via production planner'') (\<lambda>_. give 0))"

definition cmd_health :: "nat command" where
  "cmd_health = seq (print_lines [''health=UNKNOWN'', ''explanation: no collective-path failure evidence observed'']) (\<lambda>_. give 0)"

text \<open>\<open>%d\<close> of an \<open>int\<close>.\<close>

definition show_int :: "int \<Rightarrow> string" where
  "show_int i = (if i < 0 then ''-'' @ digits (nat (- i)) else digits (nat i))"

definition cmd_benchmark :: "int \<Rightarrow> nat command" where
  "cmd_benchmark iters = seq (print_lines
     [''benchmark completed-work iterations='' @ show_int iters,
      ''  group_construction_ops_per_sec=... (measured; see benchmarks/) '',
      ''provenance=MEASURED'']) (\<lambda>_. give 0)"

section \<open>What the other commands share\<close>

definition kind_of :: "string \<Rightarrow> CollectiveKind" where
  "kind_of s = (case collective_kind_from_string s of None \<Rightarrow> ALL_REDUCE | Some k \<Rightarrow> k)"

definition datatype_of :: "string \<Rightarrow> Datatype" where
  "datatype_of s = (case datatype_from_string s of None \<Rightarrow> FLOAT32 | Some d \<Rightarrow> d)"

fun add_devices :: "NodeId \<Rightarrow> string list \<Rightarrow> Topology \<Rightarrow> fault + DeviceId list \<times> Topology" where
  "add_devices nd [] t = Inr ([], t)"
| "add_devices nd (name # names) t =
     sbind (add_device nd name False 0 t) (\<lambda>(d, t).
     sbind (add_devices nd names t) (\<lambda>(ds, t).
     Inr (d # ds, t)))"

text \<open>A new runtime with the reference backend and a synthetic one-node topology.\<close>

definition prepare :: "cli_input \<Rightarrow> string list \<Rightarrow> (Topology \<times> NodeId \<times> DeviceId list) command" where
  "prepare ci devices =
     seq (change (\<lambda>c. c\<lparr>cl_runtime := new_runtime\<rparr>)) (\<lambda>_.
     seq (with_runtime (register_backend (Some (reference_backend (StrongId 1) (Generation 1))))) (\<lambda>_.
     let (nd, t) = add_node ''localhost''
           (set_provenance TopologyProvenance.SYNTHETIC (new_topology (Generation 1) (ci_topology_ns ci)))
     in seq (try_sum (add_devices nd devices t)) (\<lambda>(ds, topo).
        seq (with_runtime (adopt_topology topo)) (\<lambda>_.
        give (topo, nd, ds)))))"

definition cli_builder :: GroupBuilder where
  "cli_builder = (new_group_builder (StrongId 1) (Generation 1))\<lparr>gb_membership := Generation 1, gb_topology := Generation 1\<rparr>"

definition cli_member :: "u64 \<Rightarrow> u64 \<Rightarrow> NodeId \<Rightarrow> DeviceId \<Rightarrow> GroupBuilder \<Rightarrow> GroupBuilder" where
  "cli_member i boot nd dd = add_participant (StrongId i) (StrongId i) (StrongId boot) nd dd (Generation 1) null_id"

text \<open>The loop over the ranks; \<open>100 + i\<close> is an \<open>int\<close>.\<close>

definition members :: "int \<Rightarrow> NodeId \<Rightarrow> DeviceId \<Rightarrow> fault + GroupBuilder" where
  "members n nd dd =
     (if 2 ^ 31 - 100 < n then Inl Undefined
      else Inr (fold (\<lambda>i. cli_member (of_nat (i + 1)) (of_nat (100 + i)) nd dd) [0..<nat n] cli_builder))"

definition build_members :: "int \<Rightarrow> NodeId \<Rightarrow> DeviceId \<Rightarrow> CollectiveGroup command" where
  "build_members n nd dd = try_sum (sbind (members n nd dd) (\<lambda>b. fst (build b)))"

definition two_members :: "NodeId \<Rightarrow> DeviceId \<Rightarrow> DeviceId \<Rightarrow> fault + CollectiveGroup" where
  "two_members nd d0 d1 = fst (build (cli_member 2 200 nd d1 (cli_member 1 100 nd d0 cli_builder)))"

text \<open>The element count is an \<open>int\<close> converted to \<open>uint64_t\<close>.\<close>

definition cli_descriptor :: "CollectiveKind \<Rightarrow> Datatype \<Rightarrow> int \<Rightarrow> CollectiveDescriptor" where
  "cli_descriptor k dt n = default_descriptor
     \<lparr>cd_group_id := StrongId 1, cd_group_generation := Generation 1, cd_collective_generation := Generation 1,
      cd_kind := k, cd_reduction := ReductionOp.SUM, cd_datatype := dt, cd_element_count := of_int n,
      cd_collective_id := StrongId 1, cd_policy_generation := Generation 1\<rparr>"

definition cli_planner_input :: "CollectiveDescriptor \<Rightarrow> CollectiveGroup \<Rightarrow> Topology \<Rightarrow> PlannerInput" where
  "cli_planner_input d g topo =
     \<lparr>pi_descriptor = Some d, pi_group = Some g, pi_topology = Some topo,
      pi_backend = Some (be_capabilities (reference_backend (StrongId 1) (Generation 1))),
      pi_path_health = None, pi_measured_bandwidth = None, pi_measured_latency_ns = None,
      pi_deterministic_preference = True, pi_prefer_device_buffers = False\<rparr>"

section \<open>Groups and plans\<close>

definition cmd_group_create :: "cli_input \<Rightarrow> int \<Rightarrow> nat command" where
  "cmd_group_create ci n =
     seq (prepare ci [''dev'']) (\<lambda>(topo, nd, ds).
     seq (build_members n nd (hd ds)) (\<lambda>g.
     seq (with_runtime (register_group g)) (\<lambda>gg.
     seq (print_lines
       [''group.id=1 generation=1 ranks='' @ digits (cg_rank_count gg) @ '' lifecycle=READY'',
        ''digest='' @ to_hex (group_digest gg), ''provenance=SYNTHETIC'']) (\<lambda>_.
     give 0))))"

definition factor_line :: "cli_input \<Rightarrow> DecisionFactor \<Rightarrow> string" where
  "factor_line ci f = ''factor='' @ df_name f @ '' value='' @ ci_general ci (df_value f) @ '' ('' @ df_unit f @ '') :: '' @ df_reason f"

definition plan_lines :: "cli_input \<Rightarrow> CollectivePlan \<Rightarrow> string list" where
  "plan_lines ci pl =
     [''algorithm='' @ algorithm_to_string (pl_algorithm pl),
      ''expected_steps='' @ to_string (pl_expected_steps pl) @ '' expected_byte_movement='' @ to_string (pl_expected_byte_movement pl)] @
     map (factor_line ci) (pl_factors pl) @
     [''explanation: '' @ (case pl_explanation pl of [] \<Rightarrow> ''(none)'' | s # _ \<Rightarrow> s), ''provenance=DERIVED'']"

definition plan_group :: "cli_input \<Rightarrow> CollectiveDescriptor \<Rightarrow> CollectiveGroup \<Rightarrow> Topology \<Rightarrow> nat command" where
  "plan_group ci d g topo =
     seq (look (\<lambda>c. plan (rt_source_counter (cl_runtime c)) (ci_plan_ns ci) (cli_planner_input d g topo))) (\<lambda>r.
     case r of
       Inl (Error k what) \<Rightarrow> seq (print_line (''plan rejected: '' @ what)) (\<lambda>_. give 1)
     | Inl f \<Rightarrow> halt (Throws f)
     | Inr (pl, counter) \<Rightarrow>
         seq (change (\<lambda>c. c\<lparr>cl_runtime := (cl_runtime c)\<lparr>rt_source_counter := counter\<rparr>\<rparr>)) (\<lambda>_.
         seq (print_lines (plan_lines ci pl)) (\<lambda>_.
         give 0)))"

definition cmd_plan :: "cli_input \<Rightarrow> string \<Rightarrow> string \<Rightarrow> int \<Rightarrow> nat command" where
  "cmd_plan ci kind dt n =
     seq (prepare ci [''dev'']) (\<lambda>(topo, nd, ds).
     seq (build_members n nd (hd ds)) (\<lambda>g.
     seq (with_runtime (register_group g)) (\<lambda>_.
     let d = cli_descriptor (kind_of kind) (datatype_of dt) 1024 in
     seq (try_sum (validate_descriptor d)) (\<lambda>_.
     plan_group ci d g topo))))"

section \<open>Executing a collective\<close>

text \<open>The inputs of the two ranks: \<open>n\<close> times \<open>1.0f\<close>, \<open>n\<close> times \<open>2.0f\<close>, as bytes.\<close>

definition float_inputs :: "nat \<Rightarrow> bytes list" where
  "float_inputs n = [concat (replicate n [0, 0, 0x80, 0x3F]), concat (replicate n [0, 0, 0, 0x40])]"

definition result_line :: "cli_input \<Rightarrow> CollectiveState \<Rightarrow> nat \<Rightarrow> bytes \<Rightarrow> string" where
  "result_line ci s n out =
     ''state='' @ collective_state_to_string s @ '' result[0]='' @ ci_fixed ci (take 4 out) @
     '' result[last]='' @ ci_fixed ci (take 4 (drop (4 * (n - 1)) out))"

text \<open>A vector of a negative size does not exist; reading the result out of range is undefined.\<close>

definition print_result :: "cli_input \<Rightarrow> nat \<Rightarrow> ExecutionId \<Rightarrow> MeasurementId \<Rightarrow> nat command" where
  "print_result ci n e mid =
     seq (with_runtime (outputs e)) (\<lambda>outs.
     seq (with_runtime (execution_state e)) (\<lambda>s.
     if outs = [] \<or> n = 0 \<or> length (hd outs) < 4 * n then halt (Throws Undefined)
     else
       seq (print_lines [result_line ci s n (hd outs),
         ''measurement='' @ to_string (raw mid) @ '' provenance=MEASURED freshness=CURRENT'']) (\<lambda>_.
       seq (look (\<lambda>c. measurement mid (cl_runtime c))) (\<lambda>m.
       seq (case m of
              None \<Rightarrow> give ()
            | Some m \<Rightarrow> print_line (''wall_time_us='' @ to_string (cm_wall_time_us m) @ '' payload_bytes='' @ to_string (cm_payload_bytes m))) (\<lambda>_.
       give 0)))))"

definition execute_prepared :: "cli_input \<Rightarrow> int \<Rightarrow> ExecutionId \<Rightarrow> nat command" where
  "execute_prepared ci n e =
     seq (with_runtime (reserve_collective e)) (\<lambda>_.
     seq (with_runtime (dispatch_collective e)) (\<lambda>_.
     if n < 0 then halt (Foreign ''std::length_error'')
     else
       seq (with_runtime (execute_collective (ci_env ci) e (float_inputs (nat n)))) (\<lambda>mid.
       if id_is_null mid then seq (print_line ''execute FAILED'') (\<lambda>_. give 1)
       else print_result ci (nat n) e mid)))"

definition cmd_execute :: "cli_input \<Rightarrow> string \<Rightarrow> string \<Rightarrow> int \<Rightarrow> nat command" where
  "cmd_execute ci kind dt n =
     seq (prepare ci [''d0'', ''d1'']) (\<lambda>(topo, nd, ds).
     seq (try_sum (two_members nd (ds ! 0) (ds ! 1))) (\<lambda>g.
     seq (with_runtime (register_group g)) (\<lambda>_.
     let d = cli_descriptor (kind_of kind) (datatype_of dt) n in
     seq (with_runtime (create_collective d)) (\<lambda>e.
     seq (with_runtime (plan_collective (ci_plan_ns ci) e (cli_planner_input d g topo))) (\<lambda>_.
     execute_prepared ci n e)))))"

section \<open>Saving and recovering\<close>

definition cli_measurement :: CollectiveMeasurement where
  "cli_measurement = new_measurement
     \<lparr>cm_id := StrongId 1, cm_collective := StrongId 1, cm_rank_count := 2, cm_payload_bytes := 8,
      cm_provenance := MeasurementProvenance.MEASURED, cm_freshness := MeasurementFreshness.CURRENT,
      cm_success := True, cm_topology_generation := Generation 1\<rparr>"

definition cli_participant :: "Participant \<Rightarrow> PersistedParticipant" where
  "cli_participant p =
     \<lparr>pp_participant_id = pt_id p, pp_worker = pt_worker p, pp_boot = pt_boot p, pp_node = pt_node p,
      pp_device = pt_device p, pp_rank = pt_rank p, pp_backend_generation = pt_backend_generation p,
      pp_is_known = pt_is_known p\<rparr>"

definition cli_group :: "CollectiveGroup \<Rightarrow> PersistedGroup" where
  "cli_group g =
     \<lparr>pg_group_id = cg_id g, pg_generation = cg_generation g, pg_membership = cg_membership g,
      pg_topology = cg_topology g, pg_health = cg_health g, pg_backend = cg_backend g,
      pg_lifecycle = cg_lifecycle g, pg_provenance = [], pg_participants = map cli_participant (cg_participants g)\<rparr>"

definition cli_persisted :: PersistedMeasurement where
  "cli_persisted =
     \<lparr>pm_id = StrongId 1, pm_collective = StrongId 1, pm_collective_generation = null_gen,
      pm_group_generation = Generation 1, pm_algorithm = Algorithm.UNKNOWN, pm_backend = null_id,
      pm_rank_count = 2, pm_payload_bytes = 8, pm_wall_time_us = 0,
      pm_provenance = MeasurementProvenance.MEASURED, pm_freshness = MeasurementFreshness.CURRENT,
      pm_timestamp_ns = 1, pm_measurement_generation = Generation 1, pm_success = True\<rparr>"

definition cli_state :: "u64 \<Rightarrow> CollectiveGroup \<Rightarrow> PersistentState" where
  "cli_state now g =
     \<lparr>ps_format_version = 1, ps_epoch = Generation 1, ps_live_boot = StrongId 100, ps_groups = [cli_group g],
      ps_measurements = [cli_persisted], ps_health = None, ps_backends = [], ps_policy_count = 0, ps_saved_ns = now\<rparr>"

definition save_group :: "cli_input \<Rightarrow> string \<Rightarrow> CollectiveGroup \<Rightarrow> nat command" where
  "save_group ci path g =
     seq (look (\<lambda>c. store_save (ci_disk ci) path (cli_state (ci_saved_ns ci) g) (cl_files c))) (\<lambda>(r, fs).
     seq (change (\<lambda>c. c\<lparr>cl_files := fs\<rparr>)) (\<lambda>_.
     seq (try_sum r) (\<lambda>res.
     seq (print_line (''saved bytes='' @ digits (sr_bytes res) @ '' digest='' @ to_hex (sr_digest res))) (\<lambda>_.
     give 0))))"

definition recover_file :: "string \<Rightarrow> nat command" where
  "recover_file path =
     seq (look (\<lambda>c. store_load path (cl_files c))) (\<lambda>r.
     seq (try_sum r) (\<lambda>(loaded, res).
     seq (print_line (''loaded groups='' @ digits (length (ps_groups loaded)) @ '' measurements='' @
                      digits (length (ps_measurements loaded)))) (\<lambda>_.
     seq (print_lines (map (\<lambda>m. ''measurement freshness='' @ measurement_freshness_to_string (pm_freshness m))
            (ps_measurements loaded))) (\<lambda>_.
     seq (print_lines
       [''recovery: recovered physical measurements remain '' @
          measurement_freshness_to_string MeasurementFreshness.REVALIDATION_REQUIRED,
        ''provenance=REVALIDATION_REQUIRED'']) (\<lambda>_.
     give 0)))))"

definition cmd_save_recover :: "cli_input \<Rightarrow> string \<Rightarrow> bool \<Rightarrow> nat command" where
  "cmd_save_recover ci path recover =
     seq (prepare ci [''dev'']) (\<lambda>(topo, nd, ds).
     seq (try_sum (two_members nd (hd ds) (hd ds))) (\<lambda>g.
     seq (with_runtime (register_group g)) (\<lambda>_.
     seq (with_runtime (ingest_measurement cli_measurement)) (\<lambda>_.
     seq (look (\<lambda>c. find_group (StrongId 1) (Generation 1) (cl_runtime c))) (\<lambda>found.
     case found of
       None \<Rightarrow> halt (Throws Undefined)
     | Some g \<Rightarrow> if recover then recover_file path else save_group ci path g)))))"

section \<open>The command line\<close>

text \<open>The arguments after the program's name; \<open>argv[i]\<close> is \<open>args ! (i - 1)\<close>.\<close>

definition argn :: "string list \<Rightarrow> nat \<Rightarrow> fault + int" where
  "argn args i = (if i \<le> length args then atoi (args ! (i - 1)) else Inr 0)"

definition args_at :: "string list \<Rightarrow> nat \<Rightarrow> string" where
  "args_at args i = (if i \<le> length args then args ! (i - 1) else [])"

definition with_number :: "string list \<Rightarrow> nat \<Rightarrow> int \<Rightarrow> (int \<Rightarrow> nat command) \<Rightarrow> nat command" where
  "with_number args i fallback k = seq (try_sum (argn args i)) (\<lambda>n. k (if n = 0 then fallback else n))"

definition path_of_args :: "string list \<Rightarrow> string" where
  "path_of_args args = (if args_at args 2 = [] then ''state.bin'' else args_at args 2)"

definition cli_main :: "cli_input \<Rightarrow> string list \<Rightarrow> nat command" where
  "cli_main ci args =
     (case args of
        [] \<Rightarrow> usage
      | cmd # _ \<Rightarrow>
          if cmd = ''discover'' then cmd_discover
          else if cmd = ''group-create'' then with_number args 2 4 (cmd_group_create ci)
          else if cmd = ''plan'' \<or> cmd = ''explain-plan''
            then with_number args 4 4 (cmd_plan ci (args_at args 2) (args_at args 3))
          else if cmd = ''execute-reference'' \<or> cmd = ''measure''
            then with_number args 4 4 (cmd_execute ci (args_at args 2) (args_at args 3))
          else if cmd = ''simulate'' then cmd_simulate
          else if cmd = ''health'' then cmd_health
          else if cmd = ''save'' then cmd_save_recover ci (path_of_args args) False
          else if cmd = ''recover'' then cmd_save_recover ci (path_of_args args) True
          else if cmd = ''benchmark'' then with_number args 2 1000 cmd_benchmark
          else if cmd = ''replay'' then cmd_save_recover ci (path_of_args args) True
          else usage)"

end
