(* ===== verification/CF_Commands.thy ===== *)
theory CF_Commands
  imports CF_Cli
begin

text \<open>
  What the commands of \<open>tools/cli.cpp\<close> print and return.
\<close>

declare digits.simps [simp del]

lemmas [act_simps] = print_line_def print_lines_def with_runtime_def

section \<open>The runtime that a command sets up\<close>

definition cli_runtime :: "Topology \<Rightarrow> Runtime" where
  "cli_runtime topo = new_runtime
     \<lparr>rt_backends := [(StrongId 1, reference_backend (StrongId 1) (Generation 1))], rt_topology := Some topo\<rparr>"

lemma prepare_result:
  "\<exists>topo. prepare ci [''d0'', ''d1''] c =
     (Inr (topo, StrongId 1, [StrongId 2, StrongId 3]), c\<lparr>cl_runtime := cli_runtime topo\<rparr>)"
  "\<exists>topo. prepare ci [''dev''] c = (Inr (topo, StrongId 1, [StrongId 2]), c\<lparr>cl_runtime := cli_runtime topo\<rparr>)"
  by (simp_all add: prepare_def act_simps register_backend_def adopt_topology_def op_simps add_node_def new_topology_def
      set_provenance_def add_device_def has_node_def err_simps cli_runtime_def new_runtime_def reference_backend_def Let_def)

definition cli_pair :: "DeviceId \<Rightarrow> DeviceId \<Rightarrow> CollectiveGroup" where
  "cli_pair d0 d1 = group_of (cli_member 2 200 (StrongId 1) d1 (cli_member 1 100 (StrongId 1) d0 cli_builder))"

lemma two_members_result:
  "two_members (StrongId 1) d0 d1 = Inr (cli_pair d0 d1)" "group_wf (cli_pair d0 d1)"
  "cg_id (cli_pair d0 d1) = StrongId 1" "cg_generation (cli_pair d0 d1) = Generation 1"
  "cg_rank_count (cli_pair d0 d1) = 2" "group_size (cli_pair d0 d1) = 2"
proof -
  show b: "two_members (StrongId 1) d0 d1 = Inr (cli_pair d0 d1)"
    by (simp add: two_members_def build_ok_iff cli_pair_def builder_ok_def cli_member_def add_participant_def
        cli_builder_def new_group_builder_def gen_is_null_def id_is_null_def)
  then show "group_wf (cli_pair d0 d1)" unfolding two_members_def by (rule build_wf)
  show "cg_id (cli_pair d0 d1) = StrongId 1" "cg_generation (cli_pair d0 d1) = Generation 1"
    and c: "cg_rank_count (cli_pair d0 d1) = 2"
    by (simp_all add: cli_pair_def group_of_def cli_member_def add_participant_def cg_rank_count_def
        cli_builder_def new_group_builder_def)
  show "group_size (cli_pair d0 d1) = 2" by (simp add: group_size_def c)
qed

definition paired_runtime :: "Topology \<Rightarrow> DeviceId \<Rightarrow> DeviceId \<Rightarrow> Runtime" where
  "paired_runtime topo d0 d1 = (cli_runtime topo)\<lparr>rt_groups := [((StrongId 1, Generation 1), cli_pair d0 d1)]\<rparr>"

lemma paired_result:
  "register_group (cli_pair d0 d1) (cli_runtime topo) = (Inr (cli_pair d0 d1), paired_runtime topo d0 d1)"
  by (simp add: register_group_def group_key_of_def two_members_result cli_runtime_def new_runtime_def paired_runtime_def)

lemma paired_runtime_ok:
  "runtime_ok (paired_runtime topo d0 d1)" "room 8 (paired_runtime topo d0 d1)"
  "rt_next_id (paired_runtime topo d0 d1) = 1"
  "active_collectives (rt_accounting (paired_runtime topo d0 d1)) \<noteq> UINT64_MAX"
  "om_find (rt_groups (paired_runtime topo d0 d1)) (StrongId 1, Generation 1) = Some (cli_pair d0 d1)"
  by (simp_all add: paired_runtime_def cli_runtime_def new_runtime_def runtime_ok_def new_accounting_def room_def)

section \<open>The plan and the reduction of \<open>execute-reference\<close>\<close>

lemma cli_descriptor_fields:
  "descriptor_key (cli_descriptor k dt n) = (StrongId 1, Generation 1)"
  "\<not> id_is_null (cd_group_id (cli_descriptor k dt n))" "\<not> gen_is_null (cd_group_generation (cli_descriptor k dt n))"
  "cd_kind (cli_descriptor k dt n) = k" "cd_datatype (cli_descriptor k dt n) = dt"
  "cd_reduction (cli_descriptor k dt n) = ReductionOp.SUM" "cd_element_count (cli_descriptor k dt n) = of_int n"
  "cd_input_placement (cli_descriptor k dt n) = HOST" "cd_root (cli_descriptor k dt n) = null_id"
  "cd_has_root (cli_descriptor k dt n) = False"
  by (simp_all add: cli_descriptor_def default_descriptor_def descriptor_key_def id_is_null_def gen_is_null_def)

lemma count_unat: "0 \<le> n \<Longrightarrow> n < 2 ^ 31 \<Longrightarrow> unat (of_int n :: u64) = nat n"
  by (simp add: unat_eq_nat_uint word_of_int_inverse uint_word_of_int) 

lemma cli_payload:
  assumes "1 \<le> n" "n < 2 ^ 31"
  shows "payload_size (cli_descriptor k dt n) = nat n * dt_size dt" "0 < payload_size (cli_descriptor k dt n)"
    "payload_size (cli_descriptor k dt n) * 2 < 2 ^ 64"
proof -
  show p: "payload_size (cli_descriptor k dt n) = nat n * dt_size dt"
    using assms by (simp add: payload_size_def cli_descriptor_fields count_unat)
  have "dt_size dt \<le> 8" by (cases dt) simp_all
  then have "nat n * dt_size dt \<le> nat n * 8" by simp
  also have "\<dots> < 2 ^ 63" using assms by simp
  finally show "payload_size (cli_descriptor k dt n) * 2 < 2 ^ 64" using p by simp
  show "0 < payload_size (cli_descriptor k dt n)" using assms p by simp
qed

lemma cli_plan:
  assumes "1 \<le> n" "n < 2 ^ 31" "k \<in> {ALL_REDUCE, ALL_GATHER, REDUCE_SCATTER}"
  shows "\<exists>pl c. plan counter now ((cli_planner_input d (cli_pair d0 d1) topo)\<lparr>pi_descriptor := Some (cli_descriptor k dt n)\<rparr>) =
    Inr (pl, c)"
proof -
  let ?d = "cli_descriptor k dt n"
  let ?in = "(cli_planner_input d (cli_pair d0 d1) topo)\<lparr>pi_descriptor := Some ?d\<rparr>"
  let ?bk = "reference_backend_capabilities (StrongId 1) (Generation 1)"
  obtain p where "planned_bytes ?d 2 = Inr p"
    using cli_payload [OF assms(1,2), of k dt] assms(3)
    by (auto simp: planned_bytes_def cli_descriptor_fields element_byte_count_eq aggregate_byte_count_ok)
  moreover have "backend_accepts ?bk ?d 2"
    by (cases k; cases dt)
      (simp_all add: backend_accepts_def reference_backend_capabilities_def supports_kind_def supports_datatype_def
        supports_reduction_def supports_transport_def cli_descriptor_fields)
  moreover have "unmeasured ?in" by (simp add: unmeasured_def cli_planner_input_def)
  ultimately show ?thesis
    using plan_eq [of ?in ?d "cli_pair d0 d1" ?bk p counter now] select_unmeasured [of ?in ?bk ?d 2 p]
    by (simp add: cli_planner_input_def two_members_result(6) reference_backend_def Let_def)
qed

lemma element_repeated: "i < n \<Longrightarrow> length q = k \<Longrightarrow> element k i (concat (replicate n q)) = q"
  by (subst element_concat) simp_all

lemma length_repeated [simp]: "length (concat (replicate n q)) = n * length q"
  by (induction n) simp_all

definition cli_sum :: "float_ops \<Rightarrow> Datatype \<Rightarrow> u32" where
  "cli_sum F dt = (if dt = FLOAT32 then fp_add (fp32 F) 0x3F800000 0x40000000 else 0x7F800000)"

lemma cli_sum_element:
  assumes "dt \<in> {INT32, UINT32, FLOAT32}"
  shows "element_op F dt ReductionOp.SUM [0, 0, 0x80, 0x3F] [0, 0, 0, 0x40] = Inr (le_store 4 (cli_sum F dt))"
proof -
  have l: "le_load [0, 0, 0x80, 0x3F] = (0x3F800000 :: u32)" "le_load [0, 0, 0, 0x40] = (0x40000000 :: u32)"
    by code_simp+
  have "signed_result (sint (0x3F800000 :: u32) + sint (0x40000000 :: u32)) = (Inr 0x7F800000 :: fault + u32)"
    by code_simp
  then show ?thesis
    using assms by (auto simp: on_bytes_def l reduce_i32_def reduce_u32_def reduce_f32_def cli_sum_def)
qed

lemma cli_engine:
  assumes "1 \<le> n" "n < 2 ^ 31" "dt \<in> {INT32, UINT32, FLOAT32}"
  shows "run_engine F (cli_descriptor ALL_REDUCE dt n) 2 (float_inputs (nat n)) =
    Inr (replicate 2 (concat (replicate (nat n) (le_store 4 (cli_sum F dt)))))"
proof -
  have s: "dt_size dt = 4" "dt \<noteq> BYTE" using assms(3) by auto
  have c: "unat (of_int n :: u64) = nat n" using assms by (simp add: count_unat)
  let ?in = "float_inputs (nat n)" and ?out = "concat (replicate (nat n) (le_store 4 (cli_sum F dt)))"
  have "well_sized dt (of_int n) 2 (unat (of_int n :: u64) * dt_size dt) ?in"
    using assms(1,2) by (intro well_sizedI) (simp_all add: c s float_inputs_def)
  moreover have "reduced F dt ReductionOp.SUM ?in 2 (nat n) ?out"
    unfolding reduced_def
  proof (intro conjI allI impI)
    fix i assume i: "i < nat n"
    then show "rank_fold (element_op F dt ReductionOp.SUM) (map (\<lambda>r. element (dt_size dt) i (?in ! r)) [0..<2]) =
        Inr (element (dt_size dt) i ?out)"
      using cli_sum_element [OF assms(3), of F]
      by (simp add: rank_fold_def float_inputs_def upt_rec s err_simps element_repeated)
  qed (simp add: s)
  ultimately show ?thesis
    using execute_all_reduce_iff [OF s(2), of "of_int n" 2 ?in F ReductionOp.SUM 0 "replicate 2 ?out"]
    by (auto simp: run_engine_def cli_descriptor_fields c id_is_null_def)
qed

lemma cli_rank_bytes:
  assumes "1 \<le> n" "n < 2 ^ 31" "k \<in> {ALL_REDUCE, ALL_GATHER, REDUCE_SCATTER}"
  obtains m where "per_rank_bytes (cli_descriptor k dt n) 2 = Inr m"
    "unat m = nat n * dt_size dt * (if k = ALL_REDUCE then 1 else 2)"
proof -
  let ?d = "cli_descriptor k dt n"
  let ?s = "payload_size ?d * (if k = ALL_REDUCE then 1 else 2)"
  note p = cli_payload [OF assms(1,2), of k dt]
  have "per_rank_bytes ?d 2 = Inr (of_nat ?s)"
    using p(3) assms(3)
    by (auto simp: per_rank_bytes_def cli_descriptor_fields(4) element_byte_count_eq aggregate_byte_count_ok)
  moreover have "unat (of_nat ?s :: u64) = ?s" using p(3) by (intro unat_of_nat_u64) auto
  ultimately show thesis using that p(1) by simp
qed

lemma float_inputs_length:
  "length (float_inputs n) = 2" "length (float_inputs n ! 0) = n * 4" "length (float_inputs n ! Suc 0) = n * 4"
  by (simp_all add: float_inputs_def)

lemma cli_inputs_rejected:
  assumes "1 \<le> n" "n < 2 ^ 31" "k \<in> {ALL_GATHER, REDUCE_SCATTER} \<or> k = ALL_REDUCE \<and> dt_size dt \<noteq> 4"
  shows "\<exists>f. check_inputs (cli_descriptor k dt n) (Some (cli_pair d0 d1)) (float_inputs (nat n)) = Inl f"
proof -
  obtain m where m: "per_rank_bytes (cli_descriptor k dt n) 2 = Inr m"
    "unat m = nat n * dt_size dt * (if k = ALL_REDUCE then 1 else 2)"
    using cli_rank_bytes [OF assms(1,2), of k dt] assms(3) by auto
  have "dt_size dt * (if k = ALL_REDUCE then 1 else 2) \<noteq> 4" using assms(3) by (cases dt) auto
  then have "nat n * (dt_size dt * (if k = ALL_REDUCE then 1 else 2)) \<noteq> nat n * 4"
    using assms(1) by (subst mult_left_cancel) auto
  then have "unat m \<noteq> nat n * 4" using m(2) by (metis mult.assoc)
  then have "list_ex (\<lambda>r. length (float_inputs (nat n) ! r) \<noteq> unat m) [0..<2]"
    by (auto simp: list_ex_iff float_inputs_length intro!: bexI [of _ 0])
  then show ?thesis
    by (simp add: check_inputs_def two_members_result m(1) err_simps float_inputs_length)
qed

lemma cli_inputs_accepted:
  assumes "1 \<le> n" "n < 2 ^ 31" "dt_size dt = 4"
  shows "check_inputs (cli_descriptor ALL_REDUCE dt n) (Some (cli_pair d0 d1)) (float_inputs (nat n)) = Inr ()"
proof -
  obtain m where m: "per_rank_bytes (cli_descriptor ALL_REDUCE dt n) 2 = Inr m" "unat m = nat n * 4"
    using cli_rank_bytes [OF assms(1,2), of ALL_REDUCE dt] assms(3) by auto
  then show ?thesis
    by (auto simp: check_inputs_def two_members_result err_simps list_ex_iff float_inputs_length Let_def less_2_cases_iff)
qed

section \<open>The outcome\<close>

definition execute_failure :: "CollectiveKind \<Rightarrow> fault option" where
  "execute_failure k =
     (if k \<in> {CollectiveKind.BARRIER, BROADCAST}
      then Some (Error ErrorCode.VALIDATION ''barrier/broadcast must not carry a reduction operation'')
      else if k = REDUCE then Some (Error ErrorCode.VALIDATION ''broadcast/reduce requires a root rank'')
      else None)"

lemma execute_prefix:
  "\<exists>topo. cmd_execute ci kind dt n c =
     (let k = kind_of kind; d = cli_descriptor k (datatype_of dt) n; g = cli_pair (StrongId 2) (StrongId 3);
          rt = paired_runtime topo (StrongId 2) (StrongId 3)
      in seq (with_runtime (create_collective d)) (\<lambda>e.
         seq (with_runtime (plan_collective (ci_plan_ns ci) e (cli_planner_input d g topo))) (\<lambda>_.
         execute_prepared ci n e)) (c\<lparr>cl_runtime := rt\<rparr>))"
proof -
  obtain topo where "prepare ci [''d0'', ''d1''] c =
     (Inr (topo, StrongId 1, [StrongId 2, StrongId 3]), c\<lparr>cl_runtime := cli_runtime topo\<rparr>)"
    using prepare_result(1) by blast
  then show ?thesis
    by (intro exI [of _ topo])
      (simp add: cmd_execute_def seq_def try_sum_def give_def with_runtime_def two_members_result paired_result Let_def)
qed

lemma create_invalid:
  assumes "om_find (rt_groups rt) (descriptor_key d) = Some g" "\<not> id_is_null (cd_group_id d)"
    "\<not> gen_is_null (cd_group_generation d)" "validate_descriptor d = Inl f"
  shows "create_collective d rt = (Inl f, rt)"
  using assms by (simp add: create_collective_def op_simps)

lemma execute_failure_validate:
  assumes "1 \<le> n" "n < 2 ^ 31" "execute_failure k = Some f"
  shows "validate_descriptor (cli_descriptor k dt n) = Inl f"
proof -
  have p: "payload_size (cli_descriptor k dt n) < 2 ^ 64" using cli_payload [OF assms(1,2), of k dt] by simp
  show ?thesis
    using assms(3) p by (auto simp: execute_failure_def validate_descriptor_def cli_descriptor_fields err_simps
        element_byte_count_eq split: if_splits)
qed

lemma execute_success_valid:
  assumes "1 \<le> n" "n < 2 ^ 31" "execute_failure k = None"
  shows "valid_descriptor (cli_descriptor k dt n)" "k \<in> {ALL_REDUCE, ALL_GATHER, REDUCE_SCATTER}"
proof -
  show "k \<in> {ALL_REDUCE, ALL_GATHER, REDUCE_SCATTER}" using assms(3) by (cases k) (simp_all add: execute_failure_def)
  then show "valid_descriptor (cli_descriptor k dt n)"
    using cli_payload [OF assms(1,2), of k dt] by (auto simp: valid_descriptor_def cli_descriptor_fields)
qed

lemma execute_throws:
  assumes "1 \<le> n" "n < 2 ^ 31" "execute_failure (kind_of kind) = Some f"
  shows "\<exists>c'. cmd_execute ci kind dt n c = (Inl (Throws f), c') \<and> cl_output c' = cl_output c"
proof -
  let ?d = "cli_descriptor (kind_of kind) (datatype_of dt) n"
  have "create_collective ?d (paired_runtime topo (StrongId 2) (StrongId 3)) = (Inl f, paired_runtime topo (StrongId 2) (StrongId 3))" for topo
    using execute_failure_validate [OF assms]
    by (intro create_invalid [where g = "cli_pair (StrongId 2) (StrongId 3)"]) (simp_all add: cli_descriptor_fields paired_runtime_ok)
  then show ?thesis
    using execute_prefix [of ci kind dt n c] by (auto simp: Let_def seq_def with_runtime_def)
qed

lemma session_rejected:
  assumes "runtime_ok rt" "room 8 rt" "om_find (rt_groups rt) (descriptor_key d) = Some g"
    and "\<not> id_is_null (cd_group_id d)" "\<not> gen_is_null (cd_group_generation d)" "valid_descriptor d"
    and "plan (rt_source_counter rt) now (inp\<lparr>pi_descriptor := Some d\<rparr>) = Inr (pl, c)"
    and "element_byte_count d = Inr payload" "check_inputs d (Some g) inputs = Inl f"
  shows "\<exists>rt'. session ev now d inp inputs rt = (Inr (StrongId (rt_next_id rt), null_id), rt')"
proof -
  obtain rt1 rt2 rt3 rt4 ex where r: "create_collective d rt = (Inr (StrongId (rt_next_id rt)), rt1)"
    "plan_collective now (StrongId (rt_next_id rt)) inp rt1 = (Inr pl, rt2)"
    "reserve_collective (StrongId (rt_next_id rt)) rt2 = (Inr (StrongId (rt_next_id rt + 2)), rt3)"
    "dispatch_collective (StrongId (rt_next_id rt)) rt3 = (Inr (StrongId (rt_next_id rt + 3)), rt4)"
    and ex: "om_find (rt_executions rt4) (StrongId (rt_next_id rt)) = Some ex" "ex_lifecycle ex = DISPATCHED"
      "ex_descriptor ex = d" "rt_groups rt4 = rt_groups rt"
    by (rule session_dispatched [OF assms(1-8) refl])
  have "\<exists>rt'. execute_collective ev (StrongId (rt_next_id rt)) inputs rt4 = (Inr null_id, rt')"
    using ex assms(3,8,9) by (intro execute_rejected [of rt4 _ ex]) simp_all
  then show ?thesis by (auto simp: session_def andthen_eq ret_def r)
qed

lemma execute_session:
  assumes "0 \<le> n"
  shows "\<exists>topo. \<forall>e m rt'.
    session (ci_env ci) (ci_plan_ns ci) (cli_descriptor (kind_of kind) (datatype_of dt) n)
      (cli_planner_input (cli_descriptor (kind_of kind) (datatype_of dt) n) (cli_pair (StrongId 2) (StrongId 3)) topo)
      (float_inputs (nat n)) (paired_runtime topo (StrongId 2) (StrongId 3)) = (Inr (e, m), rt') \<longrightarrow>
    cmd_execute ci kind dt n c =
      (if id_is_null m then seq (print_line ''execute FAILED'') (\<lambda>_. give 1) else print_result ci (nat n) e m)
        (c\<lparr>cl_runtime := rt'\<rparr>)"
proof -
  obtain topo where pre: "cmd_execute ci kind dt n c =
     (let k = kind_of kind; d = cli_descriptor k (datatype_of dt) n; g = cli_pair (StrongId 2) (StrongId 3);
          rt = paired_runtime topo (StrongId 2) (StrongId 3)
      in seq (with_runtime (create_collective d)) (\<lambda>e.
         seq (with_runtime (plan_collective (ci_plan_ns ci) e (cli_planner_input d g topo))) (\<lambda>_.
         execute_prepared ci n e)) (c\<lparr>cl_runtime := rt\<rparr>))" using execute_prefix by blast
  show ?thesis
    by (rule exI [of _ topo])
      (use assms in \<open>auto simp: pre Let_def execute_prepared_def seq_def with_runtime_def session_def andthen_Inr ret_def\<close>)
qed

lemma cli_session_ready:
  assumes n: "1 \<le> n" "n < 2 ^ 31" and k: "execute_failure k = None" and d_def: "d = cli_descriptor k dt n"
  obtains pl cnt payload where
    "plan (rt_source_counter (paired_runtime topo da db)) now ((cli_planner_input desc (cli_pair da db) topo)\<lparr>pi_descriptor := Some d\<rparr>) =
      Inr (pl, cnt)"
    "element_byte_count d = Inr payload" "unat payload = payload_size d"
    "om_find (rt_groups (paired_runtime topo da db)) (descriptor_key d) = Some (cli_pair da db)"
    "\<not> id_is_null (cd_group_id d)" "\<not> gen_is_null (cd_group_generation d)" "valid_descriptor d"
proof -
  note valid = execute_success_valid [OF n k]
  obtain pl cnt where pl: "plan (rt_source_counter (paired_runtime topo da db)) now
      ((cli_planner_input desc (cli_pair da db) topo)\<lparr>pi_descriptor := Some d\<rparr>) = Inr (pl, cnt)"
    using cli_plan [OF n valid(2)] unfolding d_def by blast
  obtain payload where payload: "element_byte_count d = Inr payload"
    using cli_payload(3) [OF n, of k dt] by (auto simp: element_byte_count_eq d_def)
  have g: "om_find (rt_groups (paired_runtime topo da db)) (descriptor_key d) = Some (cli_pair da db)"
    by (simp add: cli_descriptor_fields paired_runtime_ok d_def)
  show thesis
    by (rule that [OF pl payload element_byte_count_unat [OF payload] g])
      (use valid in \<open>simp_all add: cli_descriptor_fields d_def\<close>)
qed

lemma execute_fails:
  assumes n: "1 \<le> n" "n < 2 ^ 31" and k: "execute_failure (kind_of kind) = None"
    and s: "kind_of kind \<noteq> ALL_REDUCE \<or> dt_size (datatype_of dt) \<noteq> 4"
  shows "\<exists>c'. cmd_execute ci kind dt n c = (Inr 1, c') \<and> cl_output c' = cl_output c @ [''execute FAILED'']"
proof -
  let ?d = "cli_descriptor (kind_of kind) (datatype_of dt) n" and ?g = "cli_pair (StrongId 2) (StrongId 3)"
  let ?rt = "\<lambda>topo. paired_runtime topo (StrongId 2) (StrongId 3)"
  obtain f where f: "check_inputs ?d (Some ?g) (float_inputs (nat n)) = Inl f"
    using cli_inputs_rejected [OF n, of "kind_of kind" "datatype_of dt"] s execute_success_valid(2) [OF n k] by auto
  have fails: "\<exists>rt'. session (ci_env ci) (ci_plan_ns ci) ?d (cli_planner_input ?d ?g topo) (float_inputs (nat n)) (?rt topo) =
      (Inr (StrongId 1, null_id), rt')" for topo
  proof -
    obtain pl cnt payload where r:
      "plan (rt_source_counter (?rt topo)) (ci_plan_ns ci) ((cli_planner_input ?d ?g topo)\<lparr>pi_descriptor := Some ?d\<rparr>) = Inr (pl, cnt)"
      "element_byte_count ?d = Inr payload" "unat payload = payload_size ?d"
      "om_find (rt_groups (?rt topo)) (descriptor_key ?d) = Some ?g"
      "\<not> id_is_null (cd_group_id ?d)" "\<not> gen_is_null (cd_group_generation ?d)" "valid_descriptor ?d"
      by (rule cli_session_ready [OF n k refl])
    from session_rejected [OF paired_runtime_ok(1,2) r(4-7,1,2) f] show ?thesis unfolding paired_runtime_ok(3) .
  qed
  obtain topo where "\<And>e m rt'. session (ci_env ci) (ci_plan_ns ci) ?d (cli_planner_input ?d ?g topo) (float_inputs (nat n)) (?rt topo) =
      (Inr (e, m), rt') \<Longrightarrow> cmd_execute ci kind dt n c =
      (if id_is_null m then seq (print_line ''execute FAILED'') (\<lambda>_. give 1) else print_result ci (nat n) e m) (c\<lparr>cl_runtime := rt'\<rparr>)"
    using execute_session [of n ci kind dt c] n by auto
  with fails [of topo] show ?thesis by (auto simp: act_simps id_is_null_def)
qed

lemma print_result_output:
  assumes "om_find (rt_executions (cl_runtime c)) e = Some ex" "ex_lifecycle ex = s"
    "ex_outputs ex = concat (replicate n q) # outs" "length q = 4" "0 < n"
    "om_find (rt_measurements (cl_runtime c)) m = Some cm"
  shows "print_result ci n e m c = (Inr 0, c\<lparr>cl_output := cl_output c @
    [''state='' @ collective_state_to_string s @ '' result[0]='' @ ci_fixed ci q @ '' result[last]='' @ ci_fixed ci q,
     ''measurement='' @ to_string (raw m) @ '' provenance=MEASURED freshness=CURRENT'',
     ''wall_time_us='' @ to_string (cm_wall_time_us cm) @ '' payload_bytes='' @ to_string (cm_payload_bytes cm)]\<rparr>)"
proof -
  have "take 4 (concat (replicate n q)) = q"
    using element_repeated [of 0 n q 4] assms(4,5) by (simp add: element_def)
  moreover have "take 4 (drop (4 * (n - 1)) (concat (replicate n q))) = q"
    using element_repeated [of "n - 1" n q 4] assms(4,5) by (simp add: element_def mult.commute)
  ultimately show ?thesis
    using assms by (simp add: print_result_def act_simps outputs_def execution_state_def measurement_def op_simps result_line_def)
qed

lemma execute_succeeds:
  assumes n: "1 \<le> n" "n < 2 ^ 31" and k: "kind_of kind = ALL_REDUCE" and s: "datatype_of dt \<in> {INT32, UINT32, FLOAT32}"
    and x: "x = ci_fixed ci (le_store 4 (cli_sum (ev_floats (ci_env ci)) (datatype_of dt)))"
  shows "\<exists>c'. cmd_execute ci kind dt n c = (Inr 0, c') \<and> cl_output c' = cl_output c @
    [''state=SUCCEEDED result[0]='' @ x @ '' result[last]='' @ x, ''measurement=5 provenance=MEASURED freshness=CURRENT'',
     ''wall_time_us='' @ to_string (ev_end_us (ci_env ci) - ev_start_us (ci_env ci)) @ '' payload_bytes='' @ digits (nat n * 4)]"
proof -
  let ?d = "cli_descriptor ALL_REDUCE (datatype_of dt) n" and ?g = "cli_pair (StrongId 2) (StrongId 3)"
  let ?rt = "\<lambda>topo. paired_runtime topo (StrongId 2) (StrongId 3)"
  let ?out = "concat (replicate (nat n) (le_store 4 (cli_sum (ev_floats (ci_env ci)) (datatype_of dt))))"
  have s4: "dt_size (datatype_of dt) = 4" using s by auto
  have run: "\<exists>rt' ex cm. session (ci_env ci) (ci_plan_ns ci) ?d (cli_planner_input ?d ?g topo) (float_inputs (nat n)) (?rt topo) =
      (Inr (StrongId 1, StrongId 5), rt') \<and> om_find (rt_executions rt') (StrongId 1) = Some ex \<and>
      ex_lifecycle ex = SUCCEEDED \<and> ex_outputs ex = replicate 2 ?out \<and> om_find (rt_measurements rt') (StrongId 5) = Some cm \<and>
      unat (cm_payload_bytes cm) = nat n * 4 \<and>
      cm_wall_time_us cm = ev_end_us (ci_env ci) - ev_start_us (ci_env ci)" for topo
  proof -
    have "execute_failure ALL_REDUCE = None" by (simp add: execute_failure_def)
    then obtain pl cnt payload where r:
      "plan (rt_source_counter (?rt topo)) (ci_plan_ns ci) ((cli_planner_input ?d ?g topo)\<lparr>pi_descriptor := Some ?d\<rparr>) = Inr (pl, cnt)"
      "element_byte_count ?d = Inr payload" "unat payload = payload_size ?d"
      "om_find (rt_groups (?rt topo)) (descriptor_key ?d) = Some ?g"
      "\<not> id_is_null (cd_group_id ?d)" "\<not> gen_is_null (cd_group_generation ?d)" "valid_descriptor ?d"
      by (rule cli_session_ready [OF n _ refl])
    have "cg_rank_count ?g < 2 ^ 64" by (simp add: two_members_result)
    moreover have "run_engine (ev_floats (ci_env ci)) ?d (group_size ?g) (float_inputs (nat n)) = Inr (replicate 2 ?out)"
      using cli_engine [OF n s] by (simp add: two_members_result)
    ultimately show ?thesis
      using session_run [OF paired_runtime_ok(1,2) r(4) two_members_result(2) _ r(5-7,1) cli_inputs_accepted [OF n s4] r(2) _
          paired_runtime_ok(4), of "ci_env ci" "replicate 2 ?out"] r(3) cli_payload(1) [OF n, of ALL_REDUCE "datatype_of dt"] s4
      unfolding paired_runtime_ok(3) by auto
  qed
  obtain topo where cmd: "\<And>e m rt'. session (ci_env ci) (ci_plan_ns ci) ?d (cli_planner_input ?d ?g topo) (float_inputs (nat n)) (?rt topo) =
      (Inr (e, m), rt') \<Longrightarrow> cmd_execute ci kind dt n c =
      (if id_is_null m then seq (print_line ''execute FAILED'') (\<lambda>_. give 1) else print_result ci (nat n) e m) (c\<lparr>cl_runtime := rt'\<rparr>)"
    using execute_session [of n ci kind dt c] n k by auto
  obtain rt' ex cm where e: "session (ci_env ci) (ci_plan_ns ci) ?d (cli_planner_input ?d ?g topo) (float_inputs (nat n)) (?rt topo) =
      (Inr (StrongId 1, StrongId 5), rt')" "om_find (rt_executions rt') (StrongId 1) = Some ex"
      "ex_lifecycle ex = SUCCEEDED" "ex_outputs ex = replicate 2 ?out" "om_find (rt_measurements rt') (StrongId 5) = Some cm"
      "unat (cm_payload_bytes cm) = nat n * 4" "cm_wall_time_us cm = ev_end_us (ci_env ci) - ev_start_us (ci_env ci)"
    using run by blast
  have "print_result ci (nat n) (StrongId 1) (StrongId 5) (c\<lparr>cl_runtime := rt'\<rparr>) = (Inr 0, (c\<lparr>cl_runtime := rt'\<rparr>)\<lparr>cl_output := cl_output c @
    [''state='' @ collective_state_to_string SUCCEEDED @ '' result[0]='' @ x @ '' result[last]='' @ x,
     ''measurement='' @ to_string (raw (StrongId 5 :: MeasurementId)) @ '' provenance=MEASURED freshness=CURRENT'',
     ''wall_time_us='' @ to_string (cm_wall_time_us cm) @ '' payload_bytes='' @ to_string (cm_payload_bytes cm)]\<rparr>)"
    unfolding x by (subst print_result_output [of _ _ ex SUCCEEDED _ _ "[?out]" _ cm]) (use e(2-5) n in \<open>simp_all add: numeral_2_eq_2\<close>)
  moreover have "to_string (raw (StrongId 5 :: MeasurementId)) = ''5''" by code_simp
  moreover have "to_string (cm_payload_bytes cm) = digits (nat n * 4)" by (simp only: to_string_def e(6))
  moreover have "\<not> id_is_null (StrongId 5 :: MeasurementId)" by (simp add: id_is_null_def)
  ultimately show ?thesis
    using cmd [OF e(1)] unfolding e(7) by (simp)
qed

section \<open>Saving and recovering\<close>

lemma cli_state_storable:
  "storable (cli_state now (cli_pair d d'))" "length (store_encode (cli_state now (cli_pair d d'))) < 2 ^ 64"
proof -
  let ?g = "cli_pair d d'"
  have len: "length (cg_participants ?g) = 2" using two_members_result(5) [of d d'] by (simp add: cg_rank_count_def)
  have "group_ok (cli_group ?g)"
    using two_members_result(2) [of d d'] len
    by (simp add: group_ok_def cli_group_def group_wf_def comp_def cli_participant_def)
  then show "storable (cli_state now ?g)"
    by (simp add: storable_def cli_state_def health_ok_def kFormatVersion_def)
  have "length (concat (map write_participant (map cli_participant (cg_participants ?g)))) = 57 * 2"
    by (simp add: cli_pair_def group_of_def cli_member_def add_participant_def cli_builder_def new_group_builder_def
        ranked_def upt_rec write_participant_def)
  then show "length (store_encode (cli_state now ?g)) < 2 ^ 64"
    by (simp add: store_encode_def cli_state_def write_group_def cli_group_def write_measurement_def)
qed

lemma save_recover_prefix:
  "\<exists>c'. cl_files c' = cl_files c \<and> cl_output c' = cl_output c \<and>
     cmd_save_recover ci path False c = save_group ci path (cli_pair (StrongId 2) (StrongId 2)) c'"
  "\<exists>c'. cl_files c' = cl_files c \<and> cl_output c' = cl_output c \<and>
     cmd_save_recover ci path True c = recover_file path c'"
proof -
  obtain topo where p: "prepare ci [''dev''] c =
     (Inr (topo, StrongId 1, [StrongId 2]), c\<lparr>cl_runtime := cli_runtime topo\<rparr>)"
    using prepare_result(2) by blast
  obtain rt where i: "ingest_measurement cli_measurement (paired_runtime topo (StrongId 2) (StrongId 2)) = (Inr (), rt)"
    "find_group (StrongId 1) (Generation 1) rt = Some (cli_pair (StrongId 2) (StrongId 2))"
    using paired_runtime_ok(5) [of topo "StrongId 2" "StrongId 2"] by (simp add: ingest_measurement_def op_simps find_group_def)
  have run: "cmd_save_recover ci path r c = (if r then recover_file path else save_group ci path (cli_pair (StrongId 2) (StrongId 2)))
      (c\<lparr>cl_runtime := rt\<rparr>)" for r
    by (simp add: cmd_save_recover_def seq_def try_sum_def give_def look_def with_runtime_def p two_members_result paired_result i)
  have f: "cl_files (c\<lparr>cl_runtime := rt\<rparr>) = cl_files c" "cl_output (c\<lparr>cl_runtime := rt\<rparr>) = cl_output c" by simp_all
  show "\<exists>c'. cl_files c' = cl_files c \<and> cl_output c' = cl_output c \<and>
     cmd_save_recover ci path False c = save_group ci path (cli_pair (StrongId 2) (StrongId 2)) c'"
    using f run [of False] by (metis (full_types))
  show "\<exists>c'. cl_files c' = cl_files c \<and> cl_output c' = cl_output c \<and> cmd_save_recover ci path True c = recover_file path c'"
    using f run [of True] by (metis (full_types))
qed

lemma save_group_saved:
  assumes "save_group ci path g c = (Inr k, c')"
  obtains res where "store_save (ci_disk ci) path (cli_state (ci_saved_ns ci) g) (cl_files c) = (Inr res, cl_files c')" "k = 0"
proof -
  obtain r fs where s: "store_save (ci_disk ci) path (cli_state (ci_saved_ns ci) g) (cl_files c) = (r, fs)" by fastforce
  then show thesis
    using assms that by (cases r) (auto simp: save_group_def seq_def look_def change_def try_sum_def halt_def give_def print_line_def)
qed

lemma store_saved: "store_save io path s fs = (Inr res, fs') \<Longrightarrow> io = Io_ok \<and> fs' path = Some (store_frame s)"
  by (cases io) auto

lemma saved_file:
  assumes "cmd_save_recover ci path False c = (Inr k, c')"
  shows "k = 0 \<and> cl_files c' path = Some (store_frame (cli_state (ci_saved_ns ci) (cli_pair (StrongId 2) (StrongId 2))))"
proof -
  obtain c1 where "cmd_save_recover ci path False c = save_group ci path (cli_pair (StrongId 2) (StrongId 2)) c1"
    using save_recover_prefix(1) by blast
  with assms have "save_group ci path (cli_pair (StrongId 2) (StrongId 2)) c1 = (Inr k, c')" by simp
  then show ?thesis by (rule save_group_saved) (use store_saved in blast)
qed

section \<open>A concrete process\<close>

definition sample_cli_input :: cli_input where
  "sample_cli_input = \<lparr>ci_topology_ns = 1, ci_plan_ns = 2, ci_saved_ns = 3, ci_env = sample_env, ci_disk = Io_ok,
     ci_fixed = (\<lambda>_. ''2139095040''), ci_general = (\<lambda>_. ''0'')\<rparr>"

definition new_cli :: Cli where
  "new_cli = \<lparr>cl_runtime = new_runtime, cl_files = Map.empty, cl_output = []\<rparr>"

lemma names_of:
  "kind_of ''ALL_REDUCE'' = ALL_REDUCE" "datatype_of ''INT32'' = INT32"
  by code_simp+

section \<open>Properties\<close>

text \<open>C19: what \<open>execute-reference\<close> does for each kind and each count from 1: barrier, broadcast and reduce
  always end in an uncaught exception, because the command asks for SUM and gives no root; an all-reduce over
  a four-byte datatype succeeds, with exactly this output; everything else is committed as FAILED.\<close>

theorem execute_reference_outcome:
  assumes "1 \<le> n" "n < 2 ^ 31"
    and "x = ci_fixed ci (le_store 4 (cli_sum (ev_floats (ci_env ci)) (datatype_of dt)))"
  shows "map_prod id cl_output (cmd_execute ci kind dt n c) =
    (if kind_of kind \<in> {CollectiveKind.BARRIER, BROADCAST}
     then (Inl (Throws (Error ErrorCode.VALIDATION ''barrier/broadcast must not carry a reduction operation'')), cl_output c)
     else if kind_of kind = REDUCE
     then (Inl (Throws (Error ErrorCode.VALIDATION ''broadcast/reduce requires a root rank'')), cl_output c)
     else if kind_of kind = ALL_REDUCE \<and> datatype_of dt \<in> {INT32, UINT32, FLOAT32}
     then (Inr 0, cl_output c @
       [''state=SUCCEEDED result[0]='' @ x @ '' result[last]='' @ x,
        ''measurement=5 provenance=MEASURED freshness=CURRENT'',
        ''wall_time_us='' @ to_string (ev_end_us (ci_env ci) - ev_start_us (ci_env ci)) @ '' payload_bytes='' @ digits (nat n * 4)])
     else (Inr 1, cl_output c @ [''execute FAILED'']))"
proof -
  consider f where "execute_failure (kind_of kind) = Some f"
    | "execute_failure (kind_of kind) = None" "kind_of kind = ALL_REDUCE" "datatype_of dt \<in> {INT32, UINT32, FLOAT32}"
    | "execute_failure (kind_of kind) = None" "\<not> (kind_of kind = ALL_REDUCE \<and> datatype_of dt \<in> {INT32, UINT32, FLOAT32})"
    by fastforce
  then show ?thesis
  proof cases
    case 1
    then obtain c' where "cmd_execute ci kind dt n c = (Inl (Throws f), c')" "cl_output c' = cl_output c"
      using execute_throws [OF assms(1,2) 1, of ci dt c] by blast
    with 1 show ?thesis by (cases "kind_of kind") (simp_all add: execute_failure_def)
  next
    case 2
    then show ?thesis using execute_succeeds [OF assms(1,2) 2(2,3) assms(3), of c] by auto
  next
    case 3
    then have "kind_of kind \<noteq> ALL_REDUCE \<or> dt_size (datatype_of dt) \<noteq> 4" by (cases "datatype_of dt") auto
    then obtain c' where "cmd_execute ci kind dt n c = (Inr 1, c')" "cl_output c' = cl_output c @ [''execute FAILED'']"
      using execute_fails [OF assms(1,2) 3(1), of dt ci c] by blast
    with 3 show ?thesis by (cases "kind_of kind") (simp_all add: execute_failure_def)
  qed
qed

theorem execute_reference_outcome_witness:
  "map_prod id cl_output (cmd_execute sample_cli_input ''ALL_REDUCE'' ''INT32'' 3 new_cli) =
    (Inr 0, [''state=SUCCEEDED result[0]=2139095040 result[last]=2139095040'',
      ''measurement=5 provenance=MEASURED freshness=CURRENT'', ''wall_time_us=20 payload_bytes=12''])"
proof -
  have t: "to_string (ev_end_us sample_env - ev_start_us sample_env) = ''20''" "digits 12 = ''12''"
    unfolding sample_env_def by code_simp+
  show ?thesis
    by (subst execute_reference_outcome [OF _ _ refl]) (simp_all add: names_of sample_cli_input_def new_cli_def t)
qed

text \<open>C21: a state that \<open>save\<close> wrote is read back by \<open>recover\<close> in any later process: it finds the group and the
  measurement, and prints the measurement as CURRENT although the next line claims that recovered
  measurements remain REVALIDATION_REQUIRED.\<close>

theorem recover_after_save:
  assumes "cmd_save_recover ci path False c = (Inr k, c')" "cl_files c2 path = cl_files c' path"
  shows "k = 0 \<and> map_prod id cl_output (cmd_save_recover ci2 path True c2) =
    (Inr 0, cl_output c2 @ [''loaded groups=1 measurements=1'', ''measurement freshness=CURRENT'',
      ''recovery: recovered physical measurements remain REVALIDATION_REQUIRED'', ''provenance=REVALIDATION_REQUIRED''])"
proof -
  let ?s = "cli_state (ci_saved_ns ci) (cli_pair (StrongId 2) (StrongId 2))"
  obtain c1 where c1: "cl_files c1 = cl_files c2" "cl_output c1 = cl_output c2"
    "cmd_save_recover ci2 path True c2 = recover_file path c1"
    using save_recover_prefix(2) by blast
  have "store_load path (cl_files c1) =
      Inr (?s, \<lparr>sr_digest = semantic_digest ?s, sr_bytes = length (store_frame ?s)\<rparr>)"
    using saved_file [OF assms(1)] assms(2) load_store_frame [OF cli_state_storable] by (simp add: store_load_def c1)
  moreover have "digits 1 = ''1''" by code_simp
  moreover have "length (ps_groups ?s) = 1" "length (ps_measurements ?s) = 1"
    "map pm_freshness (ps_measurements ?s) = [MeasurementFreshness.CURRENT]"
    by (simp_all add: cli_state_def cli_persisted_def)
  ultimately show ?thesis
    using saved_file [OF assms(1)] c1
    by (auto simp: recover_file_def act_simps map_prod_def cli_state_def cli_persisted_def)
qed

theorem recover_after_save_witness:
  "map_prod id cl_output (cmd_save_recover sample_cli_input ''s'' True (snd (cmd_save_recover sample_cli_input ''s'' False new_cli))) =
    (Inr 0, cl_output (snd (cmd_save_recover sample_cli_input ''s'' False new_cli)) @
      [''loaded groups=1 measurements=1'', ''measurement freshness=CURRENT'',
       ''recovery: recovered physical measurements remain REVALIDATION_REQUIRED'', ''provenance=REVALIDATION_REQUIRED''])"
proof -
  obtain c1 where "cmd_save_recover sample_cli_input ''s'' False new_cli =
      save_group sample_cli_input ''s'' (cli_pair (StrongId 2) (StrongId 2)) c1"
    using save_recover_prefix(1) by blast
  then obtain c' where "cmd_save_recover sample_cli_input ''s'' False new_cli = (Inr 0, c')"
    by (simp add: save_group_def act_simps sample_cli_input_def)
  with recover_after_save [OF this refl, of sample_cli_input] show ?thesis by simp
qed

end
