(* ===== verification/CF_PlanCommand.thy ===== *)
theory CF_PlanCommand
  imports CF_Commands
begin

text \<open>
  The commands \<open>group-create\<close> and \<open>plan\<close> of \<open>tools/cli.cpp\<close> over the number of ranks.
\<close>

section \<open>A group of n members\<close>

abbreviation member_at :: "NodeId \<Rightarrow> DeviceId \<Rightarrow> nat \<Rightarrow> Participant" where
  "member_at nd dd i \<equiv>
     \<lparr>pt_id = StrongId (of_nat (i + 1)), pt_worker = StrongId (of_nat (i + 1)), pt_boot = StrongId (of_nat (100 + i)),
      pt_node = nd, pt_device = dd, pt_rank = null_id, pt_backend_generation = Generation 1, pt_is_known = True\<rparr>"

lemma fold_members:
  "fold (\<lambda>i. cli_member (of_nat (i + 1)) (of_nat (100 + i)) nd dd) is b =
     b\<lparr>gb_participants := gb_participants b @ map (member_at nd dd) is\<rparr>"
  by (induction "is" arbitrary: b) (simp_all add: cli_member_def add_participant_def)

lemma distinct_words:
  assumes "\<And>i. i \<in> set is \<Longrightarrow> f i < 2 ^ 64" "inj_on f (set is)" "distinct is"
  shows "distinct (map (\<lambda>i. of_nat (f i) :: u64) is)"
  unfolding distinct_map
proof
  show "inj_on (\<lambda>i. of_nat (f i) :: u64) (set is)"
    using assms(1,2) by (auto intro!: inj_onI dest!: arg_cong [where f = unat] simp: unat_of_nat_u64 inj_on_eq_iff)
qed (rule assms)

lemma members_build:
  assumes "1 \<le> n" "n \<le> 2 ^ 31 - 100"
  obtains g where "build_members n nd dd c = (Inr g, c)" "cg_id g = StrongId 1" "cg_generation g = Generation 1"
    "cg_rank_count g = nat n" "group_size g = of_nat (nat n)" "cg_lifecycle g = CREATING"
proof -
  define b where "b = cli_builder\<lparr>gb_participants := map (member_at nd dd) [0..<nat n]\<rparr>"
  have m: "members n nd dd = Inr b"
    using assms unfolding members_def fold_members by (simp add: b_def cli_builder_def new_group_builder_def)
  have small: "i < nat n \<Longrightarrow> 100 + i < 2 ^ 64" for i using assms by simp
  have "distinct (map (\<lambda>i. of_nat (i + 1) :: u64) [0..<nat n])"
    by (intro distinct_words) (auto simp: inj_on_def dest!: small)
  then have ids: "distinct (map pt_id (gb_participants b))" "distinct (map (\<lambda>p. (pt_worker p, pt_boot p)) (gb_participants b))"
    by (auto simp: b_def comp_def distinct_map inj_on_def)
  have nonnull: "(of_nat (100 + i) :: u64) \<noteq> 0" "(of_nat (i + 1) :: u64) \<noteq> 0" if "i < nat n" for i
    using small [OF that] unat_of_nat_u64 [of "100 + i"] unat_of_nat_u64 [of "i + 1"] by (auto simp del: of_nat_add of_nat_Suc)
  have "builder_ok b"
    using assms ids nonnull
    by (auto intro!: exI [of _ 0] simp: builder_ok_def list_all_iff list_ex_iff id_is_null_def gen_is_null_def b_def cli_builder_def new_group_builder_def)
  then have "fst (build b) = Inr (group_of b)" by (simp add: build_ok_iff)
  then have "build_members n nd dd c = (Inr (group_of b), c)" by (simp add: build_members_def m err_simps try_sum_def give_def)
  moreover have "cg_rank_count (group_of b) = nat n" by (simp add: cg_rank_count_def group_of_def b_def)
  ultimately show thesis
    using that by (simp add: group_size_def group_of_def b_def cli_builder_def new_group_builder_def)
qed

lemma member_runtime:
  assumes "1 \<le> n" "n \<le> 2 ^ 31 - 100"
  obtains topo g rt where "prepare ci [''dev''] c = (Inr (topo, StrongId 1, [StrongId 2]), c\<lparr>cl_runtime := cli_runtime topo\<rparr>)"
    "build_members n (StrongId 1) (StrongId 2) (c\<lparr>cl_runtime := cli_runtime topo\<rparr>) = (Inr g, c\<lparr>cl_runtime := cli_runtime topo\<rparr>)"
    "cg_rank_count g = nat n" "group_size g = of_nat (nat n)" "cg_lifecycle g = CREATING"
    "register_group g (cli_runtime topo) = (Inr g, rt)" "find_group (StrongId 1) (Generation 1) rt = Some g"
proof -
  obtain topo where p: "prepare ci [''dev''] c = (Inr (topo, StrongId 1, [StrongId 2]), c\<lparr>cl_runtime := cli_runtime topo\<rparr>)"
    using prepare_result(2) by blast
  obtain g where g: "build_members n (StrongId 1) (StrongId 2) (c\<lparr>cl_runtime := cli_runtime topo\<rparr>) = (Inr g, c\<lparr>cl_runtime := cli_runtime topo\<rparr>)"
    "cg_rank_count g = nat n" "group_size g = of_nat (nat n)" "cg_lifecycle g = CREATING"
    and key: "cg_id g = StrongId 1" "cg_generation g = Generation 1"
    by (rule members_build [OF assms])
  have "register_group g (cli_runtime topo) = (Inr g, (cli_runtime topo)\<lparr>rt_groups := [((StrongId 1, Generation 1), g)]\<rparr>)"
    by (simp add: register_group_def cli_runtime_def new_runtime_def group_key_of_def key)
  from that [OF p g this] show thesis by (simp add: find_group_def)
qed

lemma member_plan:
  assumes n: "1 \<le> n" "n \<le> 2 ^ 31 - 100" and g: "cg_rank_count g = nat n" "group_size g = of_nat (nat n)"
    and k: "k \<in> {ALL_REDUCE, ALL_GATHER, REDUCE_SCATTER}"
  shows "if n \<le> 1048576
    then \<exists>pl. plan counter now (cli_planner_input (cli_descriptor k dt 1024) g topo) = Inr (pl, counter + 1) \<and>
      pl_algorithm pl = expected_algorithm k (nat n)
    else plan counter now (cli_planner_input (cli_descriptor k dt 1024) g topo) =
      Inl (Error UNSUPPORTED ''no feasible algorithm for the requested collective'')"
proof -
  let ?d = "cli_descriptor k dt 1024" and ?bk = "reference_backend_capabilities (StrongId 1) (Generation 1)"
  let ?in = "cli_planner_input ?d g topo"
  have u: "unat (group_size g) = nat n" unfolding g(2) using n by (intro unat_of_nat_u64) simp
  have "dt_size dt \<le> 8" by (cases dt) simp_all
  then have p: "payload_size ?d \<le> 8192" by (simp add: payload_size_def cli_descriptor_fields)
  have "payload_size ?d * nat n \<le> 8192 * 2 ^ 31" using p n by (intro mult_mono) simp_all
  then obtain b where b: "planned_bytes ?d (group_size g) = Inr b"
    using p k u by (auto simp: planned_bytes_def cli_descriptor_fields element_byte_count_eq aggregate_byte_count_ok)
  have accepts: "backend_accepts ?bk ?d (group_size g) \<longleftrightarrow> n \<le> 1048576"
  proof -
    have "group_size g \<le> 1048576 \<longleftrightarrow> n \<le> 1048576" using u n by (simp add: word_le_nat_alt nat_le_iff)
    then show ?thesis
      by (cases k; cases dt)
        (simp_all add: backend_accepts_def reference_backend_capabilities_def supports_kind_def supports_datatype_def
          supports_reduction_def supports_transport_def cli_descriptor_fields)
  qed
  have un: "unmeasured ?in" by (simp add: unmeasured_def cli_planner_input_def)
  have u63: "unat (group_size g) \<le> 2 ^ 63" using u n by simp
  have in_ok: "pi_descriptor ?in = Some ?d" "pi_group ?in = Some g" "pi_backend ?in = Some ?bk"
    by (simp_all add: cli_planner_input_def reference_backend_def Let_def)
  note plan = plan_eq [OF in_ok b u63, of counter now]
  show ?thesis
  proof (cases "n \<le> 1048576")
    case True
    then show ?thesis
      using plan select_unmeasured [OF un _ u63, of ?bk ?d b] accepts u
      by (simp add: make_plan_def cli_descriptor_fields)
  next
    case False
    then show ?thesis using plan select_refused [of ?bk ?d "group_size g" ?in b] accepts by simp
  qed
qed

section \<open>Properties\<close>



text \<open>\<open>group-create\<close> builds and registers a group of \<open>n\<close> ranks for every \<open>n\<close> from 1 whose boot ids fit in
  an \<open>int\<close>; the lifecycle that it prints is READY, while that of the group it registered is CREATING.\<close>

theorem group_create_outcome:
  assumes "1 \<le> n" "n \<le> 2 ^ 31 - 100"
  shows "\<exists>g c'. cmd_group_create ci n c = (Inr 0, c') \<and>
    find_group (StrongId 1) (Generation 1) (cl_runtime c') = Some g \<and> cg_rank_count g = nat n \<and> cg_lifecycle g = CREATING \<and>
    cl_output c' = cl_output c @ [''group.id=1 generation=1 ranks='' @ digits (nat n) @ '' lifecycle=READY'',
      ''digest='' @ to_hex (group_digest g), ''provenance=SYNTHETIC'']"
proof -
  obtain topo g rt where r: "prepare ci [''dev''] c = (Inr (topo, StrongId 1, [StrongId 2]), c\<lparr>cl_runtime := cli_runtime topo\<rparr>)"
    "build_members n (StrongId 1) (StrongId 2) (c\<lparr>cl_runtime := cli_runtime topo\<rparr>) = (Inr g, c\<lparr>cl_runtime := cli_runtime topo\<rparr>)"
    and g: "cg_rank_count g = nat n" "cg_lifecycle g = CREATING"
    and reg: "register_group g (cli_runtime topo) = (Inr g, rt)" "find_group (StrongId 1) (Generation 1) rt = Some g"
    by (rule member_runtime [OF assms])
  show ?thesis
    by (rule exI [of _ g], simp add: cmd_group_create_def seq_def with_runtime_def print_lines_def change_def give_def r reg g)
qed

theorem group_create_outcome_witness:
  "\<exists>g c'. cmd_group_create sample_cli_input 3 new_cli = (Inr 0, c') \<and> cg_rank_count g = 3 \<and>
    find_group (StrongId 1) (Generation 1) (cl_runtime c') = Some g \<and> cg_lifecycle g = CREATING"
  using group_create_outcome [of 3 sample_cli_input new_cli] by auto

end
