(* ===== verification/CF_Examples.thy ===== *)
theory CF_Examples
  imports CF_PlanCommand CF_Explain
begin

text \<open>
  The programs of \<open>examples/\<close>: each is a process of the kind of the command line tool, which drives the library
  and prints. Arrays of floats and of integers are their little-endian bytes.
\<close>

declare digits.simps [simp del]

section \<open>What the examples share\<close>

text \<open>Element \<open>i\<close>, of \<open>k\<close> bytes, of what rank \<open>r\<close> received: undefined out of range.\<close>

definition cell :: "nat \<Rightarrow> bytes list \<Rightarrow> nat \<Rightarrow> nat \<Rightarrow> bytes command" where
  "cell k outs r i =
     (if r < length outs \<and> k * (i + 1) \<le> length (outs ! r) then give (take k (drop (k * i) (outs ! r)))
      else halt (Throws Undefined))"

definition show_int64 :: "bytes \<Rightarrow> string" where
  "show_int64 b = show_int (sint (le_load b :: u64))"

definition run_plan :: "cli_input \<Rightarrow> PlannerInput \<Rightarrow> CollectivePlan command" where
  "run_plan ci inp =
     seq (look (\<lambda>c. plan (rt_source_counter (cl_runtime c)) (ci_plan_ns ci) inp)) (\<lambda>r.
     seq (try_sum r) (\<lambda>(pl, counter).
     seq (change (\<lambda>c. c\<lparr>cl_runtime := (cl_runtime c)\<lparr>rt_source_counter := counter\<rparr>\<rparr>)) (\<lambda>_.
     give pl)))"

definition first_explanation :: "CollectivePlan \<Rightarrow> string" where
  "first_explanation pl = (case pl_explanation pl of [] \<Rightarrow> [] | s # _ \<Rightarrow> s)"

text \<open>The descriptor of the examples that plan: the two ids that not every one of them sets are arguments.\<close>

definition sum_request :: "CollectiveId \<Rightarrow> PolicyGeneration \<Rightarrow> u64 \<Rightarrow> CollectiveDescriptor" where
  "sum_request i policy n = default_descriptor
     \<lparr>cd_group_id := StrongId 1, cd_group_generation := Generation 1, cd_collective_generation := Generation 1,
      cd_kind := ALL_REDUCE, cd_reduction := ReductionOp.SUM, cd_datatype := FLOAT32, cd_element_count := n,
      cd_collective_id := i, cd_policy_generation := policy\<rparr>"

text \<open>One node with one device, in a topology that no runtime holds.\<close>

definition gpu_topology :: "cli_input \<Rightarrow> fault + Topology \<times> NodeId \<times> DeviceId" where
  "gpu_topology ci =
     (let (n, t) = add_node ''n'' (set_provenance TopologyProvenance.SYNTHETIC (new_topology (Generation 1) (ci_topology_ns ci)))
      in sbind (add_device n ''gpu'' True 120 t) (\<lambda>(d, t). Inr (t, n, d)))"

section \<open>Groups\<close>

definition identity_builder :: GroupBuilder where
  "identity_builder =
     (let add = (\<lambda>i w boot n d. add_participant (StrongId i) (StrongId w) (StrongId boot) (StrongId n) (StrongId d) (Generation 1) null_id)
      in add 30 300 9002 2 3 (add 20 200 9001 1 2 (add 10 100 9000 1 1
           ((new_group_builder (StrongId 7) (Generation 1))\<lparr>gb_membership := Generation 1, gb_topology := Generation 1\<rparr>))))"

definition participant_line :: "Participant \<Rightarrow> string" where
  "participant_line p = ''  participant id='' @ to_string (raw (pt_id p)) @ '' rank='' @ to_string (raw (pt_rank p)) @
     '' boot='' @ to_string (raw (pt_boot p))"

definition group_identity :: "nat command" where
  "group_identity =
     seq (try_sum (fst (build identity_builder))) (\<lambda>g.
     seq (print_line (''group id='' @ to_string (raw (cg_id g)) @ '' generation='' @ to_string (gen_value (cg_generation g)) @
       '' ranks='' @ digits (cg_rank_count g))) (\<lambda>_.
     seq (print_lines (map participant_line (cg_participants g))) (\<lambda>_.
     seq (print_line (''digest='' @ to_hex (group_digest g))) (\<lambda>_.
     give 0))))"

section \<open>The reference engine\<close>

definition broadcast_reference :: "cli_input \<Rightarrow> nat command" where
  "broadcast_reference ci =
     (let rb = store_elems 4 [0x40E00000, 0x41000000, 0x41100000 :: u32]
      in seq (try_sum (execute (ev_floats (ci_env ci)) BROADCAST ReductionOp.NONE FLOAT32 3 0 2 [rb, rb])) (\<lambda>out.
         seq (cell 4 out 0 0) (\<lambda>x.
         seq (cell 4 out 1 2) (\<lambda>y.
         seq (print_line (''broadcast rank0[0]='' @ ci_fixed ci x @ '' rank1[2]='' @ ci_fixed ci y)) (\<lambda>_.
         give 0)))))"

definition reduce_reference :: "cli_input \<Rightarrow> nat command" where
  "reduce_reference ci =
     (let ba = store_elems 4 [0x3F800000, 0x40000000 :: u32]; bb = store_elems 4 [0x40400000, 0x40800000 :: u32]
      in seq (try_sum (execute (ev_floats (ci_env ci)) REDUCE ReductionOp.SUM FLOAT32 2 0 2 [ba, bb])) (\<lambda>out.
         seq (cell 4 out 0 0) (\<lambda>x.
         seq (cell 4 out 0 1) (\<lambda>y.
         seq (print_line (''reduce root[0]='' @ ci_fixed ci x @ '' root[1]='' @ ci_fixed ci y)) (\<lambda>_.
         give 0)))))"

definition four_floats :: "bytes list" where
  "four_floats =
     [store_elems 4 [0x3F800000, 0x40000000, 0x40400000, 0x40800000 :: u32],
      store_elems 4 [0x41200000, 0x41A00000, 0x41F00000, 0x42200000 :: u32]]"

definition allreduce_reference :: "cli_input \<Rightarrow> nat command" where
  "allreduce_reference ci =
     seq (try_sum (execute (ev_floats (ci_env ci)) ALL_REDUCE ReductionOp.SUM FLOAT32 4 0 2 four_floats)) (\<lambda>out.
     seq (cell 4 out 0 0) (\<lambda>x.
     seq (cell 4 out 1 3) (\<lambda>y.
     seq (print_line (''all-reduce rank0[0]='' @ ci_fixed ci x @ '' rank1[3]='' @ ci_fixed ci y)) (\<lambda>_.
     give 0))))"

definition allgather_reference :: "cli_input \<Rightarrow> nat command" where
  "allgather_reference ci =
     (let ba = store_elems 8 [5, 6 :: u64]; bb = store_elems 8 [7, 8 :: u64]
      in seq (try_sum (execute (ev_floats (ci_env ci)) ALL_GATHER ReductionOp.NONE INT64 2 0 2 [ba, bb])) (\<lambda>out.
         seq (cell 8 out 0 0) (\<lambda>w. seq (cell 8 out 0 1) (\<lambda>x. seq (cell 8 out 0 2) (\<lambda>y. seq (cell 8 out 0 3) (\<lambda>z.
         seq (print_line (''all-gather rank0: ['' @ show_int64 w @ '', '' @ show_int64 x @ '', '' @ show_int64 y @ '', '' @
           show_int64 z @ '']'')) (\<lambda>_.
         give 0)))))))"

definition reduce_scatter_reference :: "cli_input \<Rightarrow> nat command" where
  "reduce_scatter_reference ci =
     (let b0 = store_elems 8 [1, 2, 10, 20 :: u64]; b1 = store_elems 8 [100, 200, 1000, 2000 :: u64]
      in seq (try_sum (execute (ev_floats (ci_env ci)) REDUCE_SCATTER ReductionOp.SUM INT64 2 0 2 [b0, b1])) (\<lambda>out.
         seq (cell 8 out 0 0) (\<lambda>w. seq (cell 8 out 0 1) (\<lambda>x. seq (cell 8 out 1 0) (\<lambda>y. seq (cell 8 out 1 1) (\<lambda>z.
         seq (print_line (''reduce-scatter rank0=['' @ show_int64 w @ '','' @ show_int64 x @ ''] rank1=['' @ show_int64 y @ '','' @
           show_int64 z @ '']'')) (\<lambda>_.
         give 0)))))))"

section \<open>Plans\<close>

text \<open>Two nodes with a device each and a network link.\<close>

definition network_topology :: "cli_input \<Rightarrow> fault + Topology \<times> (NodeId \<times> DeviceId) \<times> NodeId \<times> DeviceId" where
  "network_topology ci =
     (let (n1, t) = add_node ''node0'' (set_provenance TopologyProvenance.SYNTHETIC (new_topology (Generation 1) (ci_topology_ns ci)));
          (n2, t) = add_node ''node1'' t
      in sbind (add_device n1 ''gpu0'' True 120 t) (\<lambda>(d0, t).
         sbind (add_device n2 ''gpu1'' True 120 t) (\<lambda>(d1, t).
         sbind (add_link
           \<lparr>tl_source_node = n1, tl_dest_node = n2, tl_source_device = d0, tl_dest_device = d1,
            tl_class = LinkClass.NETWORK, tl_nominal = no_capability, tl_measured = no_capability,
            tl_provenance = ProvenanceKind.SYNTHETIC, tl_health = HealthState.UNKNOWN, tl_snapshot = null_gen,
            tl_degraded = False\<rparr> t) (\<lambda>t.
         Inr (t, (n1, d0), n2, d1)))))"

definition topology_plan :: "cli_input \<Rightarrow> nat command" where
  "topology_plan ci =
     seq (change (\<lambda>c. c\<lparr>cl_runtime := new_runtime\<rparr>)) (\<lambda>_.
     seq (with_runtime (register_backend (Some (reference_backend (StrongId 1) (Generation 1))))) (\<lambda>_.
     seq (try_sum (network_topology ci)) (\<lambda>(topo, (n1, d0), n2, d1).
     seq (with_runtime (adopt_topology topo)) (\<lambda>_.
     seq (try_sum (fst (build (cli_member 2 200 n2 d1 (cli_member 1 100 n1 d0 (cli_builder\<lparr>gb_topology := tp_generation topo\<rparr>)))))) (\<lambda>g.
     seq (with_runtime (register_group g)) (\<lambda>_.
     seq (print_line (''topology nodes='' @ digits (node_count topo) @ '' devices='' @ digits (length (tp_devices topo)) @
       '' links='' @ digits (length (tp_links topo)) @ '' provenance=SYNTHETIC'')) (\<lambda>_.
     seq (run_plan ci (cli_planner_input (sum_request (StrongId 1) (Generation 1) 1024) g topo)) (\<lambda>pl.
     seq (print_line (''plan algorithm='' @ algorithm_to_string (pl_algorithm pl) @ '' steps='' @ to_string (pl_expected_steps pl))) (\<lambda>_.
     give 0)))))))))"

definition small_factor :: "cli_input \<Rightarrow> DecisionFactor \<Rightarrow> string" where
  "small_factor ci f = ''  factor '' @ df_name f @ ''='' @ ci_general ci (df_value f) @ '' ('' @ df_unit f @ '')''"

definition algorithm_selection :: "cli_input \<Rightarrow> nat command" where
  "algorithm_selection ci =
     seq (try_sum (gpu_topology ci)) (\<lambda>(topo, n, d).
     seq (build_members 4 n d) (\<lambda>g.
     seq (run_plan ci ((cli_planner_input (sum_request null_id null_gen 4096) g topo)
       \<lparr>pi_measured_bandwidth := Some 1000000000, pi_measured_latency_ns := Some 10\<rparr>)) (\<lambda>pl.
     seq (print_line (''selected='' @ algorithm_to_string (pl_algorithm pl))) (\<lambda>_.
     seq (print_lines (map (small_factor ci) (pl_factors pl))) (\<lambda>_.
     seq (print_line (''explanation: '' @ first_explanation pl)) (\<lambda>_.
     give 0))))))"

definition overlap_reasoning :: "cli_input \<Rightarrow> nat command" where
  "overlap_reasoning ci =
     seq (try_sum (gpu_topology ci)) (\<lambda>(topo, n, d).
     seq (build_members 2 n d) (\<lambda>g.
     seq (run_plan ci (cli_planner_input (sum_request null_id null_gen 64) g topo)) (\<lambda>pl.
     seq (print_lines
       [''overlap_eligible='' @ (if pl_overlap_eligible pl then ''true'' else ''false''),
        ''overlap_reason='' @ pl_overlap_reason pl, ''explanation='' @ first_explanation pl]) (\<lambda>_.
     give 0))))"

definition explain_and_replay :: "cli_input \<Rightarrow> nat command" where
  "explain_and_replay ci =
     seq (change (\<lambda>c. c\<lparr>cl_runtime := new_runtime\<rparr>)) (\<lambda>_.
     seq (with_runtime (register_backend (Some (reference_backend (StrongId 1) (Generation 1))))) (\<lambda>_.
     seq (try_sum (gpu_topology ci)) (\<lambda>(topo, n, d).
     seq (with_runtime (adopt_topology topo)) (\<lambda>_.
     seq (try_sum (two_members n d d)) (\<lambda>g.
     seq (with_runtime (register_group g)) (\<lambda>_.
     let dsc = sum_request null_id null_gen 64 in
     seq (run_plan ci (cli_planner_input dsc g topo)) (\<lambda>pl.
     seq (print_lines [''explain_plan:'', explain_plan (ci_general ci) pl]) (\<lambda>_.
     seq (print_line (''replay digest_stable='' @ digits (if canonical_digest dsc = canonical_digest dsc then 1 else 0))) (\<lambda>_.
     give 0)))))))))"

section \<open>Health, persistence, authority\<close>

definition report_stale :: "HealthRecord \<Rightarrow> unit command" where
  "report_stale h c =
     (case update_health h (cl_runtime c) of
        (Inr _, rt) \<Rightarrow> print_line ''stale health overwrite NOT rejected (bug)'' (c\<lparr>cl_runtime := rt\<rparr>)
      | (Inl (Error k what), rt) \<Rightarrow> print_line (''stale health overwrite rejected: '' @ what) (c\<lparr>cl_runtime := rt\<rparr>)
      | (Inl f, rt) \<Rightarrow> halt (Throws f) (c\<lparr>cl_runtime := rt\<rparr>))"

definition health_and_degradation :: "cli_input \<Rightarrow> nat command" where
  "health_and_degradation ci =
     seq (change (\<lambda>c. c\<lparr>cl_runtime := new_runtime\<rparr>)) (\<lambda>_.
     seq (with_runtime (register_backend (Some (reference_backend (StrongId 1) (Generation 1))))) (\<lambda>_.
     seq (look (\<lambda>c. make_source (rt_source_counter (cl_runtime c)) (ci_plan_ns ci) ''health probe'' ProvenanceKind.MEASURED)) (\<lambda>(src, counter).
     seq (change (\<lambda>c. c\<lparr>cl_runtime := (cl_runtime c)\<lparr>rt_source_counter := counter\<rparr>\<rparr>)) (\<lambda>_.
     let h = new_health\<lparr>hr_state := HEALTHY, hr_generation := Generation 1, hr_source := src\<rparr>;
         h2 = h\<lparr>hr_generation := Generation 2, hr_state := advance_health HEALTHY TRANSPORT_FAILURE\<rparr>
     in
     seq (with_runtime (update_health h)) (\<lambda>_.
     seq (look cl_runtime) (\<lambda>rt.
     seq (print_line (''path_health='' @ health_state_to_string (path_health rt) @ '' gen='' @ to_string (gen_value (health_generation rt)))) (\<lambda>_.
     seq (with_runtime (update_health h2)) (\<lambda>_.
     seq (look cl_runtime) (\<lambda>rt.
     seq (print_line (''after transient failure path_health='' @ health_state_to_string (path_health rt) @
       '' (one failure does not imply permanent failure)'')) (\<lambda>_.
     seq (report_stale (new_health\<lparr>hr_state := UNHEALTHY, hr_generation := Generation 1\<rparr>)) (\<lambda>_.
     give 0)))))))))))"

definition example_state :: PersistentState where
  "example_state =
     \<lparr>ps_format_version = 1, ps_epoch = Generation 2, ps_live_boot = StrongId 100,
      ps_groups =
        [\<lparr>pg_group_id = StrongId 1, pg_generation = Generation 1, pg_membership = Generation 1, pg_topology = Generation 1,
          pg_health = Generation 0, pg_backend = Generation 1, pg_lifecycle = READY, pg_provenance = [],
          pg_participants =
            [\<lparr>pp_participant_id = StrongId 1, pp_worker = StrongId 1, pp_boot = StrongId 100, pp_node = StrongId 1,
              pp_device = StrongId 1, pp_rank = StrongId 0, pp_backend_generation = Generation 1, pp_is_known = True\<rparr>]\<rparr>],
      ps_measurements = [], ps_health = None, ps_backends = [], ps_policy_count = 0, ps_saved_ns = 111\<rparr>"

definition persistence_recovery :: "cli_input \<Rightarrow> nat command" where
  "persistence_recovery ci =
     seq (look (\<lambda>c. store_save (ci_disk ci) ''example_state.bin'' example_state (cl_files c))) (\<lambda>(r, fs).
     seq (change (\<lambda>c. c\<lparr>cl_files := fs\<rparr>)) (\<lambda>_.
     seq (try_sum r) (\<lambda>res.
     seq (print_line (''saved bytes='' @ digits (sr_bytes res) @ '' digest='' @ to_hex (sr_digest res))) (\<lambda>_.
     seq (look (\<lambda>c. store_load ''example_state.bin'' (cl_files c))) (\<lambda>r2.
     seq (try_sum r2) (\<lambda>(loaded, res2).
     seq (print_line (''loaded groups='' @ digits (length (ps_groups loaded)) @ '' digest_match='' @
       digits (if sr_digest res2 = sr_digest res then 1 else 0))) (\<lambda>_.
     give 0)))))))"

definition example_truth :: AuthorityGroundTruth where
  "example_truth =
     \<lparr>gt_epoch = Generation 3, live_boot = StrongId 100, gt_group_generation = Generation 5,
      gt_collective_generation = Generation 2, gt_attempt_generation = Generation 4, gt_dispatch_generation = Generation 7\<rparr>"

definition stale_claim :: AuthorityClaim where
  "stale_claim =
     \<lparr>cl_boot = StrongId 100, cl_epoch = Generation 2, cl_group_generation = Generation 5,
      cl_collective_generation = Generation 2, cl_attempt_generation = Generation 4, cl_dispatch_generation = Generation 7,
      is_completion = False\<rparr>"

definition old_claim :: AuthorityClaim where
  "old_claim =
     \<lparr>cl_boot = StrongId 999, cl_epoch = Generation 3, cl_group_generation = Generation 99,
      cl_collective_generation = Generation 50, cl_attempt_generation = Generation 99, cl_dispatch_generation = Generation 99,
      is_completion = False\<rparr>"

definition verdict_line :: "string \<Rightarrow> AuthorityClaim \<Rightarrow> string" where
  "verdict_line name claim =
     (let d = evaluate_authority example_truth claim
      in name @ '' verdict='' @ authority_verdict_to_string (verdict d) @ '' reason='' @ reason d)"

definition stale_authority :: "nat command" where
  "stale_authority =
     seq (print_lines [verdict_line ''stale-epoch'' stale_claim, verdict_line ''old-incarnation'' old_claim]) (\<lambda>_. give 0)"

section \<open>A whole collective\<close>

definition multiprocess_collective :: "cli_input \<Rightarrow> nat command" where
  "multiprocess_collective ci =
     seq (prepare ci [''mem0'', ''mem1'']) (\<lambda>(topo, nd, ds).
     seq (try_sum (two_members nd (ds ! 0) (ds ! 1))) (\<lambda>g.
     seq (with_runtime (register_group g)) (\<lambda>_.
     let d = cli_descriptor ALL_REDUCE FLOAT32 4 in
     seq (with_runtime (create_collective d)) (\<lambda>e.
     seq (with_runtime (plan_collective (ci_plan_ns ci) e (cli_planner_input d g topo))) (\<lambda>_.
     seq (with_runtime (reserve_collective e)) (\<lambda>_.
     seq (with_runtime (dispatch_collective e)) (\<lambda>_.
     seq (with_runtime (execute_collective (ci_env ci) e four_floats)) (\<lambda>_.
     seq (with_runtime (outputs e)) (\<lambda>outs.
     seq (with_runtime (execution_state e)) (\<lambda>s.
     seq (cell 4 outs 0 0) (\<lambda>x.
     seq (print_lines [''state='' @ collective_state_to_string s @ '' result[0]='' @ ci_fixed ci x,
       ''transport=HOST_STAGED (not GPUDirect/RDMA/NCCL)'']) (\<lambda>_.
     give 0))))))))))))"

section \<open>What the examples print\<close>

lemma all_reduce_of_pair:
  assumes "length xs = n" "length ys = n" "n * 8 < 2 ^ 64"
  shows "execute F ALL_REDUCE ReductionOp.SUM FLOAT32 (of_nat n) z 2 [store_elems 4 xs, store_elems 4 ys] =
    Inr (replicate 2 (store_elems 4 (map2 (fp_add (fp32 F)) xs ys)))"
proof -
  let ?in = "[store_elems 4 xs, store_elems 4 ys]" and ?out = "store_elems 4 (map2 (fp_add (fp32 F)) xs ys)"
  have c: "unat (of_nat n :: u64) = n" using assms(3) by (intro unat_of_nat_u64) simp
  have "well_sized FLOAT32 (of_nat n) 2 (unat (of_nat n :: u64) * dt_size FLOAT32) ?in"
    using assms by (intro well_sizedI) (simp_all add: c)
  moreover have "reduced F FLOAT32 ReductionOp.SUM ?in 2 n ?out"
    unfolding reduced_def
    by (intro conjI allI impI) (use assms in \<open>simp_all add: rank_fold_def upt_rec err_simps on_bytes_def reduce_f32_def\<close>)
  ultimately show ?thesis
    using execute_all_reduce_iff [of FLOAT32 "of_nat n" 2 ?in F ReductionOp.SUM z "replicate 2 ?out"] by (auto simp: c)
qed

definition four_sums :: "float_ops \<Rightarrow> u32 list" where
  "four_sums F = map2 (fp_add (fp32 F)) [0x3F800000, 0x40000000, 0x40400000, 0x40800000] [0x41200000, 0x41A00000, 0x41F00000, 0x42200000]"

lemma four_floats_sum:
  "execute F ALL_REDUCE ReductionOp.SUM FLOAT32 4 z 2 four_floats = Inr (replicate 2 (store_elems 4 (four_sums F)))"
  unfolding four_floats_def four_sums_def by (subst all_reduce_of_pair [where n = 4, simplified]) simp_all

lemma cell_element:
  "r < length outs \<Longrightarrow> k * (i + 1) \<le> length (outs ! r) \<Longrightarrow> cell k outs r i = give (element k i (outs ! r))"
  by (rule ext) (simp add: cell_def element_def mult.commute)

lemma engine_results:
  "execute F BROADCAST ReductionOp.NONE FLOAT32 3 0 2 [store_elems 4 [0x40E00000, 0x41000000, 0x41100000 :: u32], store_elems 4 [0x40E00000, 0x41000000, 0x41100000 :: u32]] =
     Inr (replicate 2 (store_elems 4 [0x40E00000, 0x41000000, 0x41100000 :: u32]))"
  "execute F ALL_GATHER ReductionOp.NONE INT64 2 0 2 [store_elems 8 [5, 6 :: u64], store_elems 8 [7, 8 :: u64]] =
     Inr (replicate 2 (store_elems 8 [5, 6, 7, 8 :: u64]))"
  "execute F REDUCE_SCATTER ReductionOp.SUM INT64 2 0 2 [store_elems 8 [1, 2, 10, 20 :: u64], store_elems 8 [100, 200, 1000, 2000 :: u64]] =
     Inr [store_elems 8 [101, 202 :: u64], store_elems 8 [1010, 2020 :: u64]]"
  by code_simp+

lemma shown_integers:
  "show_int64 (le_store 8 (5 :: u64)) = ''5''" "show_int64 (le_store 8 (6 :: u64)) = ''6''" "show_int64 (le_store 8 (7 :: u64)) = ''7''"
  "show_int64 (le_store 8 (8 :: u64)) = ''8''" "show_int64 (le_store 8 (101 :: u64)) = ''101''" "show_int64 (le_store 8 (202 :: u64)) = ''202''"
  "show_int64 (le_store 8 (1010 :: u64)) = ''1010''" "show_int64 (le_store 8 (2020 :: u64)) = ''2020''"
  by code_simp+

theorem engine_examples_print:
  "map_prod id cl_output (broadcast_reference ci c) = (Inr 0, cl_output c @
     [''broadcast rank0[0]='' @ ci_fixed ci (le_store 4 (0x40E00000 :: u32)) @ '' rank1[2]='' @ ci_fixed ci (le_store 4 (0x41100000 :: u32))])"
  "map_prod id cl_output (allreduce_reference ci c) = (Inr 0, cl_output c @
     [''all-reduce rank0[0]='' @ ci_fixed ci (le_store 4 (four_sums (ev_floats (ci_env ci)) ! 0)) @
      '' rank1[3]='' @ ci_fixed ci (le_store 4 (four_sums (ev_floats (ci_env ci)) ! 3))])"
  "map_prod id cl_output (allgather_reference ci c) = (Inr 0, cl_output c @ [''all-gather rank0: [5, 6, 7, 8]''])"
  "map_prod id cl_output (reduce_scatter_reference ci c) = (Inr 0, cl_output c @ [''reduce-scatter rank0=[101,202] rank1=[1010,2020]''])"
  by (simp_all add: broadcast_reference_def allreduce_reference_def allgather_reference_def reduce_scatter_reference_def
      engine_results four_floats_sum cell_element shown_integers four_sums_def act_simps Let_def nth_Cons')

theorem health_example_prints:
  "map_prod id cl_output (health_and_degradation ci c) = (Inr 0, cl_output c @
     [''path_health=HEALTHY gen=1'',
      ''after transient failure path_health=DEGRADED (one failure does not imply permanent failure)'',
      ''stale health overwrite rejected: old health report rejected''])"
proof -
  have one: "to_string (1 :: u64) = ''1''" by code_simp
  show ?thesis
    by (simp add: health_and_degradation_def report_stale_def act_simps Let_def make_source_def register_backend_def update_health_def
        op_simps new_runtime_def new_health_def health_is_zero_def generation_is_older_def path_health_def health_generation_def
        advance_health_def reference_backend_def one stale_message_rejected_def)
qed

theorem authority_example_prints:
  "map_prod id cl_output (stale_authority c) = (Inr 0, cl_output c @
     [''stale-epoch verdict=STALE reason=stale coordinator epoch'',
      ''old-incarnation verdict=STALE reason=WorkerBootId does not match current participant incarnation''])"
proof -
  have "verdict_line ''stale-epoch'' stale_claim = ''stale-epoch verdict=STALE reason=stale coordinator epoch''"
    "verdict_line ''old-incarnation'' old_claim = ''old-incarnation verdict=STALE reason=WorkerBootId does not match current participant incarnation''"
    by code_simp+
  then show ?thesis by (simp add: stale_authority_def act_simps)
qed

lemma example_state_storable: "storable example_state" "length (store_encode example_state) < 2 ^ 64"
proof -
  show "storable example_state"
    by (simp add: storable_def example_state_def health_ok_def kFormatVersion_def group_ok_def)
  show "length (store_encode example_state) < 2 ^ 64"
    by (simp add: store_encode_def example_state_def write_group_def write_participant_def)
qed

theorem persistence_example_prints:
  assumes "ci_disk ci = Io_ok"
  shows "map_prod id cl_output (persistence_recovery ci c) = (Inr 0, cl_output c @
     [''saved bytes='' @ digits (length (store_frame example_state)) @ '' digest='' @ to_hex (semantic_digest example_state),
      ''loaded groups=1 digest_match=1''])"
proof -
  let ?res = "\<lparr>sr_digest = semantic_digest example_state, sr_bytes = length (store_frame example_state)\<rparr>"
  obtain fs where s: "store_save Io_ok ''example_state.bin'' example_state (cl_files c) = (Inr ?res, fs)"
    "fs ''example_state.bin'' = Some (store_frame example_state)"
    by (simp add: semantic_digest_def)
  have "store_load ''example_state.bin'' fs =
      Inr (example_state, ?res)"
    using s(2) load_store_frame [OF example_state_storable] by (simp add: store_load_def)
  moreover have "digits 1 = ''1''" by code_simp
  moreover have "length (ps_groups example_state) = 1" by (simp add: example_state_def)
  ultimately show ?thesis
    by (simp add: persistence_recovery_def act_simps assms s(1) del: store_save.simps)
qed

theorem collective_example_prints:
  "\<exists>c'. multiprocess_collective ci c = (Inr 0, c') \<and> cl_output c' = cl_output c @
     [''state=SUCCEEDED result[0]='' @ ci_fixed ci (le_store 4 (four_sums (ev_floats (ci_env ci)) ! 0)),
      ''transport=HOST_STAGED (not GPUDirect/RDMA/NCCL)'']"
proof -
  let ?d = "cli_descriptor ALL_REDUCE FLOAT32 4" and ?g = "cli_pair (StrongId 2) (StrongId 3)"
  let ?outs = "replicate 2 (store_elems 4 (four_sums (ev_floats (ci_env ci))))"
  obtain topo where p: "prepare ci [''mem0'', ''mem1''] c =
     (Inr (topo, StrongId 1, [StrongId 2, StrongId 3]), c\<lparr>cl_runtime := cli_runtime topo\<rparr>)"
    by (simp add: prepare_def act_simps register_backend_def adopt_topology_def op_simps add_node_def new_topology_def
      set_provenance_def add_device_def has_node_def err_simps cli_runtime_def new_runtime_def reference_backend_def Let_def)
  let ?rt = "paired_runtime topo (StrongId 2) (StrongId 3)"
  have n: "1 \<le> (4 :: int)" "(4 :: int) < 2 ^ 31" and k: "execute_failure ALL_REDUCE = None" by (simp_all add: execute_failure_def)
  obtain pl cnt payload where r:
    "plan (rt_source_counter ?rt) (ci_plan_ns ci) ((cli_planner_input ?d ?g topo)\<lparr>pi_descriptor := Some ?d\<rparr>) = Inr (pl, cnt)"
    "element_byte_count ?d = Inr payload" "unat payload = payload_size ?d"
    "om_find (rt_groups ?rt) (descriptor_key ?d) = Some ?g"
    "\<not> id_is_null (cd_group_id ?d)" "\<not> gen_is_null (cd_group_generation ?d)" "valid_descriptor ?d"
    by (rule cli_session_ready [OF n k refl])
  have "run_engine (ev_floats (ci_env ci)) ?d (group_size ?g) four_floats = Inr ?outs"
    by (simp add: run_engine_def cli_descriptor_fields two_members_result four_floats_sum)
  moreover have "check_inputs ?d (Some ?g) four_floats = Inr ()"
  proof -
    obtain m where "per_rank_bytes ?d 2 = Inr m" "unat m = 16" using cli_rank_bytes [OF n, of ALL_REDUCE FLOAT32] by auto
    then show ?thesis
      by (auto simp: check_inputs_def two_members_result err_simps list_ex_iff four_floats_def Let_def less_2_cases_iff)
  qed
  ultimately obtain rt' ex where e: "session (ci_env ci) (ci_plan_ns ci) ?d (cli_planner_input ?d ?g topo) four_floats ?rt =
      (Inr (StrongId 1, StrongId 5), rt')" "om_find (rt_executions rt') (StrongId 1) = Some ex" "ex_lifecycle ex = SUCCEEDED"
      "ex_outputs ex = ?outs"
    using session_run [OF paired_runtime_ok(1,2) r(4) two_members_result(2) _ r(5-7,1) _ r(2) _ paired_runtime_ok(4),
        of four_floats "ci_env ci" ?outs] two_members_result(5)
    unfolding paired_runtime_ok(3) by auto
  from e(1) obtain rt1 rt2 rt3 rt4 pl i j where steps: "create_collective ?d ?rt = (Inr (StrongId 1), rt1)"
    "plan_collective (ci_plan_ns ci) (StrongId 1) (cli_planner_input ?d ?g topo) rt1 = (Inr pl, rt2)"
    "reserve_collective (StrongId 1) rt2 = (Inr i, rt3)" "dispatch_collective (StrongId 1) rt3 = (Inr j, rt4)"
    "execute_collective (ci_env ci) (StrongId 1) four_floats rt4 = (Inr (StrongId 5), rt')"
    by (auto simp: session_def andthen_Inr ret_def)
  have out: "outputs (StrongId 1) rt' = (Inr ?outs, rt')" "execution_state (StrongId 1) rt' = (Inr SUCCEEDED, rt')"
    using e(2-4) by (simp_all add: outputs_def execution_state_def op_simps)
  have "cell 4 ?outs 0 0 = give (le_store 4 (four_sums (ev_floats (ci_env ci)) ! 0))"
    by (simp add: cell_element four_sums_def)
  then show ?thesis
    by (simp add: multiprocess_collective_def seq_def try_sum_def give_def with_runtime_def two_members_result paired_result p Let_def
        steps out print_lines_def change_def)
qed

text \<open>The ring, although the two ranks are on different nodes.\<close>

theorem topology_example_prints:
  "\<exists>steps. map_prod id cl_output (topology_plan ci c) = (Inr 0, cl_output c @
     [''topology nodes=2 devices=2 links=1 provenance=SYNTHETIC'', ''plan algorithm=RING steps='' @ steps])"
proof -
  obtain topo where topo: "network_topology ci = Inr (topo, (StrongId 1, StrongId 3), StrongId 2, StrongId 4)"
    "tp_generation topo = Generation 1" "node_count topo = 2" "length (tp_devices topo) = 2" "length (tp_links topo) = 1"
    by (simp add: network_topology_def add_node_def new_topology_def set_provenance_def add_device_def has_node_def err_simps
        add_link_def has_device_def node_count_def Let_def)
  let ?b = "cli_member 2 200 (StrongId 2) (StrongId 4) (cli_member 1 100 (StrongId 1) (StrongId 3) cli_builder)"
  have b: "fst (build ?b) = Inr (group_of ?b)"
    by (simp add: build_ok_iff builder_ok_def cli_member_def add_participant_def
        cli_builder_def new_group_builder_def gen_is_null_def id_is_null_def)
  have size: "cg_rank_count (group_of ?b) = nat 2" "group_size (group_of ?b) = of_nat (nat 2)"
    by (simp_all add: group_of_def cli_member_def add_participant_def cg_rank_count_def group_size_def cli_builder_def new_group_builder_def)
  have gen: "cli_builder\<lparr>gb_topology := Generation 1\<rparr> = cli_builder" by (simp add: cli_builder_def)
  have d: "sum_request (StrongId 1) (Generation 1) 1024 = cli_descriptor ALL_REDUCE FLOAT32 1024"
    by (simp add: sum_request_def cli_descriptor_def)
  obtain rt where rt: "register_group (group_of ?b) (cli_runtime topo) = (Inr (group_of ?b), rt)"
    by (simp add: register_group_def cli_runtime_def new_runtime_def)
  obtain pl where pl: "plan (rt_source_counter rt) (ci_plan_ns ci) (cli_planner_input (cli_descriptor ALL_REDUCE FLOAT32 1024) (group_of ?b) topo) =
      Inr (pl, rt_source_counter rt + 1)" "pl_algorithm pl = RING"
    using member_plan [of 2 "group_of ?b" ALL_REDUCE "rt_source_counter rt" "ci_plan_ns ci" FLOAT32 topo] size by auto
  have "digits 1 = ''1''" "digits 2 = ''2''" by code_simp+
  moreover have "register_backend (Some (reference_backend (StrongId 1) (Generation 1))) new_runtime =
      (Inr (), new_runtime\<lparr>rt_backends := [(StrongId 1, reference_backend (StrongId 1) (Generation 1))]\<rparr>)"
    "adopt_topology topo (new_runtime\<lparr>rt_backends := [(StrongId 1, reference_backend (StrongId 1) (Generation 1))]\<rparr>) = (Inr (), cli_runtime topo)"
    by (simp_all add: register_backend_def adopt_topology_def op_simps reference_backend_def new_runtime_def cli_runtime_def Let_def)
  ultimately show ?thesis
    by (simp add: topology_plan_def run_plan_def act_simps topo gen b rt d pl)
qed

end
