(* ===== verification/Spec2Isabelle.thy ===== *)
theory Spec2Isabelle
  imports CF_Accounting CF_Protocol CF_Store CF_Lifecycle CF_Authority CF_Group CF_Descriptor CF_Topology
    CF_Engine CF_Planner CF_Measured CF_Health CF_Runtime CF_Session
    CF_Board CF_Typing CF_Scalars CF_Explain CF_Tcp
    CF_Wire CF_Coordinator CF_Recovery CF_Exchange CF_Closure CF_Worker CF_Waiting CF_Scenario CF_Arrivals
    CF_Program CF_Restart CF_Clock
    CF_Arguments CF_Commands CF_PlanCommand CF_Examples
begin

text \<open>
  Collective Fabric: a control plane for collective operations among the ranks of a group. An application
  forms a \<^emph>\<open>group\<close> of participants, describes a \<^emph>\<open>collective\<close> over it, has the \<^emph>\<open>planner\<close> choose an
  algorithm, reserves and dispatches the execution, and the \<^emph>\<open>runtime\<close> runs it on the reference
  \<^emph>\<open>engine\<close>, decides completion by a \<^emph>\<open>quorum\<close> of all ranks and records a measurement. Coordinator and
  workers talk in \<^emph>\<open>frames\<close>; stale messages are fenced by \<^emph>\<open>authority\<close> claims; state survives in the
  \<^emph>\<open>store\<close>.

  \<^bold>\<open>Theories and the code they model.\<close> Paths are those of the repository, headers below
  \<open>include/collectivefabric\<close>.

  \<^item> \<open>CF_Prelude\<close>: lemmas on bytes, words, lists and the fault sum; the \<open>named_theorems\<close> collections.
  \<^item> \<open>CF_Foundation\<close>: \<open>foundation/identifier.hpp\<close>, \<open>generation.hpp\<close>, \<open>checked.hpp\<close>, \<open>errors.hpp\<close>. Ids and
    generations carry their C++ tag as a phantom type, so that mixing two kinds is a type error here too.
  \<^item> \<open>CF_Enums\<close>: \<open>foundation/enums.hpp\<close>, \<open>src/enums.cpp\<close>. \<open>CF_OrdMap\<close>: \<open>std::map\<close> as a sorted
    association list, in iteration order.
  \<^item> \<open>CF_Lifecycle\<close>: \<open>lifecycle.hpp\<close>. \<open>CF_Authority\<close>: \<open>authority.hpp\<close>. \<open>CF_Accounting\<close>: \<open>accounting.hpp\<close>.
  \<^item> \<open>CF_Canonical\<close>, \<open>CF_Crc32\<close>, \<open>CF_Sha256\<close>: \<open>digest/\<close> and \<open>src/digest.cpp\<close>. \<open>CF_Protocol\<close>:
    \<open>protocol.hpp\<close>, \<open>src/protocol.cpp\<close> and the receive loop of \<open>tools/mp.hpp\<close>. \<open>CF_Store\<close>: \<open>store.hpp\<close>,
    \<open>src/store.cpp\<close>.
  \<^item> \<open>CF_Group\<close>, \<open>CF_Topology\<close>, \<open>CF_Descriptor\<close>: \<open>group.hpp\<close>, \<open>topology.hpp\<close>, \<open>collective/descriptor.hpp\<close>.
  \<^item> \<open>CF_Engine\<close>: \<open>reference/engine.hpp\<close>. \<open>CF_Double\<close>, \<open>CF_Planner\<close>: \<open>backend/capabilities.hpp\<close>,
    \<open>collective/plan.hpp\<close>, \<open>planner/planner.hpp\<close>, \<open>src/planner.cpp\<close>; \<open>CF_Measured\<close>: the choice with measurements.
  \<^item> \<open>CF_Health\<close>: \<open>measurement.hpp\<close>, \<open>failure.hpp\<close>, \<open>health.hpp\<close>. \<open>CF_Runtime\<close>: \<open>runtime.hpp\<close>,
    \<open>src/runtime.cpp\<close>, one operation per method. \<open>CF_Session\<close>: the transition system of concurrent calls.
    \<open>CF_Relation\<close>: the locale of relations that every operation keeps; \<open>CF_Board\<close> and \<open>CF_Typing\<close> interpret
    it for an abstract specification of the runtime and for the typing of its state.
  \<^item> \<open>CF_Scalars\<close>: the signed and floating fields of \<open>digest/canonical.hpp\<close>. \<open>CF_Explain\<close>: \<open>explanation.hpp\<close>.
    \<open>CF_Numbers\<close>: \<open>atoi\<close> and \<open>strtoull\<close>. \<open>CF_Process\<close>: the steps of which the programs of \<open>tools/\<close> consist.
  \<^item> \<open>CF_Tcp\<close>: \<open>tools/tcp.hpp\<close>, the handles and the send loop over the answers of Winsock.
  \<^item> \<open>CF_Cli\<close>: \<open>tools/cli.cpp\<close>, every command, with what it prints; \<open>CF_Commands\<close> and \<open>CF_PlanCommand\<close> hold
    what is proved of it. \<open>CF_Examples\<close>: the programs of \<open>examples/\<close>. \<open>CF_Arguments\<close>: \<open>main\<close> of the
    coordinator and of the worker.
  \<^item> \<open>CF_Wire\<close>: \<open>tools/mp.hpp\<close>, the payloads and the channel that coordinator and workers share.
    \<open>CF_Coordinator\<close>: \<open>tools/coordinator.cpp\<close>, both programs (\<open>run_coordinator\<close>, \<open>run_recover\<close>), phase by
    phase. \<open>CF_Worker\<close>: \<open>tools/worker.cpp\<close>. \<open>CF_Recovery\<close>, \<open>CF_Exchange\<close> and
    \<open>CF_Closure\<close> hold what is proved of the coordinator alone, \<open>CF_Waiting\<close> how far each of its phases gets on
    the frames it has, \<open>CF_Scenario\<close> the two programs together, \<open>CF_Arrivals\<close> every order in which their frames
    can arrive, \<open>CF_Program\<close> the whole run, and \<open>CF_Restart\<close> the recovery after it.
  \<^item> \<open>CF_Clock\<close>: \<open>foundation/clock.hpp\<close>.

  \<^bold>\<open>How the model corresponds to the code.\<close> A class is a record with the fields of the class; a method is
  a function from the record, a getter the selector of its field and a setter its update. What a method throws is the \<open>Inl\<close> of its result, a \<open>fault\<close>: \<open>Error\<close> with the
  code and the text of the exception, \<open>Undefined\<close> where the C++ has undefined behaviour (an access out of
  range, a signed overflow), \<open>Nontermination\<close> where the code does not return. A method of the runtime also
  returns the state it leaves behind, because what was written before a throw stays written. \<open>uint64_t\<close> is
  \<open>64 word\<close> and wraps. Clock readings, IEEE operations of the engine and the outcome of file operations
  are arguments. The programs of \<open>tools/\<close> are steps on the state of the process, which go on with a value, exit
  with a code or throw; their input is what the operating system does: the blocks that arrive on each
  connection (the end of the list is a closed one), the connections that are accepted, the clock, the outcome of
  each save, the text of a float.

  \<^bold>\<open>What the lemmas show.\<close>

  \<^item> Bytes: frames, stored states and digested structures are read back as written, whatever is accepted
    is canonical, corruption of up to four consecutive bytes is detected, and the receive loop delivers the
    frames sent however the network cuts them. The table-driven CRC and the incremental SHA-256 equal
    their bitwise and blockwise definitions.
  \<^item> Data: builders and validators accept exactly the well-formed groups and descriptors; ranks are a
    bijection with \<open>0..n-1\<close> that does not depend on the order of calls; sizes never wrap.
  \<^item> Engine: ALL_REDUCE is the left fold of the contributions in rank order, exactly when every step is
    defined; the other reductions agree with it; unsigned reductions do not depend on the order (locale
    \<open>order_free\<close>, interpreted on the word operators).
  \<^item> Planner: it succeeds exactly on accepted requests, and without measurements its choice is a fixed
    table. With measurements no applicable algorithm is estimated to be faster than the chosen one, up to the
    tolerance of the comparison (rounding gives the nearest double).
  \<^item> Runtime: an invariant of all operations (\<open>runtime_ok\<close>, kept by every \<open>safe\<close> operation) and of every
    interleaving; success needs every rank; a whole session succeeds; the error paths that always fire.
    Whatever is interleaved, the runtime implements the board (\<open>board_step\<close>): groups and attempts
    are added once, a lifecycle moves along \<open>allowed\<close>, completions only grow, success is for
    complete attempts. Its state stays well typed: every map is sorted without duplicates, every
    entry names what it is filed under and the reserved bytes are the sum of the ledger.
  \<^item> Coordinator and workers: payloads are read back as written; two workers and the coordinator fit
    together up to the first saved state (each side sends what the other needs), without deadlock and with the
    same outcome in whatever order their frames arrive; a recovering process gets the
    saved group back; what becomes of a lost worker, to the end of the run and
    in the process started after it, and which stale messages are accepted; command lines are
    read back as they were written.
  \<^item> Command line: what each of \<open>group-create\<close>, \<open>plan\<close>, \<open>execute-reference\<close> and \<open>save\<close>/\<open>recover\<close> prints and
    returns, for every kind of collective and every count; what the example programs print.
  \<^item> Sockets: the bytes of the frames sent arrive in order and nothing else, wherever \<open>send\<close> stops, and every
    socket opened is closed.

  \<^bold>\<open>Bounds and fuel.\<close> Loops are structural recursions, recursions with a termination proof, or, where
  the code need not return (\<open>ceil_log2\<close>), a \<open>partial_function\<close> whose \<open>None\<close> is proved to be exactly the
  arguments above \<open>2 ^ 63\<close>. The request loop of a worker ends because every frame uses up bytes of its
  connection. No definition has fuel. Runs of the session system are bounded by \<open>2 ^ 62\<close>
  steps, so that \<open>next_id_\<close>, which grows by at most two a step, does not wrap.

  \<^bold>\<open>Not modelled.\<close> What the clocks answer and what Winsock answers are inputs; socket options and the write mutex have no effect on what is stated here. The texts of
  \<open>%f\<close>, \<open>%g\<close> and \<open>operator<<\<close> of a float are parameters. The handle of the coordinator's log file is not modelled, the
  lines it writes are. The specialisations of \<open>std::hash\<close> only place the
  elements of unordered sets. The benchmarks measure the library. A connection that carries an empty block has ended. A receive that
  waits is one that finds the connection at its end: \<open>CF_Arrivals\<close> uses it for programs that send nothing after a
  receive has failed.
\<close>

end
